(* ===== verification/Prelude.thy ===== *)
theory Prelude
  imports Main "HOL-Library.Word" "HOL-Library.AList" "HOL-Library.Multiset"
begin

text \<open>
  The shared vocabulary of the development.

  \<^item> Machine types: \<open>byte\<close>, \<open>uint16\<close>, \<open>uint32\<close>, \<open>uint64\<close> are words of that
    width, so Go's wrap-around is the word's.
  \<^item> Go maps that the code iterates over are association lists with distinct keys; a
    \<open>for range\<close> visits the entries in the order of the list. Go leaves that order open, so
    the results are stated for every such list.
  \<^item> Buffered channels are lists with a capacity (\<open>chan_send\<close>, a \<open>select\<close> with a
    \<open>default\<close> branch).
  \<^item> \<open>transition_system\<close> is the interface of every component with a step relation: its
    client lemma lifts a step invariant to all reachable states.
\<close>

section \<open>Machine types\<close>

type_synonym byte = "8 word"
type_synonym uint8 = "8 word"
type_synonym uint16 = "16 word"
type_synonym uint32 = "32 word"
type_synonym uint64 = "64 word"
type_synonym bytes = "8 word list"

named_theorems assoc_simps \<open>lookup, update and delete on association lists\<close>
named_theorems chan_simps \<open>facts about buffered channels\<close>

unbundle bit_operations_syntax

text \<open>\<open>binary.BigEndian.AppendUint32\<close> and its inverse.\<close>

definition be32 :: "uint32 \<Rightarrow> bytes" where
  "be32 w = [ucast (drop_bit 24 w), ucast (drop_bit 16 w), ucast (drop_bit 8 w), ucast w]"

definition of_be32 :: "bytes \<Rightarrow> uint32" where
  "of_be32 bs = push_bit 24 (ucast (bs ! 0)) OR push_bit 16 (ucast (bs ! 1)) OR
     push_bit 8 (ucast (bs ! 2)) OR ucast (bs ! 3)"

lemma of_be32_be32 [simp]: "of_be32 (be32 w) = w"
  unfolding be32_def of_be32_def
proof (rule bit_word_eqI, goal_cases)
  case (1 n)
  then consider "n < 8" | "8 \<le> n" "n < 16" | "16 \<le> n" "n < 24" | "24 \<le> n" "n < 32" by force
  then show ?case by cases (auto simp: bit_simps)
qed

lemma be32_inject [simp]: "be32 v = be32 w \<longleftrightarrow> v = w"
  by (metis of_be32_be32)

lemma length_be32 [simp]: "length (be32 w) = 4"
  by (simp add: be32_def)

lemma unat_byte_less: "unat (b :: byte) < 256"
  using unsigned_less [of b, where ?'a = nat] by simp

lemma unat_byte_of_nat: "n < 256 \<Longrightarrow> unat (word_of_nat n :: byte) = n"
  by (simp add: unsigned_of_nat take_bit_eq_mod)

section \<open>Association lists as Go maps\<close>

text \<open>A Go map: distinct keys.\<close>

definition wf_map :: "('k \<times> 'v) list \<Rightarrow> bool" where
  "wf_map m \<longleftrightarrow> distinct (map fst m)"

lemma wf_map_Nil [simp]: "wf_map []"
  by (simp add: wf_map_def)

lemma wf_map_update [simp]: "wf_map m \<Longrightarrow> wf_map (AList.update k v m)"
  by (simp add: wf_map_def distinct_update)

lemma wf_map_delete [simp]: "wf_map m \<Longrightarrow> wf_map (AList.delete k m)"
  by (simp add: wf_map_def distinct_delete)

lemma map_of_alist_update [assoc_simps, simp]:
  "map_of (AList.update k v m) = (map_of m)(k \<mapsto> v)"
  by (rule update_conv')

lemma map_of_alist_delete [assoc_simps, simp]:
  "map_of (AList.delete k m) = (map_of m)(k := None)"
  by (rule delete_conv')

lemma fst_set_delete [simp]: "fst ` set (AList.delete k m) = fst ` set m - {k}"
  by (auto simp flip: dom_map_of_conv_image_fst)

lemma fst_set_update [simp]: "fst ` set (AList.update k v m) = insert k (fst ` set m)"
  by (simp flip: dom_map_of_conv_image_fst)

lemma map_of_eq_Some_iff [assoc_simps]:
  "wf_map m \<Longrightarrow> map_of m k = Some v \<longleftrightarrow> (k, v) \<in> set m"
  by (simp add: wf_map_def)

lemma map_of_None_iff: "map_of m k = None \<longleftrightarrow> k \<notin> fst ` set m"
  by (rule map_of_eq_None_iff)

lemma length_delete_less:
  "map_of m k = Some v \<Longrightarrow> length (AList.delete k m) < length m"
  by (induction m) (auto split: if_splits intro: le_imp_less_Suc length_delete_le)

lemma length_delete_present:
  "wf_map m \<Longrightarrow> map_of m k = Some v \<Longrightarrow> Suc (length (AList.delete k m)) = length m"
proof (induction m)
  case (Cons p m)
  show ?case
  proof (cases "fst p = k")
    case True
    with Cons.prems(1) have "k \<notin> fst ` set m" by (auto simp: wf_map_def)
    with True show ?thesis by simp
  next
    case False
    with Cons show ?thesis by (auto simp: wf_map_def)
  qed
qed simp

lemma length_delete_absent: "map_of m k = None \<Longrightarrow> AList.delete k m = m"
  by (simp add: map_of_eq_None_iff)

lemma length_update_absent:
  "map_of m k = None \<Longrightarrow> length (AList.update k v m) = Suc (length m)"
  by (induction m) (auto split: if_splits)

lemma length_update_present:
  "map_of m k = Some w \<Longrightarrow> length (AList.update k v m) = length m"
  by (induction m) (auto split: if_splits)

text \<open>A map keyed by 32-bit identifiers mapped entry by entry.\<close>

lemma map_of_map_entries:
  "map_of (map (\<lambda>(k, v). (k, f k v)) m) x = map_option (f x) (map_of m x)"
  by (induction m) auto

lemma wf_map_map_entries [simp]:
  "wf_map (map (\<lambda>(k, v). (k, f k v)) m) = wf_map m"
  by (simp add: wf_map_def comp_def case_prod_beta)

lemma alist_update_eq_map:
  "wf_map m \<Longrightarrow> map_of m k = Some w \<Longrightarrow>
     AList.update k v m = map (\<lambda>(k', c). (k', if k' = k then v else c)) m"
proof (induction m)
  case (Cons p m)
  show ?case
  proof (cases "fst p = k")
    case True
    with Cons.prems(1) have "k \<notin> fst ` set m" by (auto simp: wf_map_def)
    then have "map (\<lambda>(k', c). (k', if k' = k then v else c)) m = m"
      by (intro map_idI) (auto simp: rev_image_eqI)
    with True show ?thesis by (cases p) simp
  next
    case False
    with Cons show ?thesis by (cases p) (auto simp: wf_map_def)
  qed
qed simp

lemma map_entry_absent:
  "map_of m k = None \<Longrightarrow> map (\<lambda>(k', c). (k', if k' = k then f c else c)) m = m"
  by (intro map_idI) (auto simp: map_of_eq_None_iff rev_image_eqI)

lemma wf_map_permute: "mset m' = mset m \<Longrightarrow> wf_map m' = wf_map m"
  by (metis mset_eq_imp_distinct_iff mset_map wf_map_def)

lemma map_of_permute: "wf_map m \<Longrightarrow> mset m' = mset m \<Longrightarrow> map_of m' = map_of m"
  by (metis map_of_inject_set mset_eq_setD wf_map_def wf_map_permute)

section \<open>Buffered channels\<close>

text \<open>
  A buffered channel is the list of queued values, oldest first. A \<open>select\<close> whose only
  other branch is \<open>default\<close> enqueues when there is room and reports otherwise.
\<close>

definition chan_send :: "nat \<Rightarrow> 'a list \<Rightarrow> 'a \<Rightarrow> 'a list option" where
  "chan_send cap q x = (if length q < cap then Some (q @ [x]) else None)"

text \<open>Sends in order, each dropped when the buffer is full.\<close>

fun chan_send_all :: "nat \<Rightarrow> 'a list \<Rightarrow> 'a list \<Rightarrow> 'a list" where
  "chan_send_all cap q [] = q"
| "chan_send_all cap q (x # xs) =
     chan_send_all cap (case chan_send cap q x of Some q' \<Rightarrow> q' | None \<Rightarrow> q) xs"

lemma chan_send_Some_iff [chan_simps]:
  "chan_send cap q x = Some q' \<longleftrightarrow> length q < cap \<and> q' = q @ [x]"
  by (auto simp: chan_send_def)

lemma chan_send_None_iff [chan_simps]: "chan_send cap q x = None \<longleftrightarrow> cap \<le> length q"
  by (auto simp: chan_send_def)

lemma chan_send_all_take:
  "length q \<le> cap \<Longrightarrow> chan_send_all cap q xs = take cap (q @ xs)"
proof (induction xs arbitrary: q)
  case (Cons x xs)
  then show ?case
    by (cases "length q < cap") (auto simp: chan_send_def take_Cons' simp flip: diff_Suc_1)
qed simp

section \<open>Transition systems\<close>

text \<open>
  The interface of a component with state: where it starts and how it steps, together with
  an invariant that its provider proves of the start and of every step. What the client gets
  is the invariant on every reachable state and along every run.
\<close>

inductive reachable_from :: "('s \<Rightarrow> bool) \<Rightarrow> ('s \<Rightarrow> 'e \<Rightarrow> 's \<Rightarrow> bool) \<Rightarrow> 's \<Rightarrow> bool"
  for initial :: "'s \<Rightarrow> bool" and step :: "'s \<Rightarrow> 'e \<Rightarrow> 's \<Rightarrow> bool" where
  reach_initial: "initial s \<Longrightarrow> reachable_from initial step s"
| reach_step: "reachable_from initial step s \<Longrightarrow> step s e t \<Longrightarrow> reachable_from initial step t"

lemma reachable_mono: "reachable_from i step s \<Longrightarrow> (\<And>s. i s \<Longrightarrow> j s) \<Longrightarrow> reachable_from j step s"
  by (induction rule: reachable_from.induct) (auto intro: reachable_from.intros)

locale transition_system =
  fixes initial :: "'s \<Rightarrow> bool"
    and step :: "'s \<Rightarrow> 'e \<Rightarrow> 's \<Rightarrow> bool"
    and invariant :: "'s \<Rightarrow> bool"
  assumes initial_invariant: "initial s \<Longrightarrow> invariant s"
    and step_invariant: "step s e t \<Longrightarrow> invariant s \<Longrightarrow> invariant t"
begin

lemma reachable_invariant: "reachable_from initial step s \<Longrightarrow> invariant s"
  by (induction rule: reachable_from.induct) (auto intro: initial_invariant step_invariant)

end

section \<open>Simulation\<close>

text \<open>
  The steps of a run with their labels. \<open>simulation\<close> extends a transition system by an abstract one
  that follows it step by step; its lemmas carry runs and reachable states over.
\<close>

inductive steps :: "('s \<Rightarrow> 'e \<Rightarrow> 's \<Rightarrow> bool) \<Rightarrow> 's \<Rightarrow> 'e list \<Rightarrow> 's \<Rightarrow> bool"
  for step :: "'s \<Rightarrow> 'e \<Rightarrow> 's \<Rightarrow> bool" where
  no_step: "steps step s [] s"
| one_step: "step s e t \<Longrightarrow> steps step t es u \<Longrightarrow> steps step s (e # es) u"

lemma steps_induct_inv:
  assumes "steps step s es t" "Q s" "\<And>s e t. step s e t \<Longrightarrow> Q s \<Longrightarrow> Q t"
  shows "Q t"
  using assms(1,2) by (induction rule: steps.induct) (auto intro: assms(3))

locale simulation = transition_system initial step invariant
  for initial :: "'s \<Rightarrow> bool" and step :: "'s \<Rightarrow> 'e \<Rightarrow> 's \<Rightarrow> bool" and invariant :: "'s \<Rightarrow> bool" +
  fixes ainitial :: "'a \<Rightarrow> bool"
    and astep :: "'a \<Rightarrow> 'e \<Rightarrow> 'a \<Rightarrow> bool"
    and abs :: "'s \<Rightarrow> 'a"
  assumes abs_initial: "initial s \<Longrightarrow> ainitial (abs s)"
    and abs_step: "step s e t \<Longrightarrow> invariant s \<Longrightarrow> astep (abs s) e (abs t)"
begin

lemma abs_steps: "steps step s es t \<Longrightarrow> invariant s \<Longrightarrow> steps astep (abs s) es (abs t)"
  by (induction rule: steps.induct) (auto intro: steps.intros abs_step step_invariant)

lemma abs_reachable: "reachable_from initial step s \<Longrightarrow> reachable_from ainitial astep (abs s)"
  by (induction rule: reachable_from.induct)
     (auto intro: reachable_from.intros abs_initial abs_step reachable_invariant)

end

end
