(* ===== verification/Wire.thy ===== *)
theory Wire
  imports Prelude
begin

text \<open>
  Package \<open>wire\<close> (src/wire/wire.go, src/wire/payload.go): the outer frame
  \<open>[version][MsgType][CBOR body]\<close>, the inner payload \<open>[kind][CBOR body]\<close>, the message
  structs and the hexadecimal session identifiers.

  The CBOR library (fxamacker/cbor) is not part of the repository. It is the parameter
  \<open>'a cbor\<close>, one pair of functions for each Go type \<open>'a\<close> that \<open>Marshal\<close> and
  \<open>Body[T]\<close> are used at; \<open>cbor_roundtrip\<close> names what the code relies on: what was
  marshalled unmarshals to the same value. \<open>encoding/hex\<close> is modelled.
\<close>

section \<open>The CBOR library as a parameter\<close>

record 'a cbor =
  marshal :: "'a \<Rightarrow> bytes option"
  unmarshal :: "bytes \<Rightarrow> 'a option"

definition cbor_roundtrip :: "'a cbor \<Rightarrow> bool" where
  "cbor_roundtrip c \<longleftrightarrow> (\<forall>v b. marshal c v = Some b \<longrightarrow> unmarshal c b = Some v)"

lemma cbor_roundtripD: "cbor_roundtrip c \<Longrightarrow> marshal c v = Some b \<Longrightarrow> unmarshal c b = Some v"
  by (simp add: cbor_roundtrip_def)

text \<open>The codec of raw bodies: framing alone.\<close>

definition raw_cbor :: "bytes cbor" where
  "raw_cbor = \<lparr>marshal = Some, unmarshal = Some\<rparr>"

lemma raw_cbor_simps [simp]: "marshal raw_cbor b = Some b" "unmarshal raw_cbor b = Some b"
  by (simp_all add: raw_cbor_def)

section \<open>Constants\<close>

type_synonym MsgType = uint8
type_synonym PayloadKind = uint8
type_synonym ParticipantID = uint32
type_synonym SessionID = bytes

definition Version :: byte where "Version = 0x01"

definition MaxFrame :: nat where "MaxFrame = 64 * 1024"

abbreviation MsgCreateSession :: MsgType where "MsgCreateSession \<equiv> 1"
abbreviation MsgSessionCreated :: MsgType where "MsgSessionCreated \<equiv> 2"
abbreviation MsgJoinSession :: MsgType where "MsgJoinSession \<equiv> 3"
abbreviation MsgJoinResult :: MsgType where "MsgJoinResult \<equiv> 4"
abbreviation MsgParticipantJoined :: MsgType where "MsgParticipantJoined \<equiv> 5"
abbreviation MsgParticipantLeft :: MsgType where "MsgParticipantLeft \<equiv> 6"
abbreviation MsgDirect :: MsgType where "MsgDirect \<equiv> 7"
abbreviation MsgBroadcast :: MsgType where "MsgBroadcast \<equiv> 8"
abbreviation MsgPing :: MsgType where "MsgPing \<equiv> 9"
abbreviation MsgPong :: MsgType where "MsgPong \<equiv> 10"
abbreviation MsgError :: MsgType where "MsgError \<equiv> 11"
abbreviation MsgSessionClosed :: MsgType where "MsgSessionClosed \<equiv> 12"
abbreviation MsgResumeSession :: MsgType where "MsgResumeSession \<equiv> 13"
abbreviation MsgClaimHost :: MsgType where "MsgClaimHost \<equiv> 14"

abbreviation ErrCodeUnsupportedVersion :: uint16 where "ErrCodeUnsupportedVersion \<equiv> 1"
abbreviation ErrCodeSessionNotFound :: uint16 where "ErrCodeSessionNotFound \<equiv> 2"
abbreviation ErrCodeSessionExists :: uint16 where "ErrCodeSessionExists \<equiv> 3"
abbreviation ErrCodeSessionFull :: uint16 where "ErrCodeSessionFull \<equiv> 4"
abbreviation ErrCodeRateLimited :: uint16 where "ErrCodeRateLimited \<equiv> 5"
abbreviation ErrCodeBadFrame :: uint16 where "ErrCodeBadFrame \<equiv> 6"
abbreviation ErrCodeUnknownPeer :: uint16 where "ErrCodeUnknownPeer \<equiv> 7"
abbreviation ErrCodeResumeRejected :: uint16 where "ErrCodeResumeRejected \<equiv> 8"

abbreviation KindPake1 :: PayloadKind where "KindPake1 \<equiv> 1"
abbreviation KindPake2 :: PayloadKind where "KindPake2 \<equiv> 2"
abbreviation KindGroupKey :: PayloadKind where "KindGroupKey \<equiv> 3"
abbreviation KindSealed :: PayloadKind where "KindSealed \<equiv> 4"
abbreviation KindRekey :: PayloadKind where "KindRekey \<equiv> 5"
abbreviation KindRekeyPake1 :: PayloadKind where "KindRekeyPake1 \<equiv> 6"
abbreviation KindRekeyPake2 :: PayloadKind where "KindRekeyPake2 \<equiv> 7"

section \<open>Message structs\<close>

record CreateSession =
  cs_SessionID :: SessionID
  cs_MaxParticipants :: uint8

record SessionCreated =
  sc_ParticipantID :: ParticipantID
  sc_ResumeToken :: bytes

record JoinSession =
  js_SessionID :: SessionID

record JoinResult =
  jr_OK :: bool
  jr_Err :: string
  jr_ParticipantID :: ParticipantID
  jr_Peers :: "ParticipantID list"
  jr_HostID :: ParticipantID
  jr_ResumeToken :: bytes

record ResumeSession =
  rs_SessionID :: SessionID
  rs_ParticipantID :: ParticipantID
  rs_Token :: bytes

record ParticipantJoined =
  pj_ParticipantID :: ParticipantID

record ParticipantLeft =
  pl_ParticipantID :: ParticipantID

record Direct =
  d_To :: ParticipantID
  d_From :: ParticipantID
  d_Payload :: bytes

record Broadcast =
  b_From :: ParticipantID
  b_Payload :: bytes

record Ping =
  ping_Nonce :: uint32

record Pong =
  pong_Nonce :: uint32

record Error =
  e_Code :: uint16
  e_Msg :: string

record SessionClosed =
  sc_Reason :: string

record Pake =
  p_Data :: bytes
  p_Spectate :: bool

record GroupKey =
  gk_Nonce :: bytes
  gk_Ciphertext :: bytes

record SealedFrame =
  sf_Nonce :: bytes
  sf_Ciphertext :: bytes

record Envelope =
  env_ServiceID :: string
  env_Seq :: uint64
  env_Body :: bytes

text \<open>One codec for each struct the program marshals.\<close>

record codecs =
  cCreateSession :: "CreateSession cbor"
  cSessionCreated :: "SessionCreated cbor"
  cJoinSession :: "JoinSession cbor"
  cJoinResult :: "JoinResult cbor"
  cResumeSession :: "ResumeSession cbor"
  cClaimHost :: "unit cbor"
  cParticipantJoined :: "ParticipantJoined cbor"
  cParticipantLeft :: "ParticipantLeft cbor"
  cDirect :: "Direct cbor"
  cBroadcast :: "Broadcast cbor"
  cPing :: "Ping cbor"
  cPong :: "Pong cbor"
  cError :: "Error cbor"
  cSessionClosed :: "SessionClosed cbor"
  cPake :: "Pake cbor"
  cGroupKey :: "GroupKey cbor"
  cSealedFrame :: "SealedFrame cbor"
  cEnvelope :: "Envelope cbor"

text \<open>The law the program relies on, for all its structs at once.\<close>

definition codecs_ok :: "codecs \<Rightarrow> bool" where
  "codecs_ok cb \<longleftrightarrow>
     cbor_roundtrip (cCreateSession cb) \<and> cbor_roundtrip (cSessionCreated cb) \<and>
     cbor_roundtrip (cJoinSession cb) \<and> cbor_roundtrip (cJoinResult cb) \<and>
     cbor_roundtrip (cResumeSession cb) \<and> cbor_roundtrip (cClaimHost cb) \<and>
     cbor_roundtrip (cParticipantJoined cb) \<and> cbor_roundtrip (cParticipantLeft cb) \<and>
     cbor_roundtrip (cDirect cb) \<and> cbor_roundtrip (cBroadcast cb) \<and>
     cbor_roundtrip (cPing cb) \<and> cbor_roundtrip (cPong cb) \<and>
     cbor_roundtrip (cError cb) \<and> cbor_roundtrip (cSessionClosed cb) \<and>
     cbor_roundtrip (cPake cb) \<and> cbor_roundtrip (cGroupKey cb) \<and>
     cbor_roundtrip (cSealedFrame cb) \<and> cbor_roundtrip (cEnvelope cb)"

section \<open>Frames\<close>

datatype hex_error = InvalidByteError char | ErrLength

datatype wire_error =
    ErrFrameTooShort
  | ErrFrameTooLarge
  | ErrUnsupportedVersion byte
  | ErrEncode MsgType
  | ErrEncodePayload PayloadKind
  | ErrDecodeBody
  | ErrPayloadTooShort
  | ErrSessionIDLength
  | ErrSessionIDHex hex_error

definition Encode :: "'a cbor \<Rightarrow> MsgType \<Rightarrow> 'a \<Rightarrow> wire_error + bytes" where
  "Encode c t body =
     (case marshal c body of
        None \<Rightarrow> Inl (ErrEncode t)
      | Some b \<Rightarrow>
          (let frame = [Version, t] @ b
           in if length frame > MaxFrame then Inl ErrFrameTooLarge else Inr frame))"

definition Decode :: "bytes \<Rightarrow> wire_error + (MsgType \<times> bytes)" where
  "Decode frame =
     (if length frame > MaxFrame then Inl ErrFrameTooLarge
      else if length frame < 2 then Inl ErrFrameTooShort
      else if frame ! 0 \<noteq> Version then Inl (ErrUnsupportedVersion (frame ! 0))
      else Inr (frame ! 1, drop 2 frame))"

definition Marshal :: "'a cbor \<Rightarrow> 'a \<Rightarrow> bytes option" where
  "Marshal c v = marshal c v"

definition Body :: "'a cbor \<Rightarrow> bytes \<Rightarrow> wire_error + 'a" where
  "Body c raw = (case unmarshal c raw of None \<Rightarrow> Inl ErrDecodeBody | Some v \<Rightarrow> Inr v)"

definition EncodePayload :: "'a cbor \<Rightarrow> PayloadKind \<Rightarrow> 'a \<Rightarrow> wire_error + bytes" where
  "EncodePayload c k body =
     (case marshal c body of None \<Rightarrow> Inl (ErrEncodePayload k) | Some b \<Rightarrow> Inr (k # b))"

definition DecodePayload :: "bytes \<Rightarrow> wire_error + (PayloadKind \<times> bytes)" where
  "DecodePayload payload =
     (if length payload < 1 then Inl ErrPayloadTooShort
      else Inr (payload ! 0, drop 1 payload))"

subsection \<open>The framing interface\<close>

text \<open>
  What the two layers promise their callers: splitting what was framed gives back header and
  body, and a successful split is of a frame that framing would have built.
\<close>

locale framing =
  fixes enc :: "'h \<Rightarrow> bytes \<Rightarrow> 'e + bytes"
    and dec :: "bytes \<Rightarrow> 'e + ('h \<times> bytes)"
  assumes dec_enc: "enc h b = Inr f \<Longrightarrow> dec f = Inr (h, b)"
    and enc_dec: "dec f = Inr (h, b) \<Longrightarrow> enc h b = Inr f"
begin

lemma dec_iff: "dec f = Inr (h, b) \<longleftrightarrow> enc h b = Inr f"
  using dec_enc enc_dec by blast

lemma enc_inject: "enc h b = Inr f \<Longrightarrow> enc h' b' = Inr f \<Longrightarrow> h' = h \<and> b' = b"
  by (metis dec_enc old.sum.inject(2) prod.inject)

lemma typed_roundtrip:
  assumes "cbor_roundtrip c" and "marshal c v = Some b" and "enc h b = Inr f"
  shows "dec f = Inr (h, b) \<and> Body c b = Inr v"
  using assms by (simp add: dec_enc Body_def cbor_roundtripD)

end

lemma Encode_raw:
  "Encode c t v = (case marshal c v of None \<Rightarrow> Inl (ErrEncode t) | Some b \<Rightarrow> Encode raw_cbor t b)"
  by (simp add: Encode_def split: option.split)

lemma EncodePayload_raw:
  "EncodePayload c k v =
     (case marshal c v of None \<Rightarrow> Inl (ErrEncodePayload k) | Some b \<Rightarrow> EncodePayload raw_cbor k b)"
  by (simp add: EncodePayload_def split: option.split)

lemma length2_conv: "\<not> length f < 2 \<Longrightarrow> f = (f ! 0) # (f ! 1) # drop 2 f"
  by (cases f; cases "tl f") auto

interpretation frame: framing "Encode raw_cbor" Decode
proof unfold_locales
  show "Decode f = Inr (h, b)" if "Encode raw_cbor h b = Inr f" for h b f
    using that by (auto simp: Encode_def Decode_def Let_def split: if_splits)
  show "Encode raw_cbor h b = Inr f" if "Decode f = Inr (h, b)" for h b f
    using that length2_conv [of f]
    by (auto simp: Encode_def Decode_def Let_def split: if_splits)
qed

interpretation payload: framing "EncodePayload raw_cbor" DecodePayload
proof unfold_locales
  show "DecodePayload f = Inr (h, b)" if "EncodePayload raw_cbor h b = Inr f" for h b f
    using that by (auto simp: EncodePayload_def DecodePayload_def)
  show "EncodePayload raw_cbor h b = Inr f" if "DecodePayload f = Inr (h, b)" for h b f
    using that by (cases f) (auto simp: EncodePayload_def DecodePayload_def split: if_splits)
qed

lemma Encode_Inr_iff:
  "Encode c t v = Inr f \<longleftrightarrow>
     (\<exists>b. marshal c v = Some b \<and> f = Version # t # b \<and> length f \<le> MaxFrame)"
  by (auto simp: Encode_def Let_def split: option.split)

lemma EncodePayload_Inr_iff:
  "EncodePayload c k v = Inr p \<longleftrightarrow> (\<exists>b. marshal c v = Some b \<and> p = k # b)"
  by (auto simp: EncodePayload_def split: option.split)

lemma DecodePayload_Cons [simp]: "DecodePayload (k # b) = Inr (k, b)"
  by (simp add: DecodePayload_def)

lemma Body_roundtrip: "cbor_roundtrip c \<Longrightarrow> marshal c v = Some b \<Longrightarrow> Body c b = Inr v"
  by (simp add: Body_def cbor_roundtripD)

lemma Body_Inr_iff: "Body c raw = Inr v \<longleftrightarrow> unmarshal c raw = Some v"
  by (auto simp: Body_def split: option.split)

lemma Encode_decodes:
  "cbor_roundtrip c \<Longrightarrow> Encode c t v = Inr f \<Longrightarrow> \<exists>r. Decode f = Inr (t, r) \<and> Body c r = Inr v"
  by (auto simp: Encode_Inr_iff Decode_def Body_Inr_iff cbor_roundtripD)

section \<open>Session identifiers in hexadecimal\<close>

text \<open>\<open>encoding/hex\<close>: \<open>EncodeToString\<close> and \<open>Decode\<close>.\<close>

definition hex_digit :: "nat \<Rightarrow> char" where
  "hex_digit n = ''0123456789abcdef'' ! n"

definition from_hex_char :: "char \<Rightarrow> nat option" where
  "from_hex_char c =
     (let n = of_char c :: nat
      in if 48 \<le> n \<and> n \<le> 57 then Some (n - 48)
         else if 97 \<le> n \<and> n \<le> 102 then Some (n - 87)
         else if 65 \<le> n \<and> n \<le> 70 then Some (n - 55)
         else None)"

definition ascii_lower :: "char \<Rightarrow> char" where
  "ascii_lower c = (let n = of_char c :: nat in if 65 \<le> n \<and> n \<le> 90 then char_of (n + 32) else c)"

fun EncodeToString :: "bytes \<Rightarrow> string" where
  "EncodeToString [] = []"
| "EncodeToString (b # bs) =
     hex_digit (unat b div 16) # hex_digit (unat b mod 16) # EncodeToString bs"

fun hex_Decode :: "string \<Rightarrow> hex_error + bytes" where
  "hex_Decode [] = Inr []"
| "hex_Decode [p] = (if from_hex_char p = None then Inl (InvalidByteError p) else Inl ErrLength)"
| "hex_Decode (p # q # src) =
     (case from_hex_char p of
        None \<Rightarrow> Inl (InvalidByteError p)
      | Some a \<Rightarrow>
          (case from_hex_char q of
             None \<Rightarrow> Inl (InvalidByteError q)
           | Some b \<Rightarrow>
               (case hex_Decode src of
                  Inl e \<Rightarrow> Inl e
                | Inr bs \<Rightarrow> Inr (word_of_nat (16 * a + b) # bs))))"

definition SessionParam :: string where "SessionParam = ''s''"

definition Hex :: "SessionID \<Rightarrow> string" where
  "Hex s = EncodeToString s"

definition ParseSessionID :: "string \<Rightarrow> wire_error + SessionID" where
  "ParseSessionID h =
     (if length h \<noteq> 2 * 16 then Inl ErrSessionIDLength
      else case hex_Decode h of Inl e \<Rightarrow> Inl (ErrSessionIDHex e) | Inr s \<Rightarrow> Inr s)"

lemma hex_digit_conv: "n < 16 \<Longrightarrow> hex_digit n = char_of (if n < 10 then 48 + n else 87 + n)"
proof -
  have "list_all (\<lambda>n. hex_digit n = char_of (if n < 10 then 48 + n else 87 + n)) [0..<16]"
    by code_simp
  then show "n < 16 \<Longrightarrow> ?thesis" by (simp add: list_all_iff)
qed

lemma from_hex_digit: "n < 16 \<Longrightarrow> from_hex_char (hex_digit n) = Some n"
  by (auto simp: hex_digit_conv from_hex_char_def)

lemma hex_digit_from_hex: "from_hex_char c = Some n \<Longrightarrow> n < 16 \<and> hex_digit n = ascii_lower c"
  by (auto simp: from_hex_char_def hex_digit_conv ascii_lower_def Let_def split: if_splits)

lemma from_hex_lower [simp]: "from_hex_char (ascii_lower c) = from_hex_char c"
  by (auto simp: from_hex_char_def ascii_lower_def Let_def)

lemma length_EncodeToString [simp]: "length (EncodeToString bs) = 2 * length bs"
  by (induction bs) auto

lemma hex_Decode_EncodeToString: "hex_Decode (EncodeToString bs) = Inr bs"
proof (induction bs)
  case (Cons b bs)
  have "unat b div 16 < 16" using unat_byte_less [of b] by simp
  with Cons show ?case by (simp add: from_hex_digit)
qed simp

lemma hex_Decode_Inr:
  "hex_Decode h = Inr bs \<Longrightarrow> EncodeToString bs = map ascii_lower h"
proof (induction h arbitrary: bs rule: hex_Decode.induct)
  case (3 p q src)
  then obtain a b bs' where h: "from_hex_char p = Some a" "from_hex_char q = Some b"
    "hex_Decode src = Inr bs'" "bs = word_of_nat (16 * a + b) # bs'"
    by (auto split: option.splits sum.splits)
  from h(1,2) have ab: "a < 16" "b < 16" "hex_digit a = ascii_lower p" "hex_digit b = ascii_lower q"
    by (auto dest: hex_digit_from_hex)
  then have "unat (word_of_nat (16 * a + b) :: byte) = 16 * a + b"
    by (intro unat_byte_of_nat) simp
  with ab h 3 show ?case by auto
qed (auto split: if_splits)

lemma hex_Decode_lower:
  "hex_Decode (map ascii_lower h) = Inr bs \<longleftrightarrow> hex_Decode h = Inr bs"
proof (induction h arbitrary: bs rule: induct_list012)
  case (3 p q src)
  show ?case
    using "3.IH"(1) by (simp split: option.split sum.split) (metis Inl_Inr_False Inr_inject)
qed simp_all

lemma hex_Decode_iff: "hex_Decode h = Inr bs \<longleftrightarrow> EncodeToString bs = map ascii_lower h"
  by (metis hex_Decode_EncodeToString hex_Decode_Inr hex_Decode_lower)

section \<open>Properties of the wire format\<close>

text \<open>A concrete codec used in closed examples: a \<open>Ping\<close> as its four big-endian bytes.\<close>

definition ping_codec :: "Ping cbor" where
  "ping_codec = \<lparr>marshal = (\<lambda>p. Some (be32 (ping_Nonce p))),
                 unmarshal = (\<lambda>b. Some \<lparr>ping_Nonce = of_be32 b\<rparr>)\<rparr>"

lemma ping_codec_roundtrip: "cbor_roundtrip ping_codec"
  by (simp add: cbor_roundtrip_def ping_codec_def)

text \<open>
  C35. A frame built by \<open>Encode\<close> stays within \<open>MaxFrame\<close>, and the receiver's \<open>Decode\<close>
  followed by \<open>Body\<close> returns exactly the message type and the value that were encoded.
\<close>

theorem frame_roundtrip:
  assumes "cbor_roundtrip c" and "Encode c t v = Inr f"
  shows "length f \<le> MaxFrame \<and> (\<exists>raw. Decode f = Inr (t, raw) \<and> Body c raw = Inr v)"
proof -
  from assms(2) obtain b where b: "marshal c v = Some b" "Encode raw_cbor t b = Inr f"
    by (auto simp: Encode_raw [of c] split: option.splits)
  from frame.typed_roundtrip [OF assms(1) b] assms(2) show ?thesis
    by (auto simp: Encode_Inr_iff)
qed

theorem frame_roundtrip_witness:
  "length [Version, MsgPing, 0, 0, 1, 2] \<le> MaxFrame \<and>
   (\<exists>raw. Decode [Version, MsgPing, 0, 0, 1, 2] = Inr (MsgPing, raw) \<and>
          Body ping_codec raw = Inr \<lparr>ping_Nonce = 258\<rparr>)"
proof -
  have "Encode ping_codec MsgPing \<lparr>ping_Nonce = 258\<rparr> = Inr [Version, MsgPing, 0, 0, 1, 2]"
    by (simp add: Encode_def ping_codec_def be32_def MaxFrame_def)
  from frame_roundtrip [OF ping_codec_roundtrip this] show ?thesis .
qed

text \<open>
  \<open>Decode\<close> accepts exactly the byte strings that start with the version byte, carry a
  type byte and are at most \<open>MaxFrame\<close> long, and splits them without loss.
\<close>

theorem Decode_accepts_iff:
  "Decode f = Inr (t, raw) \<longleftrightarrow> f = Version # t # raw \<and> length raw + 2 \<le> MaxFrame"
  by (auto simp: frame.dec_iff Encode_Inr_iff)

text \<open>
  The inner payload layer has the same round trip: \<open>DecodePayload\<close> and \<open>Body\<close>
  recover kind and value of what \<open>EncodePayload\<close> built.
\<close>

theorem payload_roundtrip:
  assumes "cbor_roundtrip c" and "EncodePayload c k v = Inr p"
  shows "\<exists>raw. DecodePayload p = Inr (k, raw) \<and> Body c raw = Inr v"
proof -
  from assms(2) obtain b where b: "marshal c v = Some b" "EncodePayload raw_cbor k b = Inr p"
    by (auto simp: EncodePayload_raw [of c] split: option.splits)
  from payload.typed_roundtrip [OF assms(1) b] show ?thesis by blast
qed

theorem payload_roundtrip_witness:
  "\<exists>raw. DecodePayload [KindSealed, 0, 0, 1, 2] = Inr (KindSealed, raw) \<and>
         Body ping_codec raw = Inr \<lparr>ping_Nonce = 258\<rparr>"
proof -
  have "EncodePayload ping_codec KindSealed \<lparr>ping_Nonce = 258\<rparr> = Inr [KindSealed, 0, 0, 1, 2]"
    by (simp add: EncodePayload_def ping_codec_def be32_def)
  from payload_roundtrip [OF ping_codec_roundtrip this] show ?thesis .
qed

text \<open>
  C36. \<open>ParseSessionID\<close> returns \<open>s\<close> exactly for the 32-character spellings of
  \<open>s.Hex()\<close> up to letter case, so parsing inverts \<open>Hex\<close>; upper-case digits are accepted
  although the function is documented for lower-case hexadecimal only.
\<close>

theorem ParseSessionID_iff:
  "ParseSessionID h = Inr s \<longleftrightarrow> length s = 16 \<and> Hex s = map ascii_lower h"
proof -
  have len: "length h = 2 * length s" if "Hex s = map ascii_lower h"
    using arg_cong [OF that, of length] by (simp add: Hex_def)
  have "ParseSessionID h = Inr s \<longleftrightarrow> length h = 32 \<and> hex_Decode h = Inr s"
    by (simp add: ParseSessionID_def split: sum.split)
  also have "\<dots> \<longleftrightarrow> length h = 32 \<and> Hex s = map ascii_lower h"
    by (simp add: Hex_def hex_Decode_iff)
  also have "\<dots> \<longleftrightarrow> length s = 16 \<and> Hex s = map ascii_lower h"
    using len by auto
  finally show ?thesis .
qed

end
