(* ===== verification/Hub.thy ===== *)
theory Hub
  imports Wire
begin

text \<open>
  The session hub of the relay (src/relay/hub.go): the state confined to the \<open>run\<close>
  goroutine and one definition for each handler. A handler maps the hub and a command to the
  new hub; what it does to the outside is recorded in the hub's logs: \<open>h_kicks\<close> (calls of a
  connection's \<open>kick\<close>) and \<open>h_replies\<close> (values sent on a command's reply channel). A
  connection is named by a number. The bytes that \<open>newToken\<close> draws are an argument of the
  join command.

  The metrics of src/relay/stats.go are shared by all hubs of a server; a hub carries the
  current counters.
\<close>

section \<open>State\<close>

type_synonym conn = nat

record Metrics =
  SessionsCreated :: uint64
  FramesForwarded :: uint64
  BytesForwarded :: uint64
  Joins :: uint64
  Resumes :: uint64
  Errors :: uint64

definition zero_Metrics :: Metrics where
  "zero_Metrics = \<lparr>SessionsCreated = 0, FramesForwarded = 0, BytesForwarded = 0,
                   Joins = 0, Resumes = 0, Errors = 0\<rparr>"

record client =
  cl_id :: ParticipantID
  cl_out :: "bytes list"
  cl_kick :: conn
  cl_token :: bytes
  cl_held :: bool
  cl_gen :: uint64
  cl_timer :: "uint64 option"
  cl_evicting :: bool

definition sendBuffer :: nat where "sendBuffer = 64"

definition resumeTokenLen :: nat where "resumeTokenLen = 32"

abbreviation hostID :: ParticipantID where "hostID \<equiv> 1"

record joinReply =
  jrep_ok :: bool
  jrep_errC :: uint16
  jrep_errS :: string
  jrep_id :: ParticipantID
  jrep_gen :: uint64

record resumeReply =
  rrep_ok :: bool
  rrep_errC :: uint16
  rrep_errS :: string
  rrep_gen :: uint64

record ClientStat =
  cst_ID :: uint32
  cst_Held :: bool
  cst_Gen :: uint64

record hubStats =
  hst_participants :: int
  hst_host :: ParticipantID
  hst_nextID :: ParticipantID
  hst_clients :: "ClientStat list"

datatype hub_reply = JoinReply joinReply | ResumeReply resumeReply | StatsReply hubStats

datatype cmd =
    joinCmd conn bool bytes
  | leaveCmd ParticipantID uint64 bool
  | resumeCmd conn ParticipantID bytes
  | graceExpiredCmd ParticipantID uint64
  | frameCmd ParticipantID MsgType bytes
  | closeCmd string
  | claimHostCmd ParticipantID
  | statsCmd conn

record hub =
  h_id :: SessionID
  h_max :: int
  h_grace :: int
  h_created :: int
  h_metrics :: Metrics
  h_clients :: "(ParticipantID \<times> client) list"
  h_nextID :: ParticipantID
  h_host :: ParticipantID
  h_evict :: "ParticipantID list"
  h_done :: bool
  h_kicks :: "conn list"
  h_replies :: "(conn \<times> hub_reply) list"

definition newHub :: "SessionID \<Rightarrow> int \<Rightarrow> int \<Rightarrow> int \<Rightarrow> Metrics \<Rightarrow> hub" where
  "newHub sid maxParticipants grace now m =
     \<lparr>h_id = sid, h_max = maxParticipants, h_grace = grace, h_created = now, h_metrics = m,
      h_clients = [], h_nextID = hostID, h_host = hostID, h_evict = [], h_done = False,
      h_kicks = [], h_replies = []\<rparr>"

section \<open>Sending\<close>

abbreviation find_client :: "hub \<Rightarrow> ParticipantID \<Rightarrow> client option" where
  "find_client h \<equiv> map_of (h_clients h)"

definition set_client :: "ParticipantID \<Rightarrow> client \<Rightarrow> hub \<Rightarrow> hub" where
  "set_client pid c h = h\<lparr>h_clients := AList.update pid c (h_clients h)\<rparr>"

definition reply :: "conn \<Rightarrow> hub_reply \<Rightarrow> hub \<Rightarrow> hub" where
  "reply k r h = h\<lparr>h_replies := h_replies h @ [(k, r)]\<rparr>"

definition count_error :: "hub \<Rightarrow> hub" where
  "count_error h = h\<lparr>h_metrics := (h_metrics h)\<lparr>Errors := Errors (h_metrics h) + 1\<rparr>\<rparr>"

definition queue :: "ParticipantID \<Rightarrow> bytes \<Rightarrow> hub \<Rightarrow> hub" where
  "queue pid frame h =
     (case find_client h pid of
        None \<Rightarrow> h
      | Some c \<Rightarrow>
          if cl_evicting c then h
          else case chan_send sendBuffer (cl_out c) frame of
                 Some out' \<Rightarrow> set_client pid (c\<lparr>cl_out := out'\<rparr>) h
               | None \<Rightarrow>
                   (set_client pid (c\<lparr>cl_evicting := True\<rparr>) h)
                     \<lparr>h_kicks := h_kicks h @ (if cl_held c then [] else [cl_kick c]),
                      h_evict := h_evict h @ [cl_id c]\<rparr>)"

definition sendTo :: "'a cbor \<Rightarrow> ParticipantID \<Rightarrow> MsgType \<Rightarrow> 'a \<Rightarrow> hub \<Rightarrow> hub" where
  "sendTo c pid t body h =
     (case find_client h pid of
        None \<Rightarrow> h
      | Some _ \<Rightarrow> (case Encode c t body of Inl _ \<Rightarrow> h | Inr frame \<Rightarrow> queue pid frame h))"

definition fan_out :: "ParticipantID list \<Rightarrow> bytes \<Rightarrow> ParticipantID \<Rightarrow> hub \<Rightarrow> hub" where
  "fan_out ids frame ex h = fold (\<lambda>pid h. if pid = ex then h else queue pid frame h) ids h"

definition broadcastFrame :: "'a cbor \<Rightarrow> MsgType \<Rightarrow> 'a \<Rightarrow> ParticipantID \<Rightarrow> hub \<Rightarrow> hub" where
  "broadcastFrame c t body ex h =
     (case Encode c t body of
        Inl _ \<Rightarrow> h
      | Inr frame \<Rightarrow> fan_out (map fst (h_clients h)) frame ex h)"

definition peersExcept :: "ParticipantID \<Rightarrow> hub \<Rightarrow> ParticipantID list" where
  "peersExcept pid h = filter (\<lambda>p. p \<noteq> pid) (map fst (h_clients h))"

section \<open>What a fan-out does\<close>

text \<open>
  One client's view of \<open>queue\<close>: the frame is appended, or the client is marked for
  eviction when its buffer is full.
\<close>

definition overflows :: "client \<Rightarrow> bool" where
  "overflows c \<longleftrightarrow> \<not> cl_evicting c \<and> sendBuffer \<le> length (cl_out c)"

definition offer :: "bytes \<Rightarrow> client \<Rightarrow> client" where
  "offer frame c =
     (if cl_evicting c then c
      else if length (cl_out c) < sendBuffer then c\<lparr>cl_out := cl_out c @ [frame]\<rparr>
      else c\<lparr>cl_evicting := True\<rparr>)"

lemma offer_fields [simp]:
  "cl_id (offer f c) = cl_id c" "cl_kick (offer f c) = cl_kick c"
  "cl_token (offer f c) = cl_token c" "cl_held (offer f c) = cl_held c"
  "cl_gen (offer f c) = cl_gen c" "cl_timer (offer f c) = cl_timer c"
  "cl_evicting (offer f c) \<longleftrightarrow> cl_evicting c \<or> overflows c"
  by (auto simp: offer_def overflows_def)

lemma length_offer: "length (cl_out c) \<le> sendBuffer \<Longrightarrow> length (cl_out (offer f c)) \<le> sendBuffer"
  by (auto simp: offer_def)

lemma queue_frame [simp]:
  "h_id (queue p f h) = h_id h" "h_max (queue p f h) = h_max h"
  "h_grace (queue p f h) = h_grace h" "h_created (queue p f h) = h_created h"
  "h_metrics (queue p f h) = h_metrics h" "h_nextID (queue p f h) = h_nextID h"
  "h_host (queue p f h) = h_host h" "h_done (queue p f h) = h_done h"
  "h_replies (queue p f h) = h_replies h"
  by (simp_all add: queue_def set_client_def split: option.split)

lemma fan_out_frame [simp]:
  "h_id (fan_out ps f ex h) = h_id h" "h_max (fan_out ps f ex h) = h_max h"
  "h_grace (fan_out ps f ex h) = h_grace h" "h_created (fan_out ps f ex h) = h_created h"
  "h_metrics (fan_out ps f ex h) = h_metrics h" "h_nextID (fan_out ps f ex h) = h_nextID h"
  "h_host (fan_out ps f ex h) = h_host h" "h_done (fan_out ps f ex h) = h_done h"
  "h_replies (fan_out ps f ex h) = h_replies h"
  unfolding fan_out_def by (induction ps arbitrary: h) simp_all

lemma broadcastFrame_frame [simp]:
  "h_id (broadcastFrame c t b ex h) = h_id h" "h_max (broadcastFrame c t b ex h) = h_max h"
  "h_grace (broadcastFrame c t b ex h) = h_grace h"
  "h_created (broadcastFrame c t b ex h) = h_created h"
  "h_metrics (broadcastFrame c t b ex h) = h_metrics h"
  "h_nextID (broadcastFrame c t b ex h) = h_nextID h"
  "h_host (broadcastFrame c t b ex h) = h_host h"
  "h_done (broadcastFrame c t b ex h) = h_done h"
  "h_replies (broadcastFrame c t b ex h) = h_replies h"
  by (simp_all add: broadcastFrame_def split: sum.split)

lemma sendTo_frame [simp]:
  "h_id (sendTo c p t b h) = h_id h" "h_max (sendTo c p t b h) = h_max h"
  "h_grace (sendTo c p t b h) = h_grace h" "h_created (sendTo c p t b h) = h_created h"
  "h_metrics (sendTo c p t b h) = h_metrics h" "h_nextID (sendTo c p t b h) = h_nextID h"
  "h_host (sendTo c p t b h) = h_host h" "h_done (sendTo c p t b h) = h_done h"
  "h_replies (sendTo c p t b h) = h_replies h"
  by (simp_all add: sendTo_def split: sum.split option.split)

lemma length_queue [simp]: "length (h_clients (queue p f h)) = length (h_clients h)"
  by (auto simp: queue_def set_client_def length_update_present split: option.split)

lemma length_fan_out [simp]: "length (h_clients (fan_out ps f ex h)) = length (h_clients h)"
  unfolding fan_out_def by (induction ps arbitrary: h) simp_all

lemma length_broadcastFrame [simp]:
  "length (h_clients (broadcastFrame c t b ex h)) = length (h_clients h)"
  by (simp add: broadcastFrame_def split: sum.split)

lemma queue_clients:
  "wf_map (h_clients h) \<Longrightarrow>
     h_clients (queue p f h) = map (\<lambda>(k, c). (k, if k = p then offer f c else c)) (h_clients h)"
proof (cases "find_client h p")
  case (Some c)
  assume wf: "wf_map (h_clients h)"
  have "h_clients (queue p f h) = AList.update p (offer f c) (h_clients h)"
  proof (cases "cl_evicting c")
    case True
    have "map (\<lambda>(k, c'). (k, if k = p then c else c')) (h_clients h) = h_clients h"
      using wf Some by (intro map_idI) (auto simp: wf_map_def dest: eq_key_imp_eq_value)
    with True Some wf show ?thesis
      by (simp add: queue_def offer_def alist_update_eq_map)
  next
    case False
    with Some show ?thesis
      by (simp add: queue_def offer_def set_client_def chan_send_def)
  qed
  also have "\<dots> = map (\<lambda>(k, c'). (k, if k = p then offer f c else c')) (h_clients h)"
    using wf Some by (rule alist_update_eq_map)
  also have "\<dots> = map (\<lambda>(k, c'). (k, if k = p then offer f c' else c')) (h_clients h)"
    using wf Some by (intro map_cong) (auto simp: wf_map_def dest: eq_key_imp_eq_value)
  finally show ?thesis .
qed (simp add: queue_def map_entry_absent)

lemma wf_queue [simp]: "wf_map (h_clients h) \<Longrightarrow> wf_map (h_clients (queue p f h))"
  by (simp add: queue_clients)

lemma find_queue:
  "wf_map (h_clients h) \<Longrightarrow> find_client (queue p f h) k =
     (if k = p then map_option (offer f) (find_client h k) else find_client h k)"
  by (simp add: queue_clients map_of_map_entries [where f = "\<lambda>k c. if k = p then offer f c else c"]
        option.map_ident)

lemma queue_evict:
  "h_evict (queue p f h) = h_evict h @
     (case find_client h p of None \<Rightarrow> [] | Some c \<Rightarrow> if overflows c then [cl_id c] else [])"
  by (auto simp: queue_def overflows_def set_client_def chan_send_def split: option.split)

lemma fan_out_clients:
  assumes "wf_map (h_clients h)" and "distinct ps"
  shows "h_clients (fan_out ps f ex h) =
     map (\<lambda>(k, c). (k, if k \<in> set ps \<and> k \<noteq> ex then offer f c else c)) (h_clients h)"
  using assms
proof (induction ps arbitrary: h)
  case (Cons p ps)
  let ?h = "if p = ex then h else queue p f h"
  have "h_clients (fan_out ps f ex ?h) =
     map (\<lambda>(k, c). (k, if k \<in> set ps \<and> k \<noteq> ex then offer f c else c)) (h_clients ?h)"
    using Cons by (intro Cons.IH) auto
  also have "\<dots> = map (\<lambda>(k, c). (k, if k \<in> set (p # ps) \<and> k \<noteq> ex then offer f c else c)) (h_clients h)"
    using Cons.prems by (auto simp: queue_clients)
  finally show ?case by (simp add: fan_out_def)
qed (simp add: fan_out_def)

lemma fan_out_evict:
  assumes "wf_map (h_clients h)" and "distinct ps"
  shows "h_evict (fan_out ps f ex h) = h_evict h @
     concat (map (\<lambda>p. if p = ex then [] else
       (case find_client h p of None \<Rightarrow> [] | Some c \<Rightarrow> if overflows c then [cl_id c] else [])) ps)"
  using assms
proof (induction ps arbitrary: h)
  case (Cons p ps)
  let ?h = "if p = ex then h else queue p f h"
  have same: "find_client ?h q = find_client h q" if "q \<in> set ps" for q
    using Cons.prems that by (auto simp: find_queue)
  have "h_evict (fan_out ps f ex ?h) = h_evict ?h @
     concat (map (\<lambda>p. if p = ex then [] else
       (case find_client ?h p of None \<Rightarrow> [] | Some c \<Rightarrow> if overflows c then [cl_id c] else [])) ps)"
    using Cons by (intro Cons.IH) auto
  also have "map (\<lambda>p. if p = ex then [] else
       (case find_client ?h p of None \<Rightarrow> [] | Some c \<Rightarrow> if overflows c then [cl_id c] else [])) ps =
     map (\<lambda>p. if p = ex then [] else
       (case find_client h p of None \<Rightarrow> [] | Some c \<Rightarrow> if overflows c then [cl_id c] else [])) ps"
    using same by (intro map_cong) auto
  finally show ?case by (simp add: fan_out_def queue_evict)
qed (simp add: fan_out_def)

section \<open>Handlers\<close>

definition handleClaimHost :: "ParticipantID \<Rightarrow> hub \<Rightarrow> hub" where
  "handleClaimHost pid h =
     (case find_client h pid of None \<Rightarrow> h | Some _ \<Rightarrow> h\<lparr>h_host := pid\<rparr>)"

definition handleClose :: "codecs \<Rightarrow> string \<Rightarrow> hub \<Rightarrow> hub" where
  "handleClose cb reason h =
     broadcastFrame (cSessionClosed cb) MsgSessionClosed \<lparr>sc_Reason = reason\<rparr> 0 h"

definition handleJoin :: "codecs \<Rightarrow> conn \<Rightarrow> bool \<Rightarrow> bytes \<Rightarrow> hub \<Rightarrow> hub" where
  "handleJoin cb k isCreate token h =
     (if int (length (h_clients h)) \<ge> h_max h
      then reply k (JoinReply \<lparr>jrep_ok = False, jrep_errC = ErrCodeSessionFull,
                     jrep_errS = ''session full'', jrep_id = 0, jrep_gen = 0\<rparr>) (count_error h)
      else
        (let pid = h_nextID h;
             h1 = h\<lparr>h_nextID := h_nextID h + 1\<rparr>;
             enc = (if isCreate
                    then Encode (cSessionCreated cb) MsgSessionCreated
                           \<lparr>sc_ParticipantID = pid, sc_ResumeToken = token\<rparr>
                    else Encode (cJoinResult cb) MsgJoinResult
                           \<lparr>jr_OK = True, jr_Err = '''', jr_ParticipantID = pid,
                            jr_Peers = peersExcept pid h1, jr_HostID = h_host h1,
                            jr_ResumeToken = token\<rparr>)
         in case enc of
              Inl _ \<Rightarrow>
                reply k (JoinReply \<lparr>jrep_ok = False, jrep_errC = ErrCodeBadFrame,
                          jrep_errS = ''encode reply'', jrep_id = 0, jrep_gen = 0\<rparr>) h1
            | Inr frame \<Rightarrow>
                (let c = \<lparr>cl_id = pid, cl_out = [frame], cl_kick = k, cl_token = token,
                          cl_held = False, cl_gen = 1, cl_timer = None, cl_evicting = False\<rparr>;
                     h2 = set_client pid c h1;
                     h3 = h2\<lparr>h_metrics := (h_metrics h2)\<lparr>Joins := Joins (h_metrics h2) + 1\<rparr>\<rparr>;
                     h4 = reply k (JoinReply \<lparr>jrep_ok = True, jrep_errC = 0, jrep_errS = '''',
                                     jrep_id = pid, jrep_gen = 1\<rparr>) h3
                 in broadcastFrame (cParticipantJoined cb) MsgParticipantJoined
                      \<lparr>pj_ParticipantID = pid\<rparr> pid h4)))"

definition holdSlot :: "client \<Rightarrow> hub \<Rightarrow> hub" where
  "holdSlot c h =
     set_client (cl_id c)
       (c\<lparr>cl_held := True, cl_gen := cl_gen c + 1, cl_out := [],
          cl_timer := Some (cl_gen c + 1)\<rparr>) h"

definition removeParticipant :: "codecs \<Rightarrow> ParticipantID \<Rightarrow> hub \<Rightarrow> hub \<times> bool" where
  "removeParticipant cb pid h =
     (case find_client h pid of
        None \<Rightarrow> (h, False)
      | Some c \<Rightarrow>
          (let h1 = h\<lparr>h_clients := AList.delete pid (h_clients h),
                      h_kicks := h_kicks h @ [cl_kick c]\<rparr>
           in if h_clients h1 = [] then (h1, True)
              else (broadcastFrame (cParticipantLeft cb) MsgParticipantLeft
                      \<lparr>pl_ParticipantID = pid\<rparr> 0 h1, False)))"

definition handleLeave :: "codecs \<Rightarrow> ParticipantID \<Rightarrow> uint64 \<Rightarrow> bool \<Rightarrow> hub \<Rightarrow> hub \<times> bool" where
  "handleLeave cb pid g unexpected h =
     (case find_client h pid of
        None \<Rightarrow> (h, False)
      | Some c \<Rightarrow>
          if cl_held c \<or> cl_gen c \<noteq> g then (h, False)
          else if unexpected \<and> h_grace h > 0 then (holdSlot c h, False)
          else removeParticipant cb pid h)"

definition handleGraceExpired :: "codecs \<Rightarrow> ParticipantID \<Rightarrow> uint64 \<Rightarrow> hub \<Rightarrow> hub \<times> bool" where
  "handleGraceExpired cb pid g h =
     (case find_client h pid of
        None \<Rightarrow> (h, False)
      | Some c \<Rightarrow>
          if \<not> cl_held c \<or> cl_gen c \<noteq> g then (h, False)
          else removeParticipant cb pid h)"

fun drainChan :: "'a list \<Rightarrow> 'a list \<Rightarrow> 'a list \<times> 'a list" where
  "drainChan out [] = (out, [])"
| "drainChan out (f # ch) = drainChan (out @ [f]) ch"

lemma drainChan_all [simp]: "drainChan out ch = (out @ ch, [])"
  by (induction ch arbitrary: out) simp_all

definition handleResume :: "codecs \<Rightarrow> conn \<Rightarrow> ParticipantID \<Rightarrow> bytes \<Rightarrow> hub \<Rightarrow> hub" where
  "handleResume cb k pid token h =
     (let refuse = (\<lambda>code msg. reply k (ResumeReply \<lparr>rrep_ok = False, rrep_errC = code,
                                         rrep_errS = msg, rrep_gen = 0\<rparr>))
      in case find_client h pid of
           None \<Rightarrow> refuse ErrCodeResumeRejected ''cannot resume session'' (count_error h)
         | Some c \<Rightarrow>
             if cl_token c \<noteq> token
             then refuse ErrCodeResumeRejected ''cannot resume session'' (count_error h)
             else
               (case Encode (cJoinResult cb) MsgJoinResult
                       \<lparr>jr_OK = True, jr_Err = '''', jr_ParticipantID = pid,
                        jr_Peers = peersExcept pid h, jr_HostID = h_host h,
                        jr_ResumeToken = cl_token c\<rparr> of
                  Inl _ \<Rightarrow> refuse ErrCodeBadFrame ''encode reply'' h
                | Inr jr \<Rightarrow>
                    (let buffered = (if cl_held c then fst (drainChan [] (cl_out c)) else []);
                         h1 = (if cl_held c then h
                               else h\<lparr>h_kicks := h_kicks h @ [cl_kick c]\<rparr>);
                         c' = c\<lparr>cl_timer := None, cl_held := False, cl_gen := cl_gen c + 1,
                                cl_kick := k,
                                cl_out := chan_send_all sendBuffer [jr] buffered\<rparr>;
                         h2 = set_client pid c' h1;
                         h3 = h2\<lparr>h_metrics := (h_metrics h2)\<lparr>Resumes := Resumes (h_metrics h2) + 1\<rparr>\<rparr>
                     in reply k (ResumeReply \<lparr>rrep_ok = True, rrep_errC = 0, rrep_errS = '''',
                                   rrep_gen = cl_gen c'\<rparr>) h3)))"

definition route :: "codecs \<Rightarrow> ParticipantID \<Rightarrow> MsgType \<Rightarrow> bytes \<Rightarrow> hub \<Rightarrow> hub" where
  "route cb frm typ raw h0 =
     (let h = h0\<lparr>h_metrics := (h_metrics h0)
                   \<lparr>FramesForwarded := FramesForwarded (h_metrics h0) + 1,
                    BytesForwarded := BytesForwarded (h_metrics h0) + word_of_nat (length raw)\<rparr>\<rparr>
      in if typ = MsgDirect then
           (case Body (cDirect cb) raw of
              Inl _ \<Rightarrow> sendTo (cError cb) frm MsgError
                         \<lparr>e_Code = ErrCodeBadFrame, e_Msg = ''bad direct frame''\<rparr> (count_error h)
            | Inr d0 \<Rightarrow>
                (let d = d0\<lparr>d_From := frm\<rparr>
                 in case find_client h (d_To d) of
                      None \<Rightarrow> sendTo (cError cb) frm MsgError
                                \<lparr>e_Code = ErrCodeUnknownPeer, e_Msg = ''unknown peer''\<rparr> (count_error h)
                    | Some _ \<Rightarrow> sendTo (cDirect cb) (d_To d) MsgDirect d h))
         else if typ = MsgBroadcast then
           (case Body (cBroadcast cb) raw of
              Inl _ \<Rightarrow> sendTo (cError cb) frm MsgError
                         \<lparr>e_Code = ErrCodeBadFrame, e_Msg = ''bad broadcast frame''\<rparr> (count_error h)
            | Inr b0 \<Rightarrow>
                (let b = b0\<lparr>b_From := frm\<rparr>
                 in broadcastFrame (cBroadcast cb) MsgBroadcast b frm h))
         else h)"

definition handleStats :: "conn \<Rightarrow> hub \<Rightarrow> hub" where
  "handleStats k h =
     reply k (StatsReply
       \<lparr>hst_participants = int (length (h_clients h)), hst_host = h_host h,
        hst_nextID = h_nextID h,
        hst_clients = map (\<lambda>(_, c). \<lparr>cst_ID = cl_id c, cst_Held = cl_held c, cst_Gen = cl_gen c\<rparr>)
                        (h_clients h)\<rparr>) h"

definition shutdown :: "hub \<Rightarrow> hub" where
  "shutdown h =
     h\<lparr>h_kicks := h_kicks h @ map (\<lambda>(_, c). cl_kick c) (h_clients h), h_done := True\<rparr>"

section \<open>The run loop\<close>

lemma removeParticipant_shrinks:
  "find_client h p = Some c \<Longrightarrow>
     length (h_clients (fst (removeParticipant cb p h))) < length (h_clients h)"
  by (auto simp: removeParticipant_def length_delete_less Let_def)

lemma removeParticipant_absent: "find_client h p = None \<Longrightarrow> removeParticipant cb p h = (h, False)"
  by (simp add: removeParticipant_def)

function drainEvictions :: "codecs \<Rightarrow> hub \<Rightarrow> hub \<times> bool" where
  "drainEvictions cb h =
     (case h_evict h of
        [] \<Rightarrow> (h, False)
      | pid # rest \<Rightarrow>
          (let (h', empty) = removeParticipant cb pid (h\<lparr>h_evict := rest\<rparr>)
           in if empty then (h', True) else drainEvictions cb h'))"
  by pat_completeness auto
termination
proof (relation "measures [\<lambda>(cb, h). length (h_clients h), \<lambda>(cb, h). length (h_evict h)]", goal_cases)
  case (2 cb h p rest x h' empty)
  show ?case
  proof (cases "find_client h p")
    case None
    with 2 have "h' = h\<lparr>h_evict := rest\<rparr>" by (simp add: removeParticipant_absent)
    with 2 show ?thesis by simp
  next
    case (Some c)
    then have "length (h_clients (fst (removeParticipant cb p (h\<lparr>h_evict := rest\<rparr>)))) < length (h_clients h)"
      using removeParticipant_shrinks [of "h\<lparr>h_evict := rest\<rparr>" p c cb] by simp
    moreover from 2 have "removeParticipant cb p (h\<lparr>h_evict := rest\<rparr>) = (h', empty)" by simp
    ultimately show ?thesis by simp
  qed
qed simp

declare drainEvictions.simps [simp del]

text \<open>Induction along the loop: no entry, the entry that empties the session, one entry.\<close>

lemma drainEvictions_cases [consumes 1, case_names Quiet Emptied Step]:
  assumes "drainEvictions cb h = (h', stop)"
    and "\<And>h. h_evict h = [] \<Longrightarrow> P h h False"
    and "\<And>h p rest h1. h_evict h = p # rest \<Longrightarrow>
           removeParticipant cb p (h\<lparr>h_evict := rest\<rparr>) = (h1, True) \<Longrightarrow> P h h1 True"
    and "\<And>h p rest h1 h' stop. h_evict h = p # rest \<Longrightarrow>
           removeParticipant cb p (h\<lparr>h_evict := rest\<rparr>) = (h1, False) \<Longrightarrow>
           P h1 h' stop \<Longrightarrow> P h h' stop"
  shows "P h h' stop"
  using assms(1)
proof (induction cb\<equiv>cb h arbitrary: h' stop rule: drainEvictions.induct)
  case (1 h)
  show ?case
  proof (cases "h_evict h")
    case Nil
    with "1.prems" assms(2) show ?thesis by (simp add: drainEvictions.simps [of cb h])
  next
    case (Cons p rest)
    obtain h1 e where r: "removeParticipant cb p (h\<lparr>h_evict := rest\<rparr>) = (h1, e)"
      by (cases "removeParticipant cb p (h\<lparr>h_evict := rest\<rparr>)")
    show ?thesis
    proof (cases e)
      case True
      with r Cons "1.prems" have "h' = h1" "stop"
        by (simp_all add: drainEvictions.simps [of cb h])
      with True Cons r assms(3) show ?thesis by simp
    next
      case False
      with r Cons "1.prems" have "drainEvictions cb h1 = (h', stop)"
        by (simp add: drainEvictions.simps [of cb h])
      then have "P h1 h' stop" by (rule "1.hyps" [OF Cons refl r [symmetric] False])
      with Cons r False show ?thesis by (intro assms(4) [of h p rest h1]) simp_all
    qed
  qed
qed

text \<open>One iteration of the \<open>run\<close> loop: the handler, then the evictions it caused.\<close>

definition handle_cmd :: "codecs \<Rightarrow> cmd \<Rightarrow> hub \<Rightarrow> hub \<times> bool" where
  "handle_cmd cb c h =
     (case c of
        joinCmd k isCreate token \<Rightarrow> (handleJoin cb k isCreate token h, False)
      | leaveCmd p g unexpected \<Rightarrow> handleLeave cb p g unexpected h
      | resumeCmd k p token \<Rightarrow> (handleResume cb k p token h, False)
      | graceExpiredCmd p g \<Rightarrow> handleGraceExpired cb p g h
      | claimHostCmd p \<Rightarrow> (handleClaimHost p h, False)
      | frameCmd p t raw \<Rightarrow> (route cb p t raw h, False)
      | statsCmd k \<Rightarrow> (handleStats k h, False)
      | closeCmd reason \<Rightarrow> (handleClose cb reason h, True))"

definition hub_step :: "codecs \<Rightarrow> cmd \<Rightarrow> hub \<Rightarrow> hub \<times> bool" where
  "hub_step cb c h =
     (let (h', stop) = handle_cmd cb c h
      in if stop then (h', True) else drainEvictions cb h')"

text \<open>
  \<open>run\<close> consumes its inbox until a command ends the session; then the deferred
  \<open>shutdown\<close> runs and the commands still queued are never handled.
\<close>

fun run :: "codecs \<Rightarrow> hub \<Rightarrow> cmd list \<Rightarrow> hub \<times> cmd list" where
  "run cb h [] = (h, [])"
| "run cb h (c # inbox) =
     (let (h', stop) = hub_step cb c h
      in if stop then (shutdown h', inbox) else run cb h' inbox)"

end
