(* ===== verification/HubProps.thy ===== *)
theory HubProps
  imports Hub
begin

text \<open>
  Correctness of the session hub: the state invariant of the \<open>run\<close> loop, what each handler
  delivers to whom, slots across drops and resumes, evictions, and the end of a session.
\<close>

section \<open>The invariant\<close>

text \<open>
  Map keys are the clients' own ids, no buffer exceeds its capacity, a slot has a grace timer
  for its current generation exactly while it is held, the participant cap holds, and the
  eviction list holds exactly the clients marked as evicting, each once.
\<close>

definition client_wf :: "ParticipantID \<Rightarrow> client \<Rightarrow> bool" where
  "client_wf p c \<longleftrightarrow>
     cl_id c = p \<and> length (cl_out c) \<le> sendBuffer \<and>
     cl_timer c = (if cl_held c then Some (cl_gen c) else None)"

definition evicting_ids :: "hub \<Rightarrow> ParticipantID set" where
  "evicting_ids h = {p. \<exists>c. find_client h p = Some c \<and> cl_evicting c}"

definition hub_wf_but :: "ParticipantID set \<Rightarrow> hub \<Rightarrow> bool" where
  "hub_wf_but X h \<longleftrightarrow>
     wf_map (h_clients h) \<and>
     (\<forall>p c. find_client h p = Some c \<longrightarrow> client_wf p c) \<and>
     (h_clients h = [] \<or> int (length (h_clients h)) \<le> h_max h) \<and>
     distinct (h_evict h) \<and> set (h_evict h) = evicting_ids h - X"

abbreviation hub_wf :: "hub \<Rightarrow> bool" where
  "hub_wf \<equiv> hub_wf_but {}"

definition hub_inv :: "hub \<Rightarrow> bool" where
  "hub_inv h \<longleftrightarrow> hub_wf h \<and> h_evict h = []"

lemma hub_wf_map: "hub_wf_but X h \<Longrightarrow> wf_map (h_clients h)"
  by (simp add: hub_wf_but_def)

lemma hub_wf_client: "hub_wf_but X h \<Longrightarrow> find_client h p = Some c \<Longrightarrow> client_wf p c"
  by (simp add: hub_wf_but_def)

lemma client_wf_offer [simp]: "client_wf p c \<Longrightarrow> client_wf p (offer f c)"
  by (auto simp: client_wf_def length_offer)

lemma hub_wf_butI:
  assumes "wf_map (h_clients h)" and "\<And>p c. find_client h p = Some c \<Longrightarrow> client_wf p c"
    and "h_clients h = [] \<or> int (length (h_clients h)) \<le> h_max h"
    and "distinct (h_evict h)" and "set (h_evict h) = evicting_ids h - X"
  shows "hub_wf_but X h"
  using assms by (simp add: hub_wf_but_def)

lemma evicting_ids_queue:
  "wf_map (h_clients h) \<Longrightarrow> evicting_ids (queue p f h) = evicting_ids h \<union>
     (case find_client h p of None \<Rightarrow> {} | Some c \<Rightarrow> if overflows c then {p} else {})"
  by (auto simp: evicting_ids_def find_queue split: option.split if_splits)

lemma hub_wf_queue [simp]:
  assumes "hub_wf h"
  shows "hub_wf (queue p f h)"
proof (rule hub_wf_butI)
  note wf = hub_wf_map [OF assms]
  show "wf_map (h_clients (queue p f h))" using wf by simp
  show "client_wf q c" if "find_client (queue p f h) q = Some c" for q c
    using that assms by (auto simp: find_queue [OF wf] hub_wf_but_def split: if_splits)
  have "h_clients (queue p f h) = [] \<longleftrightarrow> h_clients h = []"
    by (metis length_0_conv length_queue)
  with assms show "h_clients (queue p f h) = [] \<or> int (length (h_clients (queue p f h))) \<le> h_max (queue p f h)"
    by (auto simp: hub_wf_but_def)
  have ev: "set (h_evict h) = evicting_ids h" "distinct (h_evict h)"
    using assms by (simp_all add: hub_wf_but_def)
  show "set (h_evict (queue p f h)) = evicting_ids (queue p f h) - {}"
  proof (cases "find_client h p")
    case (Some c)
    with hub_wf_client [OF assms Some] ev(1) show ?thesis
      by (simp add: queue_evict evicting_ids_queue [OF wf] client_wf_def)
  qed (simp add: queue_evict evicting_ids_queue [OF wf] ev)
  show "distinct (h_evict (queue p f h))"
  proof (cases "find_client h p")
    case (Some c)
    with hub_wf_client [OF assms Some] have "overflows c \<Longrightarrow> cl_id c \<notin> set (h_evict h)"
      by (simp add: ev(1) evicting_ids_def client_wf_def overflows_def)
    with Some ev(2) show ?thesis by (simp add: queue_evict)
  qed (simp add: queue_evict ev)
qed

lemma hub_wf_fan_out [simp]: "hub_wf h \<Longrightarrow> hub_wf (fan_out ps f ex h)"
  unfolding fan_out_def by (induction ps arbitrary: h) simp_all

lemma hub_wf_broadcastFrame [simp]: "hub_wf h \<Longrightarrow> hub_wf (broadcastFrame c t b ex h)"
  by (simp add: broadcastFrame_def split: sum.split)

lemma hub_wf_sendTo [simp]: "hub_wf h \<Longrightarrow> hub_wf (sendTo c p t b h)"
  by (simp add: sendTo_def split: option.split sum.split)

text \<open>Fields the invariant does not read.\<close>

lemma hub_wf_irrelevant [simp]:
  "hub_wf_but X (h\<lparr>h_metrics := m\<rparr>) = hub_wf_but X h"
  "hub_wf_but X (h\<lparr>h_kicks := ks\<rparr>) = hub_wf_but X h"
  "hub_wf_but X (h\<lparr>h_replies := rs\<rparr>) = hub_wf_but X h"
  "hub_wf_but X (h\<lparr>h_nextID := n\<rparr>) = hub_wf_but X h"
  "hub_wf_but X (h\<lparr>h_host := n\<rparr>) = hub_wf_but X h"
  "hub_wf_but X (h\<lparr>h_done := d\<rparr>) = hub_wf_but X h"
  by (simp_all add: hub_wf_but_def evicting_ids_def)

lemma hub_wf_logs [simp]:
  "hub_wf_but X (count_error h) = hub_wf_but X h"
  "hub_wf_but X (reply k r h) = hub_wf_but X h"
  by (simp_all add: count_error_def reply_def)

lemma set_client_kicks [simp]:
  "set_client p c (h\<lparr>h_kicks := ks\<rparr>) = (set_client p c h)\<lparr>h_kicks := ks\<rparr>"
  by (simp add: set_client_def)

lemma hub_wf_set_client:
  assumes "hub_wf h" and "client_wf p c" and "\<not> cl_evicting c" and "p \<notin> set (h_evict h)"
    and "find_client h p = None \<Longrightarrow> int (length (h_clients h)) < h_max h"
  shows "hub_wf (set_client p c h)"
proof (rule hub_wf_butI)
  have "int (length (AList.update p c (h_clients h))) \<le> h_max h"
    using assms(1,5)
    by (cases "find_client h p")
       (auto simp: hub_wf_but_def length_update_absent length_update_present)
  then show "h_clients (set_client p c h) = [] \<or>
      int (length (h_clients (set_client p c h))) \<le> h_max (set_client p c h)"
    by (simp add: set_client_def)
  show "client_wf q d" if "find_client (set_client p c h) q = Some d" for q d
    using that assms(1,2) by (auto simp: set_client_def hub_wf_but_def split: if_splits)
  have "evicting_ids (set_client p c h) = evicting_ids h - {p}"
    using assms(3) by (auto simp: evicting_ids_def set_client_def split: if_splits)
  with assms(1,4) show "set (h_evict (set_client p c h)) = evicting_ids (set_client p c h) - {}"
    by (auto simp: set_client_def hub_wf_but_def)
qed (use assms(1) in \<open>simp_all add: set_client_def hub_wf_but_def\<close>)

lemma hub_wf_removeParticipant:
  assumes "hub_wf_but {p} h"
  shows "hub_wf (fst (removeParticipant cb p h))"
proof (cases "find_client h p")
  case None
  then have "evicting_ids h - {p} = evicting_ids h" by (auto simp: evicting_ids_def)
  with None assms show ?thesis by (simp add: removeParticipant_def hub_wf_but_def)
next
  case (Some c)
  have "hub_wf (h\<lparr>h_clients := AList.delete p (h_clients h)\<rparr>)" (is "hub_wf ?h")
  proof (rule hub_wf_butI)
    show "h_clients ?h = [] \<or> int (length (h_clients ?h)) \<le> h_max ?h"
      using assms length_delete_le [of p "h_clients h"] by (auto simp: hub_wf_but_def)
    show "client_wf q d" if "find_client ?h q = Some d" for q d
      using that assms by (auto simp: hub_wf_but_def split: if_splits)
    have "evicting_ids ?h = evicting_ids h - {p}"
      by (auto simp: evicting_ids_def split: if_splits)
    with assms show "set (h_evict ?h) = evicting_ids ?h - {}" by (simp add: hub_wf_but_def)
  qed (use assms in \<open>simp_all add: hub_wf_but_def\<close>)
  with Some show ?thesis by (auto simp: removeParticipant_def Let_def)
qed

lemma hub_wf_but_quiet: "hub_wf h \<Longrightarrow> h_evict h = [] \<Longrightarrow> hub_wf_but {p} h"
  by (auto simp: hub_wf_but_def)

lemma hub_wf_but_pop:
  assumes "hub_wf h" and "h_evict h = p # rest"
  shows "hub_wf_but {p} (h\<lparr>h_evict := rest\<rparr>)"
proof -
  have "evicting_ids (h\<lparr>h_evict := rest\<rparr>) = evicting_ids h" by (simp add: evicting_ids_def)
  moreover from assms have "insert p (set rest) = evicting_ids h" "p \<notin> set rest"
    by (auto simp: hub_wf_but_def)
  ultimately show ?thesis using assms by (auto simp: hub_wf_but_def)
qed

text \<open>The eviction loop ends in a quiescent hub unless it emptied the session.\<close>

lemma drainEvictions_wf:
  assumes "drainEvictions cb h = (h', stop)"
  shows "hub_wf h \<longrightarrow> hub_wf h' \<and> (if stop then h_clients h' = [] else h_evict h' = [])"
  using assms
proof (induction rule: drainEvictions_cases)
  case (Emptied h p rest h1)
  then have "h_clients h1 = []"
    by (auto simp: removeParticipant_def Let_def split: option.splits if_splits)
  with Emptied hub_wf_removeParticipant [OF hub_wf_but_pop, of h p rest cb] show ?case by simp
next
  case (Step h p rest h1 h' stop)
  with hub_wf_removeParticipant [OF hub_wf_but_pop, of h p rest cb] show ?case by simp
qed simp

subsection \<open>Handlers keep the invariant\<close>

lemma hub_inv_wf: "hub_inv h \<Longrightarrow> hub_wf h"
  by (simp add: hub_inv_def)

lemma hub_inv_not_evicting: "hub_inv h \<Longrightarrow> find_client h p = Some c \<Longrightarrow> \<not> cl_evicting c"
  by (auto simp: hub_inv_def hub_wf_but_def evicting_ids_def)

lemma hub_inv_client: "hub_inv h \<Longrightarrow> find_client h p = Some c \<Longrightarrow> client_wf p c"
  by (simp add: hub_inv_def hub_wf_but_def)

lemma hub_inv_update:
  assumes "hub_inv h" and "find_client h p = Some c" and "client_wf p c'" and "\<not> cl_evicting c'"
  shows "hub_wf (set_client p c' h)"
  using assms by (intro hub_wf_set_client) (auto simp: hub_inv_def)

lemma handleJoin_wf: "hub_inv h \<Longrightarrow> hub_wf (handleJoin cb k isCreate token h)"
proof -
  assume inv: "hub_inv h"
  let ?p = "h_nextID h" and ?h = "h\<lparr>h_nextID := h_nextID h + 1\<rparr>"
  have "hub_wf (set_client ?p c ?h)"
    if "int (length (h_clients h)) < h_max h" and "client_wf ?p c" and "\<not> cl_evicting c" for c
    using inv that by (intro hub_wf_set_client) (auto simp: hub_inv_def)
  then show ?thesis
    using inv by (auto simp: handleJoin_def Let_def hub_inv_def client_wf_def sendBuffer_def split: sum.split)
qed

lemma handleLeave_wf: "hub_inv h \<Longrightarrow> hub_wf (fst (handleLeave cb p g u h))"
proof -
  assume inv: "hub_inv h"
  have "hub_wf (holdSlot c h)" if "find_client h p = Some c" for c
  proof -
    have "client_wf p c" "\<not> cl_evicting c"
      using inv that by (auto intro: hub_inv_client dest: hub_inv_not_evicting)
    then show ?thesis
      using hub_inv_update [OF inv that, of "c\<lparr>cl_held := True, cl_gen := cl_gen c + 1, cl_out := [], cl_timer := Some (cl_gen c + 1)\<rparr>"]
      by (simp add: holdSlot_def client_wf_def)
  qed
  moreover have "hub_wf (fst (removeParticipant cb p h))"
    using inv by (intro hub_wf_removeParticipant hub_wf_but_quiet) (auto simp: hub_inv_def)
  ultimately show ?thesis
    using inv by (auto simp: handleLeave_def hub_inv_def split: option.split)
qed

lemma handleGraceExpired_wf: "hub_inv h \<Longrightarrow> hub_wf (fst (handleGraceExpired cb p g h))"
  using hub_wf_removeParticipant [OF hub_wf_but_quiet, where h = h and p = p and cb = cb]
  by (auto simp: handleGraceExpired_def hub_inv_def split: option.split)

lemma handleResume_wf: "hub_inv h \<Longrightarrow> hub_wf (handleResume cb k p token h)"
proof -
  assume inv: "hub_inv h"
  have "hub_wf (set_client p (c\<lparr>cl_timer := None, cl_held := False, cl_gen := g, cl_kick := k,
                  cl_out := out'\<rparr>) h)"
    if "find_client h p = Some c" and "length out' \<le> sendBuffer" for c g out'
    using inv that hub_inv_client [OF inv that(1)] hub_inv_not_evicting [OF inv that(1)]
    by (intro hub_inv_update) (auto simp: client_wf_def)
  moreover have "length (chan_send_all sendBuffer [jr] fs) \<le> sendBuffer" "length [jr] \<le> sendBuffer"
    for jr :: bytes and fs
    by (simp_all add: chan_send_all_take sendBuffer_def)
  ultimately show ?thesis
    using inv by (auto simp: handleResume_def Let_def hub_inv_def split: option.split sum.split)
qed

lemma route_wf: "hub_wf h \<Longrightarrow> hub_wf (route cb p t raw h)"
  by (simp add: route_def Let_def split: option.split sum.split)

lemma handle_cmd_wf: "hub_inv h \<Longrightarrow> hub_wf (fst (handle_cmd cb c h))"
  using handleJoin_wf handleLeave_wf handleResume_wf handleGraceExpired_wf route_wf hub_inv_wf
  by (cases c)
     (auto simp: handle_cmd_def handleClaimHost_def handleStats_def handleClose_def split: option.split)

lemma hub_step_wf:
  assumes "hub_inv h" and "hub_step cb c h = (h', stop)"
  shows "hub_wf h' \<and> (\<not> stop \<longrightarrow> hub_inv h')"
proof -
  obtain h1 s1 where h1: "handle_cmd cb c h = (h1, s1)" by (cases "handle_cmd cb c h")
  with handle_cmd_wf [OF assms(1), of cb c] have "hub_wf h1" by simp
  with h1 assms(2) show ?thesis
    by (auto simp: hub_step_def hub_inv_def split: if_splits dest: drainEvictions_wf)
qed

section \<open>The hub as a transition system\<close>

text \<open>
  What can happen to a hub: its goroutine handles a command, the writer of a live connection
  takes the oldest frame of that connection's channel, the connection's reader queues a frame
  of its own there (a pong or an error, \<open>queueFrame\<close>), and Go picks another order for the
  next iteration over the client map.
\<close>

datatype hub_event = Handle cmd | Written ParticipantID | Queued ParticipantID bytes | Reordered

inductive hub_trans :: "codecs \<Rightarrow> hub \<Rightarrow> hub_event \<Rightarrow> hub \<Rightarrow> bool" for cb where
  handle: "\<not> h_done h \<Longrightarrow> hub_step cb c h = (h', False) \<Longrightarrow> hub_trans cb h (Handle c) h'"
| finish: "\<not> h_done h \<Longrightarrow> hub_step cb c h = (h', True) \<Longrightarrow> hub_trans cb h (Handle c) (shutdown h')"
| written: "\<not> h_done h \<Longrightarrow> find_client h p = Some c \<Longrightarrow> \<not> cl_held c \<Longrightarrow> cl_out c = f # fs \<Longrightarrow>
     hub_trans cb h (Written p) (set_client p (c\<lparr>cl_out := fs\<rparr>) h)"
| queued: "\<not> h_done h \<Longrightarrow> find_client h p = Some c \<Longrightarrow> \<not> cl_held c \<Longrightarrow>
     chan_send sendBuffer (cl_out c) f = Some fs \<Longrightarrow>
     hub_trans cb h (Queued p f) (set_client p (c\<lparr>cl_out := fs\<rparr>) h)"
| reordered: "\<not> h_done h \<Longrightarrow> mset m = mset (h_clients h) \<Longrightarrow>
     hub_trans cb h Reordered (h\<lparr>h_clients := m\<rparr>)"

definition hub_initial :: "hub \<Rightarrow> bool" where
  "hub_initial h \<longleftrightarrow> (\<exists>sid maxP grace now m. h = newHub sid maxP grace now m)"

definition hub_live_inv :: "hub \<Rightarrow> bool" where
  "hub_live_inv h \<longleftrightarrow> hub_wf h \<and> (\<not> h_done h \<longrightarrow> hub_inv h)"

lemma hub_inv_newHub: "hub_inv (newHub sid maxP grace now m)"
  by (simp add: hub_inv_def hub_wf_but_def newHub_def evicting_ids_def)

lemma hub_inv_set_out:
  assumes "hub_inv h" and "find_client h p = Some c" and "length fs \<le> sendBuffer"
  shows "hub_inv (set_client p (c\<lparr>cl_out := fs\<rparr>) h)"
proof -
  have "hub_wf (set_client p (c\<lparr>cl_out := fs\<rparr>) h)"
    using hub_inv_client [OF assms(1,2)] hub_inv_not_evicting [OF assms(1,2)] assms(3)
    by (intro hub_inv_update [OF assms(1,2)]) (auto simp: client_wf_def)
  with assms(1) show ?thesis by (simp add: hub_inv_def set_client_def)
qed

lemma hub_inv_reorder:
  assumes "hub_inv h" and "mset m = mset (h_clients h)"
  shows "hub_inv (h\<lparr>h_clients := m\<rparr>)"
proof -
  have wf: "wf_map (h_clients h)" using assms(1) by (simp add: hub_inv_def hub_wf_but_def)
  have "map_of m = find_client h" "length m = length (h_clients h)" "wf_map m"
    using map_of_permute [OF wf assms(2)] mset_eq_length [OF assms(2)] wf_map_permute [OF assms(2)] wf
    by simp_all
  moreover from this(2) have "m = [] \<longleftrightarrow> h_clients h = []" by auto
  ultimately show ?thesis
    using assms(1) by (auto simp: hub_inv_def hub_wf_but_def evicting_ids_def)
qed

lemma hub_trans_inv: "hub_trans cb h e h' \<Longrightarrow> hub_live_inv h \<Longrightarrow> hub_live_inv h'"
proof (induction rule: hub_trans.induct)
  case (handle h c h')
  then show ?case by (auto simp: hub_live_inv_def dest: hub_step_wf)
next
  case (finish h c h')
  then show ?case by (auto simp: hub_live_inv_def shutdown_def dest: hub_step_wf)
next
  case (written h p c f fs)
  then have "length fs \<le> sendBuffer"
    by (auto simp: hub_live_inv_def client_wf_def dest: hub_inv_client)
  with written show ?case by (auto simp: hub_live_inv_def hub_inv_set_out intro: hub_inv_wf)
next
  case (queued h p c f fs)
  then have "length fs \<le> sendBuffer" by (simp add: chan_send_Some_iff)
  with queued show ?case by (auto simp: hub_live_inv_def hub_inv_set_out intro: hub_inv_wf)
next
  case (reordered h m)
  then show ?case by (auto simp: hub_live_inv_def hub_inv_reorder intro: hub_inv_wf)
qed

interpretation hub: transition_system hub_initial "hub_trans cb" hub_live_inv for cb
proof unfold_locales
  show "hub_live_inv h" if "hub_initial h" for h
    using that hub_inv_newHub by (auto simp: hub_initial_def hub_live_inv_def intro: hub_inv_wf)
  show "hub_live_inv h'" if "hub_trans cb h e h'" and "hub_live_inv h" for h e h'
    using that by (rule hub_trans_inv)
qed

end
