(* ===== verification/DemoCodec.thy ===== *)
theory DemoCodec
  imports Wire
begin

text \<open>
  A concrete instance of the codec parameter, used where a closed example needs one: every
  struct is the concatenation of its fields in a self-delimiting form. It stands for no code of
  the repository; it shows that the hypotheses on the CBOR library can hold together.
\<close>

type_synonym 'a field = "('a \<Rightarrow> bytes) \<times> (bytes \<Rightarrow> ('a \<times> bytes) option)"

definition field_ok :: "'a field \<Rightarrow> bool" where
  "field_ok f \<longleftrightarrow> (\<forall>x rest. snd f (fst f x @ rest) = Some (x, rest))"

fun put_bytes :: "bytes \<Rightarrow> bytes" where
  "put_bytes [] = [0]"
| "put_bytes (b # bs) = 1 # b # put_bytes bs"

fun get_bytes :: "bytes \<Rightarrow> (bytes \<times> bytes) option" where
  "get_bytes (x # y # rest) =
     (if x = 0 then Some ([], y # rest)
      else map_option (\<lambda>(bs, r). (y # bs, r)) (get_bytes rest))"
| "get_bytes [x] = (if x = 0 then Some ([], []) else None)"
| "get_bytes [] = None"

definition f_bytes :: "bytes field" where
  "f_bytes = (put_bytes, get_bytes)"

lemma get_put_bytes [simp]: "get_bytes (put_bytes bs @ rest) = Some (bs, rest)"
proof (induction bs)
  case Nil
  show ?case by (cases rest) simp_all
qed simp

lemma length_put_bytes [simp]: "length (put_bytes bs) = 2 * length bs + 1"
  by (induction bs) auto

lemma f_bytes_ok [intro]: "field_ok f_bytes"
  by (simp add: field_ok_def f_bytes_def)

definition f_word :: "'a::len word field" where
  "f_word = (\<lambda>w. map (\<lambda>i. of_bool (bit w i)) [0..<LENGTH('a)],
             \<lambda>bs. Some (horner_sum of_bool 2 (map (\<lambda>b. b = 1) (take LENGTH('a) bs)),
                        drop LENGTH('a) bs))"

lemma f_word_ok [intro]: "field_ok (f_word :: 'a::len word field)"
proof -
  have "horner_sum of_bool 2 (map (bit w) [0..<LENGTH('a)]) = w" for w :: "'a word"
    by (simp add: horner_sum_bit_eq_take_bit)
  moreover have "(of_bool b = (1::byte)) = b" for b by (cases b) simp_all
  ultimately show ?thesis by (simp add: field_ok_def f_word_def comp_def)
qed

definition f_pair :: "'a field \<Rightarrow> 'b field \<Rightarrow> ('a \<times> 'b) field" where
  "f_pair f g =
     (\<lambda>(x, y). fst f x @ fst g y,
      \<lambda>bs. case snd f bs of None \<Rightarrow> None
           | Some (x, r) \<Rightarrow> (case snd g r of None \<Rightarrow> None | Some (y, r') \<Rightarrow> Some ((x, y), r')))"

lemma f_pair_ok [intro]: "field_ok f \<Longrightarrow> field_ok g \<Longrightarrow> field_ok (f_pair f g)"
  by (auto simp: field_ok_def f_pair_def)

definition f_via :: "('a \<Rightarrow> 'b) \<Rightarrow> ('b \<Rightarrow> 'a) \<Rightarrow> 'b field \<Rightarrow> 'a field" where
  "f_via to from f = (\<lambda>x. fst f (to x), \<lambda>bs. map_option (\<lambda>(y, r). (from y, r)) (snd f bs))"

lemma f_via_ok: "field_ok f \<Longrightarrow> (\<And>x. from (to x) = x) \<Longrightarrow> field_ok (f_via to from f)"
  by (auto simp: field_ok_def f_via_def)

definition f_string :: "string field" where
  "f_string = f_via (map (\<lambda>c. word_of_nat (of_char c))) (map (\<lambda>b. char_of (unat b))) f_bytes"

lemma f_string_ok [intro]: "field_ok f_string"
proof -
  have "char_of (unat (word_of_nat (of_char c) :: byte)) = c" for c :: char
    using unat_byte_of_nat [of "of_char c"] by simp
  then show ?thesis unfolding f_string_def by (intro f_via_ok) (auto simp: comp_def)
qed

definition f_bool :: "bool field" where
  "f_bool = f_via (\<lambda>b. of_bool b :: byte) (\<lambda>w. w = 1) f_word"

lemma f_bool_ok [intro]: "field_ok f_bool"
  unfolding f_bool_def by (intro f_via_ok) auto

fun ids_of_bytes :: "bytes \<Rightarrow> uint32 list" where
  "ids_of_bytes (a # b # c # d # rest) = of_be32 [a, b, c, d] # ids_of_bytes rest"
| "ids_of_bytes _ = []"

lemma ids_of_bytes_concat [simp]: "ids_of_bytes (concat (map be32 ps)) = ps"
proof (induction ps)
  case (Cons p ps)
  obtain a b c d where "be32 p = [a, b, c, d]" by (simp add: be32_def)
  moreover from this have "of_be32 [a, b, c, d] = p" by (metis of_be32_be32)
  ultimately show ?case using Cons by simp
qed simp

definition f_ids :: "uint32 list field" where
  "f_ids = f_via (\<lambda>ps. concat (map be32 ps)) ids_of_bytes f_bytes"

lemma f_ids_ok [intro]: "field_ok f_ids"
  unfolding f_ids_def by (intro f_via_ok) auto

definition cbor_of :: "'a field \<Rightarrow> 'a cbor" where
  "cbor_of f = \<lparr>marshal = (\<lambda>v. Some (fst f v)), unmarshal = (\<lambda>b. map_option fst (snd f b))\<rparr>"

lemma cbor_of_roundtrip: "field_ok f \<Longrightarrow> cbor_roundtrip (cbor_of f)"
  unfolding field_ok_def cbor_roundtrip_def cbor_of_def
  by simp (metis append.right_neutral fst_conv option.map(2))

lemma marshal_cbor_of [simp]: "marshal (cbor_of f) v = Some (fst f v)"
  by (simp add: cbor_of_def)

definition demo_codecs :: codecs where
  "demo_codecs =
     \<lparr>cCreateSession = cbor_of (f_via (\<lambda>m. (cs_SessionID m, cs_MaxParticipants m))
        (\<lambda>(a, b). \<lparr>cs_SessionID = a, cs_MaxParticipants = b\<rparr>) (f_pair f_bytes f_word)),
      cSessionCreated = cbor_of (f_via (\<lambda>m. (sc_ParticipantID m, sc_ResumeToken m))
        (\<lambda>(a, b). \<lparr>sc_ParticipantID = a, sc_ResumeToken = b\<rparr>) (f_pair f_word f_bytes)),
      cJoinSession = cbor_of (f_via js_SessionID (\<lambda>a. \<lparr>js_SessionID = a\<rparr>) f_bytes),
      cJoinResult = cbor_of (f_via
        (\<lambda>m. (jr_OK m, jr_Err m, jr_ParticipantID m, jr_Peers m, jr_HostID m, jr_ResumeToken m))
        (\<lambda>(a, b, c, d, e, f). \<lparr>jr_OK = a, jr_Err = b, jr_ParticipantID = c, jr_Peers = d,
           jr_HostID = e, jr_ResumeToken = f\<rparr>)
        (f_pair f_bool (f_pair f_string (f_pair f_word (f_pair f_ids (f_pair f_word f_bytes)))))),
      cResumeSession = cbor_of (f_via (\<lambda>m. (rs_SessionID m, rs_ParticipantID m, rs_Token m))
        (\<lambda>(a, b, c). \<lparr>rs_SessionID = a, rs_ParticipantID = b, rs_Token = c\<rparr>)
        (f_pair f_bytes (f_pair f_word f_bytes))),
      cClaimHost = cbor_of (f_via (\<lambda>_. []) (\<lambda>_. ()) f_bytes),
      cParticipantJoined = cbor_of (f_via pj_ParticipantID (\<lambda>a. \<lparr>pj_ParticipantID = a\<rparr>) f_word),
      cParticipantLeft = cbor_of (f_via pl_ParticipantID (\<lambda>a. \<lparr>pl_ParticipantID = a\<rparr>) f_word),
      cDirect = cbor_of (f_via (\<lambda>m. (d_To m, d_From m, d_Payload m))
        (\<lambda>(a, b, c). \<lparr>d_To = a, d_From = b, d_Payload = c\<rparr>)
        (f_pair f_word (f_pair f_word f_bytes))),
      cBroadcast = cbor_of (f_via (\<lambda>m. (b_From m, b_Payload m))
        (\<lambda>(a, b). \<lparr>b_From = a, b_Payload = b\<rparr>) (f_pair f_word f_bytes)),
      cPing = cbor_of (f_via ping_Nonce (\<lambda>a. \<lparr>ping_Nonce = a\<rparr>) f_word),
      cPong = cbor_of (f_via pong_Nonce (\<lambda>a. \<lparr>pong_Nonce = a\<rparr>) f_word),
      cError = cbor_of (f_via (\<lambda>m. (e_Code m, e_Msg m))
        (\<lambda>(a, b). \<lparr>e_Code = a, e_Msg = b\<rparr>) (f_pair f_word f_string)),
      cSessionClosed = cbor_of (f_via sc_Reason (\<lambda>a. \<lparr>sc_Reason = a\<rparr>) f_string),
      cPake = cbor_of (f_via (\<lambda>m. (p_Data m, p_Spectate m))
        (\<lambda>(a, b). \<lparr>p_Data = a, p_Spectate = b\<rparr>) (f_pair f_bytes f_bool)),
      cGroupKey = cbor_of (f_via (\<lambda>m. (gk_Nonce m, gk_Ciphertext m))
        (\<lambda>(a, b). \<lparr>gk_Nonce = a, gk_Ciphertext = b\<rparr>) (f_pair f_bytes f_bytes)),
      cSealedFrame = cbor_of (f_via (\<lambda>m. (sf_Nonce m, sf_Ciphertext m))
        (\<lambda>(a, b). \<lparr>sf_Nonce = a, sf_Ciphertext = b\<rparr>) (f_pair f_bytes f_bytes)),
      cEnvelope = cbor_of (f_via (\<lambda>m. (env_ServiceID m, env_Seq m, env_Body m))
        (\<lambda>(a, b, c). \<lparr>env_ServiceID = a, env_Seq = b, env_Body = c\<rparr>)
        (f_pair f_string (f_pair f_word f_bytes)))\<rparr>"

lemma demo_codecs_ok: "codecs_ok demo_codecs"
  unfolding codecs_ok_def demo_codecs_def
  by (simp, intro conjI cbor_of_roundtrip f_via_ok) (auto intro!: f_pair_ok)

section \<open>Codecs given by a table\<close>

text \<open>A codec for the listed values only, each with its own bytes.\<close>

definition table_cbor :: "('a \<times> bytes) list \<Rightarrow> 'a cbor" where
  "table_cbor tbl = \<lparr>marshal = map_of tbl, unmarshal = map_of (map (\<lambda>(v, b). (b, v)) tbl)\<rparr>"

lemma table_cbor_roundtrip: "distinct (map snd tbl) \<Longrightarrow> cbor_roundtrip (table_cbor tbl)"
  by (auto simp: cbor_roundtrip_def table_cbor_def comp_def case_prod_beta dest!: map_of_SomeD
      intro!: map_of_is_SomeI rev_image_eqI)

end
