(* ===== verification/HubDelivery.thy ===== *)
theory HubDelivery
  imports HubProps DemoCodec
begin

text \<open>
  What the hub delivers: forwarding with the stamped sender, fan-out, the announcement of every
  departure, slots across drops and resumes, and the end of a session.
\<close>

section \<open>Lookup after sending\<close>

lemma find_sendTo:
  "wf_map (h_clients h) \<Longrightarrow> find_client (sendTo cd p t b h) k =
     (case Encode cd t b of
        Inl _ \<Rightarrow> find_client h k
      | Inr f \<Rightarrow> if k = p then map_option (offer f) (find_client h k) else find_client h k)"
  by (auto simp: sendTo_def find_queue split: sum.split option.split)

lemma find_fan_out:
  assumes "wf_map (h_clients h)"
  shows "find_client (fan_out (map fst (h_clients h)) f ex h) k =
     (if k = ex then find_client h k else map_option (offer f) (find_client h k))"
proof (cases "find_client h k")
  case None
  with assms show ?thesis
    by (auto simp: fan_out_clients wf_map_def
          map_of_map_entries [where f = "\<lambda>k c. if k \<in> fst ` set (h_clients h) \<and> k \<noteq> ex then offer f c else c"])
next
  case (Some c)
  then have "k \<in> fst ` set (h_clients h)" by (metis domI dom_map_of_conv_image_fst)
  with Some assms show ?thesis
    by (auto simp: fan_out_clients wf_map_def
          map_of_map_entries [where f = "\<lambda>k c. if k \<in> fst ` set (h_clients h) \<and> k \<noteq> ex then offer f c else c"])
qed

lemma find_broadcastFrame:
  "wf_map (h_clients h) \<Longrightarrow> find_client (broadcastFrame cd t b ex h) k =
     (case Encode cd t b of
        Inl _ \<Rightarrow> find_client h k
      | Inr f \<Rightarrow> if k = ex then find_client h k else map_option (offer f) (find_client h k))"
  by (simp add: broadcastFrame_def find_fan_out split: sum.split)

lemma find_count_error [simp]: "find_client (count_error h) = find_client h"
  by (simp add: count_error_def)

lemma clients_count_error [simp]: "h_clients (count_error h) = h_clients h"
  by (simp add: count_error_def)

lemma clients_reply [simp]: "h_clients (reply k r h) = h_clients h"
  by (simp add: reply_def)

lemma evict_reply [simp]: "h_evict (reply k r h) = h_evict h" "h_evict (count_error h) = h_evict h"
  by (simp_all add: reply_def count_error_def)

lemma offer_out_cases:
  "cl_out (offer f c) = cl_out c \<or> cl_out (offer f c) = cl_out c @ [f]"
  by (simp add: offer_def)

lemma offer_room: "\<not> cl_evicting (offer f c) \<Longrightarrow> offer f c = c\<lparr>cl_out := cl_out c @ [f]\<rparr>"
  by (auto simp: offer_def split: if_splits)

lemma offer_appends [simp]:
  "\<not> cl_evicting c \<Longrightarrow> \<not> overflows c \<Longrightarrow> cl_out (offer f c) = cl_out c @ [f]"
  by (auto simp: offer_def overflows_def)

section \<open>Forwarding\<close>

text \<open>
  What a recipient can decode from a forwarded frame.
\<close>

definition forwarded :: "codecs \<Rightarrow> ParticipantID \<Rightarrow> ParticipantID \<Rightarrow> MsgType \<Rightarrow> bytes \<Rightarrow> bytes \<Rightarrow> bool" where
  "forwarded cb frm to ty raw f \<longleftrightarrow>
     (\<exists>r. (ty = MsgDirect \<and> Decode f = Inr (MsgDirect, r) \<and>
           (\<exists>d0. Body (cDirect cb) raw = Inr d0 \<and> d_To d0 = to \<and>
                 Body (cDirect cb) r = Inr (d0\<lparr>d_From := frm\<rparr>))) \<or>
          (ty = MsgBroadcast \<and> to \<noteq> frm \<and> Decode f = Inr (MsgBroadcast, r) \<and>
           (\<exists>b0. Body (cBroadcast cb) raw = Inr b0 \<and>
                 Body (cBroadcast cb) r = Inr (b0\<lparr>b_From := frm\<rparr>))) \<or>
          (to = frm \<and> Decode f = Inr (MsgError, r) \<and> (\<exists>e. Body (cError cb) r = Inr e)))"

lemma route_find:
  assumes wf: "wf_map (h_clients h)" and c: "find_client h k = Some c"
  shows "\<exists>c'. find_client (route cb frm ty raw h) k = Some c' \<and>
     (c' = c \<or> (\<exists>f. c' = offer f c \<and>
       ((ty = MsgDirect \<and> (\<exists>d0. Body (cDirect cb) raw = Inr d0 \<and> d_To d0 = k \<and>
            Encode (cDirect cb) MsgDirect (d0\<lparr>d_From := frm\<rparr>) = Inr f)) \<or>
        (ty = MsgBroadcast \<and> k \<noteq> frm \<and> (\<exists>b0. Body (cBroadcast cb) raw = Inr b0 \<and>
            Encode (cBroadcast cb) MsgBroadcast (b0\<lparr>b_From := frm\<rparr>) = Inr f)) \<or>
        (k = frm \<and> (\<exists>e. Encode (cError cb) MsgError e = Inr f)))))"
proof -
  consider (direct) "ty = MsgDirect" | (bcast) "ty = MsgBroadcast" | (other) "ty \<noteq> MsgDirect" "ty \<noteq> MsgBroadcast"
    by blast
  then show ?thesis
  proof cases
    case direct
    then show ?thesis
      using wf c
      by (auto simp: route_def Let_def find_sendTo split: sum.split option.split)
  next
    case bcast
    then show ?thesis
      using wf c
      by (auto simp: route_def Let_def find_sendTo find_broadcastFrame split: sum.split)
  next
    case other
    then show ?thesis using c by (simp add: route_def Let_def)
  qed
qed

text \<open>
  C11. The relay stamps the sender: whatever bytes a participant submits, each outbox either
  stays as it is or gains one frame, and what a recipient decodes from it carries the true
  sender's id with payload and addressing unchanged. Only the sender itself can receive an
  error instead.
\<close>

theorem route_stamps_sender:
  assumes "codecs_ok cb" and "hub_inv h" and "find_client h k = Some c"
  shows "\<exists>c'. find_client (route cb frm ty raw h) k = Some c' \<and>
     (cl_out c' = cl_out c \<or> (\<exists>f. cl_out c' = cl_out c @ [f] \<and> forwarded cb frm k ty raw f))"
proof -
  have rt: "cbor_roundtrip (cDirect cb)" "cbor_roundtrip (cBroadcast cb)" "cbor_roundtrip (cError cb)"
    using assms(1) by (simp_all add: codecs_ok_def)
  from route_find [OF hub_wf_map [OF hub_inv_wf [OF assms(2)]] assms(3), of cb frm ty raw]
  obtain c' where c': "find_client (route cb frm ty raw h) k = Some c'"
    and cases: "c' = c \<or> (\<exists>f. c' = offer f c \<and> forwarded cb frm k ty raw f)"
    unfolding forwarded_def by (metis (no_types) Encode_decodes rt)
  show ?thesis
  proof (cases "c' = c")
    case False
    with cases obtain f where "c' = offer f c" "forwarded cb frm k ty raw f" by blast
    with c' offer_out_cases [of f c] show ?thesis by auto
  qed (use c' in auto)
qed

lemma drainEvictions_quiet [simp]: "h_evict h = [] \<Longrightarrow> drainEvictions cb h = (h, False)"
  by (simp add: drainEvictions.simps [of cb h])

lemma no_overflow_fan_out:
  assumes "wf_map (h_clients h)" and "h_evict h = []"
    and "\<And>k c. find_client h k = Some c \<Longrightarrow> length (cl_out c) < sendBuffer"
  shows "h_evict (broadcastFrame cd t b ex h) = []"
proof -
  have "\<not> overflows c" if "find_client h k = Some c" for k c
    using assms(3) [OF that] by (simp add: overflows_def)
  then have "h_evict (fan_out (map fst (h_clients h)) f ex h) = h_evict h" for f
    using assms(1) by (auto simp: fan_out_evict wf_map_def split: option.split)
  with assms(2) show ?thesis by (simp add: broadcastFrame_def split: sum.split)
qed

lemma broadcast_step:
  assumes "hub_inv h" and "\<And>k c. find_client h k = Some c \<Longrightarrow> length (cl_out c) < sendBuffer"
    and "Body (cBroadcast cb) raw = Inr b" and "Encode (cBroadcast cb) MsgBroadcast (b\<lparr>b_From := frm\<rparr>) = Inr f"
  shows "hub_step cb (frameCmd frm MsgBroadcast raw) h = (route cb frm MsgBroadcast raw h, False)"
    and "find_client (route cb frm MsgBroadcast raw h) k =
        (if k = frm then find_client h k
         else map_option (\<lambda>c. c\<lparr>cl_out := cl_out c @ [f]\<rparr>) (find_client h k))"
proof -
  let ?h = "h\<lparr>h_metrics := (h_metrics h)
              \<lparr>FramesForwarded := FramesForwarded (h_metrics h) + 1,
               BytesForwarded := BytesForwarded (h_metrics h) + word_of_nat (length raw)\<rparr>\<rparr>"
  let ?h' = "broadcastFrame (cBroadcast cb) MsgBroadcast (b\<lparr>b_From := frm\<rparr>) frm ?h"
  have inv: "hub_inv ?h" using assms(1) by (simp add: hub_inv_def)
  have quiet: "h_evict ?h' = []"
    using inv assms(2) by (intro no_overflow_fan_out) (auto simp: hub_inv_def hub_wf_but_def)
  have room: "offer f c = c\<lparr>cl_out := cl_out c @ [f]\<rparr>" if "find_client h k = Some c" for k c
    using assms(2) [OF that] hub_inv_not_evicting [OF assms(1) that] by (simp add: offer_def)
  have r: "route cb frm MsgBroadcast raw h = ?h'"
    using assms(3) by (simp add: route_def Let_def)
  then show "hub_step cb (frameCmd frm MsgBroadcast raw) h = (route cb frm MsgBroadcast raw h, False)"
    using quiet by (simp add: hub_step_def handle_cmd_def)
  show "find_client (route cb frm MsgBroadcast raw h) k =
        (if k = frm then find_client h k
         else map_option (\<lambda>c. c\<lparr>cl_out := cl_out c @ [f]\<rparr>) (find_client h k))"
    unfolding r using hub_wf_map [OF hub_inv_wf [OF inv]] assms(4) room
    by (cases "find_client h k") (simp_all add: find_broadcastFrame)
qed

text \<open>
  A broadcast reaches every other participant exactly once, in the order the relay
  handles it, and never comes back to its sender: with room in every buffer, one handled
  broadcast appends one and the same frame to every other outbox, held slots included, and
  changes no other slot.
\<close>

theorem broadcast_exactly_once:
  assumes "hub_inv h" and "\<And>k c. find_client h k = Some c \<Longrightarrow> length (cl_out c) < sendBuffer"
    and "Body (cBroadcast cb) raw = Inr b" and "Encode (cBroadcast cb) MsgBroadcast (b\<lparr>b_From := frm\<rparr>) = Inr f"
  shows "\<exists>h'. hub_step cb (frameCmd frm MsgBroadcast raw) h = (h', False) \<and>
     (\<forall>k. find_client h' k =
        (if k = frm then find_client h k
         else map_option (\<lambda>c. c\<lparr>cl_out := cl_out c @ [f]\<rparr>) (find_client h k)))"
  using broadcast_step [OF assms(1) _ assms(3,4)] assms(2) by blast

text \<open>The notice for one departure, if it can be encoded.\<close>

definition left_notice :: "codecs \<Rightarrow> ParticipantID \<Rightarrow> bytes list" where
  "left_notice cb p =
     (case Encode (cParticipantLeft cb) MsgParticipantLeft \<lparr>pl_ParticipantID = p\<rparr> of
        Inl _ \<Rightarrow> [] | Inr f \<Rightarrow> [f])"

lemma removeParticipant_find:
  assumes "wf_map (h_clients h)" and "removeParticipant cb p h = (h', False)" and "find_client h p \<noteq> None"
    and "find_client h' k = Some c'" and "\<not> cl_evicting c'" and "k \<noteq> 0"
  shows "k \<noteq> p \<and> (\<exists>c. find_client h k = Some c \<and> \<not> cl_evicting c \<and> cl_out c' = cl_out c @ left_notice cb p)"
proof -
  let ?h = "h\<lparr>h_clients := AList.delete p (h_clients h), h_kicks := ks\<rparr>"
  from assms(3) obtain cp where cp: "find_client h p = Some cp" by blast
  let ?h = "h\<lparr>h_clients := AList.delete p (h_clients h), h_kicks := h_kicks h @ [cl_kick cp]\<rparr>"
  from assms(2) cp have h': "h' = broadcastFrame (cParticipantLeft cb) MsgParticipantLeft
      \<lparr>pl_ParticipantID = p\<rparr> 0 ?h"
    by (auto simp: removeParticipant_def Let_def split: if_splits)
  have wf: "wf_map (h_clients ?h)" using assms(1) by simp
  from assms(4-6) h' have "k \<noteq> p"
    by (auto simp: find_broadcastFrame [OF wf] split: sum.splits)
  with assms(4-6) h' show ?thesis
    by (auto simp: find_broadcastFrame [OF wf] left_notice_def dest: offer_room split: sum.splits)
qed

lemma removeParticipant_dom:
  assumes "wf_map (h_clients h)" and "removeParticipant cb p h = (h', s)"
  shows "dom (find_client h') = dom (find_client h) - {p}"
proof -
  have d: "dom (map_of (AList.delete p (h_clients h))) = dom (find_client h) - {p}"
    by (auto split: if_splits)
  have wf: "wf_map (AList.delete p (h_clients h))" using assms(1) by simp
  show ?thesis
  proof (cases "find_client h p")
    case None
    with assms(2) show ?thesis by (auto simp: removeParticipant_def)
  next
    case (Some c)
    with assms(2) d wf show ?thesis
      by (cases "AList.delete p (h_clients h) = []"; cases "Encode (cParticipantLeft cb) MsgParticipantLeft \<lparr>pl_ParticipantID = p\<rparr>")
         (auto simp: removeParticipant_def Let_def dom_def find_broadcastFrame simp del: map_of_alist_delete split: if_splits)
  qed
qed

text \<open>
  The eviction loop: the survivors are told of every participant it removed, in order.
\<close>

lemma drainEvictions_notices:
  assumes "drainEvictions cb h = (h', stop)"
  shows "hub_wf h \<longrightarrow> find_client h 0 = None \<longrightarrow> \<not> stop \<longrightarrow>
    (\<exists>removed. distinct removed \<and> set removed = dom (find_client h) - dom (find_client h') \<and>
       dom (find_client h') \<subseteq> dom (find_client h) \<and>
       (\<forall>k c'. find_client h' k = Some c' \<longrightarrow> \<not> cl_evicting c' \<longrightarrow>
          (\<exists>c. find_client h k = Some c \<and> \<not> cl_evicting c \<and>
               cl_out c' = cl_out c @ concat (map (left_notice cb) removed))))"
  using assms
proof (induction rule: drainEvictions_cases)
  case (Quiet h)
  show ?case by (intro impI exI [of _ "[]"]) auto
next
  case (Step h p rest h1 h' stop)
  show ?case
  proof (intro impI)
    assume wf: "hub_wf h" and zero: "find_client h 0 = None" and "\<not> stop"
    let ?h = "h\<lparr>h_evict := rest\<rparr>"
    have wfm: "wf_map (h_clients ?h)" using wf by (simp add: hub_wf_but_def)
    have p: "find_client ?h p \<noteq> None"
      using wf Step(1) by (auto simp: hub_wf_but_def evicting_ids_def)
    have wf1: "hub_wf h1"
      using hub_wf_removeParticipant [OF hub_wf_but_pop [OF wf Step(1)], of cb] Step(2) by simp
    have dom1: "dom (find_client h1) = dom (find_client h) - {p}"
      using removeParticipant_dom [OF wfm Step(2)] by simp
    then have "find_client h1 0 = None" using zero by blast
    with Step(3) wf1 \<open>\<not> stop\<close> obtain rem where rem: "distinct rem"
      "set rem = dom (find_client h1) - dom (find_client h')"
      "dom (find_client h') \<subseteq> dom (find_client h1)"
      "\<And>k c'. find_client h' k = Some c' \<Longrightarrow> \<not> cl_evicting c' \<Longrightarrow>
         \<exists>c. find_client h1 k = Some c \<and> \<not> cl_evicting c \<and>
              cl_out c' = cl_out c @ concat (map (left_notice cb) rem)"
      by blast
    have "\<exists>c. find_client h k = Some c \<and> \<not> cl_evicting c \<and>
            cl_out c' = cl_out c @ concat (map (left_notice cb) (p # rem))"
      if k: "find_client h' k = Some c'" "\<not> cl_evicting c'" for k c'
    proof -
      from rem(4) [OF k] obtain c1 where c1: "find_client h1 k = Some c1" "\<not> cl_evicting c1"
        "cl_out c' = cl_out c1 @ concat (map (left_notice cb) rem)" by blast
      with zero dom1 have "k \<noteq> 0" by (metis Diff_iff domD domI option.distinct(1))
      from removeParticipant_find [OF wfm Step(2) p c1(1,2) this] c1(3) show ?thesis by auto
    qed
    moreover have "distinct (p # rem)" "set (p # rem) = dom (find_client h) - dom (find_client h')"
      "dom (find_client h') \<subseteq> dom (find_client h)"
      using rem(1-3) dom1 p by auto
    ultimately show "\<exists>removed. distinct removed \<and> set removed = dom (find_client h) - dom (find_client h') \<and>
       dom (find_client h') \<subseteq> dom (find_client h) \<and>
       (\<forall>k c'. find_client h' k = Some c' \<longrightarrow> \<not> cl_evicting c' \<longrightarrow>
          (\<exists>c. find_client h k = Some c \<and> \<not> cl_evicting c \<and>
               cl_out c' = cl_out c @ concat (map (left_notice cb) removed)))"
      by blast
  qed
qed simp

lemma dom_sendTo: "wf_map (h_clients h) \<Longrightarrow> dom (find_client (sendTo cd p t b h)) = dom (find_client h)"
  by (cases "Encode cd t b") (auto simp: dom_def find_sendTo split: if_splits)

lemma dom_broadcastFrame:
  "wf_map (h_clients h) \<Longrightarrow> dom (find_client (broadcastFrame cd t b ex h)) = dom (find_client h)"
  by (cases "Encode cd t b") (auto simp: dom_def find_broadcastFrame split: if_splits)

lemma dom_set_client: "dom (find_client (set_client p c h)) = insert p (dom (find_client h))"
  by (simp add: set_client_def)

lemma dom_route: "wf_map (h_clients h) \<Longrightarrow> dom (find_client (route cb p t raw h)) = dom (find_client h)"
  by (simp add: route_def Let_def dom_sendTo dom_broadcastFrame split: sum.split option.split)

lemma dom_handleJoin:
  assumes "wf_map (h_clients h)"
  shows "dom (find_client h) \<subseteq> dom (find_client (handleJoin cb k isC tok h)) \<and>
         dom (find_client (handleJoin cb k isC tok h)) \<subseteq> insert (h_nextID h) (dom (find_client h))"
  using assms
  by (auto simp: handleJoin_def Let_def dom_broadcastFrame set_client_def simp flip: dom_map_of_conv_image_fst split: sum.splits if_splits)

lemma dom_handleResume: "dom (find_client (handleResume cb k p tok h)) = dom (find_client h)"
  by (auto simp: handleResume_def Let_def set_client_def split: sum.splits option.splits if_splits)


text \<open>A command that does not end the session removes one participant, or keeps all and may add one.\<close>

lemma handle_cmd_slots:
  assumes inv: "hub_inv h" and h1: "handle_cmd cb c h = (h1, False)"
  shows "(\<exists>q. removeParticipant cb q h = (h1, False)) \<or>
    dom (find_client h) \<subseteq> dom (find_client h1) \<and>
    dom (find_client h1) \<subseteq> insert (h_nextID h) (dom (find_client h))"
proof -
  have wf: "wf_map (h_clients h)" using inv by (simp add: hub_inv_def hub_wf_but_def)
  have same: ?thesis if "dom (find_client h1) = dom (find_client h)" using that by auto
  show ?thesis
  proof (cases c)
    case (joinCmd k isC tok)
    with h1 have "h1 = handleJoin cb k isC tok h" by (simp add: handle_cmd_def)
    with dom_handleJoin [OF wf, of cb k isC tok] show ?thesis by simp
  next
    case (leaveCmd p g u)
    with h1 have "removeParticipant cb p h = (h1, False) \<or> h1 = h \<or> (\<exists>cl. find_client h p = Some cl \<and> h1 = holdSlot cl h)"
      by (auto simp: handle_cmd_def handleLeave_def split: option.splits if_splits)
    moreover have "dom (find_client (holdSlot cl h)) = dom (find_client h)" if "find_client h p = Some cl" for cl
      using hub_inv_client [OF inv that] that by (auto simp: holdSlot_def set_client_def client_wf_def split: if_splits)
    ultimately show ?thesis using same by blast
  next
    case (graceExpiredCmd p g)
    with h1 have "removeParticipant cb p h = (h1, False) \<or> h1 = h"
      by (auto simp: handle_cmd_def handleGraceExpired_def split: option.splits if_splits)
    with same show ?thesis by blast
  next
    case (resumeCmd k p tok)
    with h1 have "h1 = handleResume cb k p tok h" by (simp add: handle_cmd_def)
    then show ?thesis by (intro same) (simp only: dom_handleResume)
  next
    case (frameCmd p t raw)
    with h1 have "h1 = route cb p t raw h" by (simp add: handle_cmd_def)
    then show ?thesis by (intro same) (simp only: dom_route [OF wf])
  qed (use h1 same in \<open>auto simp: handle_cmd_def handleClaimHost_def handleStats_def split: option.splits\<close>)
qed

lemma removeParticipant_notices:
  assumes wf: "wf_map (h_clients h)" and zero: "find_client h 0 = None"
    and r: "removeParticipant cb q h = (h1, False)"
  shows "find_client h1 0 = None \<and>
    (\<forall>p k c1. find_client h p \<noteq> None \<longrightarrow> find_client h1 p = None \<longrightarrow>
       find_client h1 k = Some c1 \<longrightarrow> \<not> cl_evicting c1 \<longrightarrow> set (left_notice cb p) \<subseteq> set (cl_out c1))"
proof -
  have d: "dom (find_client h1) = dom (find_client h) - {q}" using removeParticipant_dom [OF wf r] .
  have z: "find_client h1 0 = None" using d zero by blast
  have "set (left_notice cb p) \<subseteq> set (cl_out c1)"
    if "find_client h p \<noteq> None" "find_client h1 p = None" "find_client h1 k = Some c1" "\<not> cl_evicting c1"
    for p k c1
  proof -
    have "p = q" using that(1,2) d by blast
    moreover have "k \<noteq> 0" using that(3) z by auto
    ultimately show ?thesis using removeParticipant_find [OF wf r _ that(3,4)] that(1) by auto
  qed
  with z show ?thesis by blast
qed

lemma handle_cmd_departures:
  assumes inv: "hub_inv h" and zero: "find_client h 0 = None" "h_nextID h \<noteq> 0"
    and h1: "handle_cmd cb c h = (h1, False)"
  shows "find_client h1 0 = None \<and>
    (\<forall>p k c1. find_client h p \<noteq> None \<longrightarrow> find_client h1 p = None \<longrightarrow>
       find_client h1 k = Some c1 \<longrightarrow> \<not> cl_evicting c1 \<longrightarrow> set (left_notice cb p) \<subseteq> set (cl_out c1))"
proof -
  have wf: "wf_map (h_clients h)" using inv by (simp add: hub_inv_def hub_wf_but_def)
  from handle_cmd_slots [OF inv h1] show ?thesis
  proof (elim disjE exE conjE)
    fix q assume "removeParticipant cb q h = (h1, False)"
    then show ?thesis by (rule removeParticipant_notices [OF wf zero(1)])
  next
    assume d: "dom (find_client h) \<subseteq> dom (find_client h1)" "dom (find_client h1) \<subseteq> insert (h_nextID h) (dom (find_client h))"
    have "0 \<notin> dom (find_client h1)" using d(2) zero by auto
    moreover have "find_client h1 p \<noteq> None" if "find_client h p \<noteq> None" for p using that d(1) by blast
    ultimately show ?thesis by blast
  qed
qed

text \<open>
  No participant disappears silently: whichever command is handled, every participant that
  is gone afterwards (it left, its grace expired, or it was evicted as a slow consumer, also in
  a cascade of evictions) has been announced with a ParticipantLeft frame in the outbox of
  every participant that remains.
\<close>

theorem departures_announced:
  assumes "hub_inv h" and "find_client h 0 = None" and "h_nextID h \<noteq> 0"
    and "hub_step cb c h = (h', False)"
    and "find_client h p \<noteq> None" and "find_client h' p = None"
    and "Encode (cParticipantLeft cb) MsgParticipantLeft \<lparr>pl_ParticipantID = p\<rparr> = Inr f"
    and "find_client h' k = Some c'"
  shows "f \<in> set (cl_out c')"
proof -
  obtain h1 s where h1: "handle_cmd cb c h = (h1, s)" by (cases "handle_cmd cb c h")
  with assms(4) have s: "\<not> s" and drain: "drainEvictions cb h1 = (h', False)"
    by (auto simp: hub_step_def split: if_splits)
  have wf1: "hub_wf h1" using handle_cmd_wf [OF assms(1), of cb c] h1 by simp
  note dep = handle_cmd_departures [OF assms(1-3), of cb c h1] h1 s
  have notice: "left_notice cb p = [f]" using assms(7) by (simp add: left_notice_def)
  have ne: "\<not> cl_evicting c'"
    using hub_step_wf [OF assms(1,4)] assms(8) hub_inv_not_evicting by blast
  from drainEvictions_notices [OF drain] wf1 dep obtain rem where
    rem: "set rem = dom (find_client h1) - dom (find_client h')"
    and out: "\<And>k c'. find_client h' k = Some c' \<Longrightarrow> \<not> cl_evicting c' \<Longrightarrow>
      \<exists>c. find_client h1 k = Some c \<and> \<not> cl_evicting c \<and> cl_out c' = cl_out c @ concat (map (left_notice cb) rem)"
    by auto
  from out [OF assms(8) ne] obtain c1 where c1: "find_client h1 k = Some c1" "\<not> cl_evicting c1"
    "cl_out c' = cl_out c1 @ concat (map (left_notice cb) rem)" by blast
  show ?thesis
  proof (cases "find_client h1 p")
    case None
    with dep c1 assms(5) notice have "f \<in> set (cl_out c1)" by fastforce
    with c1(3) show ?thesis by simp
  next
    case (Some cp)
    with rem assms(6) have "p \<in> set rem" by auto
    with notice have "f \<in> set (concat (map (left_notice cb) rem))" by force
    with c1(3) show ?thesis by simp
  qed
qed

section \<open>A concrete hub\<close>

text \<open>Three participants, the third one held; used in the closed examples below.\<close>

definition demo_client :: "ParticipantID \<Rightarrow> conn \<Rightarrow> bytes \<Rightarrow> client" where
  "demo_client p k tok =
     \<lparr>cl_id = p, cl_out = [], cl_kick = k, cl_token = tok, cl_held = False, cl_gen = 1,
      cl_timer = None, cl_evicting = False\<rparr>"

definition demo_held :: client where
  "demo_held = (demo_client 3 30 [9])\<lparr>cl_held := True, cl_gen := 2, cl_timer := Some 2, cl_out := [[5], [6]]\<rparr>"

definition demo_hub :: hub where
  "demo_hub = (newHub (replicate 16 0) 16 30 0 zero_Metrics)
     \<lparr>h_clients := [(1, demo_client 1 10 [7]), (2, demo_client 2 20 [8]), (3, demo_held)],
      h_nextID := 4\<rparr>"

lemmas demo_hub_simps = demo_hub_def newHub_def demo_client_def demo_held_def

lemma demo_hub_inv: "hub_inv demo_hub"
  by (auto simp: hub_inv_def hub_wf_but_def demo_hub_simps wf_map_def client_wf_def
      evicting_ids_def sendBuffer_def split: if_splits)

lemma demo_encodes:
  "\<exists>f. Encode (cParticipantLeft demo_codecs) t v = Inr f"
  "\<exists>f. Encode (cParticipantJoined demo_codecs) t u = Inr f"
  by (simp_all add: Encode_def demo_codecs_def f_via_def f_word_def MaxFrame_def)

lemma demo_encode_Broadcast:
  "length p \<le> 100 \<Longrightarrow> \<exists>f. Encode (cBroadcast demo_codecs) t \<lparr>b_From = n, b_Payload = p\<rparr> = Inr f"
  by (simp add: Encode_def demo_codecs_def f_via_def f_pair_def f_word_def f_bytes_def MaxFrame_def)

lemma demo_encode_SessionCreated:
  "length k \<le> 100 \<Longrightarrow>
     \<exists>f. Encode (cSessionCreated demo_codecs) t \<lparr>sc_ParticipantID = p, sc_ResumeToken = k\<rparr> = Inr f"
  by (simp add: Encode_def demo_codecs_def f_via_def f_pair_def f_word_def f_bytes_def MaxFrame_def)

lemma demo_encode_JoinResult:
  assumes "length ps \<le> 100" and "length k \<le> 100"
  shows "\<exists>f. Encode (cJoinResult demo_codecs) t \<lparr>jr_OK = b, jr_Err = '''', jr_ParticipantID = p,
    jr_Peers = ps, jr_HostID = q, jr_ResumeToken = k\<rparr> = Inr f"
proof -
  have "length (concat (map be32 ps)) = 4 * length ps" by (induction ps) auto
  with assms show ?thesis
    by (simp add: Encode_def demo_codecs_def f_via_def f_pair_def f_word_def f_bytes_def f_bool_def
        f_string_def f_ids_def MaxFrame_def)
qed

theorem departures_announced_witness:
  "\<exists>h' f c'. hub_step demo_codecs (leaveCmd 1 1 False) demo_hub = (h', False) \<and>
     Encode (cParticipantLeft demo_codecs) MsgParticipantLeft \<lparr>pl_ParticipantID = 1\<rparr> = Inr f \<and>
     find_client h' 3 = Some c' \<and> f \<in> set (cl_out c')"
proof -
  obtain f where f: "Encode (cParticipantLeft demo_codecs) MsgParticipantLeft \<lparr>pl_ParticipantID = 1\<rparr> = Inr f"
    using demo_encodes by blast
  obtain h' c' where h': "hub_step demo_codecs (leaveCmd 1 1 False) demo_hub = (h', False)"
    "find_client h' 1 = None" "find_client h' 3 = Some c'"
    using f by (simp add: hub_step_def handle_cmd_def handleLeave_def removeParticipant_def
      broadcastFrame_def fan_out_def queue_def set_client_def chan_send_def sendBuffer_def
      demo_hub_simps Let_def)
  have "f \<in> set (cl_out c')"
    by (rule departures_announced [OF demo_hub_inv _ _ h'(1) _ h'(2) f h'(3)])
       (simp_all add: demo_hub_simps)
  with h' f show ?thesis by blast
qed

theorem broadcast_exactly_once_witness:
  "\<exists>raw f h'. Encode (cBroadcast demo_codecs) MsgBroadcast \<lparr>b_From = 2, b_Payload = [42]\<rparr> = Inr f \<and>
     hub_step demo_codecs (frameCmd 2 MsgBroadcast raw) demo_hub = (h', False) \<and>
     map_option cl_out (find_client h' 3) = Some [[5], [6], f]"
proof -
  let ?b = "\<lparr>b_From = 0, b_Payload = [42]\<rparr>"
  obtain f where f: "Encode (cBroadcast demo_codecs) MsgBroadcast (?b\<lparr>b_From := 2\<rparr>) = Inr f"
    using demo_encode_Broadcast [of "[42]" MsgBroadcast 2] by auto
  obtain raw where raw: "marshal (cBroadcast demo_codecs) ?b = Some raw"
    by (simp add: demo_codecs_def)
  have body: "Body (cBroadcast demo_codecs) raw = Inr ?b"
    using demo_codecs_ok raw by (intro Body_roundtrip) (simp_all add: codecs_ok_def)
  have room: "length (cl_out c) < sendBuffer" if "find_client demo_hub k = Some c" for k c
    using that by (auto simp: demo_hub_simps sendBuffer_def split: if_splits)
  note once = broadcast_exactly_once [OF demo_hub_inv _ body f]
  have "\<exists>h'. hub_step demo_codecs (frameCmd 2 MsgBroadcast raw) demo_hub = (h', False) \<and>
    (\<forall>k. find_client h' k = (if k = 2 then find_client demo_hub k
       else map_option (\<lambda>c. c\<lparr>cl_out := cl_out c @ [f]\<rparr>) (find_client demo_hub k)))"
    by (rule once) (erule room)
  then obtain h' where
    h': "hub_step demo_codecs (frameCmd 2 MsgBroadcast raw) demo_hub = (h', False)"
    "find_client h' 3 = map_option (\<lambda>c. c\<lparr>cl_out := cl_out c @ [f]\<rparr>) (find_client demo_hub 3)"
    by auto
  have "map_option cl_out (find_client h' 3) = Some [[5], [6], f]"
    by (simp add: h'(2)) (simp add: demo_hub_simps)
  with f h'(1) show ?thesis by auto
qed

theorem route_stamps_sender_witness:
  "\<exists>raw c' f. find_client (route demo_codecs 2 MsgBroadcast raw demo_hub) 1 = Some c' \<and>
     cl_out c' = [f] \<and> forwarded demo_codecs 2 1 MsgBroadcast raw f"
proof -
  let ?b = "\<lparr>b_From = 9, b_Payload = [42]\<rparr>"
  obtain f where f: "Encode (cBroadcast demo_codecs) MsgBroadcast (?b\<lparr>b_From := 2\<rparr>) = Inr f"
    using demo_encode_Broadcast [of "[42]" MsgBroadcast 2] by auto
  obtain raw where raw: "marshal (cBroadcast demo_codecs) ?b = Some raw"
    by (simp add: demo_codecs_def)
  have body: "Body (cBroadcast demo_codecs) raw = Inr ?b"
    using demo_codecs_ok raw by (intro Body_roundtrip) (simp_all add: codecs_ok_def)
  have c: "find_client demo_hub 1 = Some (demo_client 1 10 [7])" by (simp add: demo_hub_simps)
  from route_stamps_sender [OF demo_codecs_ok demo_hub_inv c, of 2 MsgBroadcast raw]
  obtain c' where c': "find_client (route demo_codecs 2 MsgBroadcast raw demo_hub) 1 = Some c'"
    "cl_out c' = [] \<or> (\<exists>f. cl_out c' = [f] \<and> forwarded demo_codecs 2 1 MsgBroadcast raw f)"
    by (auto simp: demo_client_def)
  moreover have "cl_out c' \<noteq> []"
    using c'(1) f body
    by (auto simp: route_def broadcastFrame_def fan_out_def queue_def set_client_def chan_send_def
        sendBuffer_def demo_hub_simps Let_def)
  ultimately show ?thesis by blast
qed

end
