(* ===== verification/HubSlots.thy ===== *)
theory HubSlots
  imports HubDelivery
begin

text \<open>
  Slots across connections: the reachable-state invariant, drops, resumes, fresh ids, and how
  a session ends.
\<close>

section \<open>Reachable states\<close>

text \<open>
  C8. In every reachable hub state (any interleaving of commands, writer progress, connection
  replies and map iteration orders): ids are unique and each slot stored under its own id, no
  outbox exceeds its 64 frames, a grace timer is armed exactly for held slots and for their
  current generation, the participant cap holds, and between commands of a live session no
  eviction is left over.
\<close>

theorem hub_invariant:
  assumes "reachable_from hub_initial (hub_trans cb) h"
  shows "distinct (map fst (h_clients h)) \<and>
     (\<forall>(p, c) \<in> set (h_clients h). cl_id c = p \<and> length (cl_out c) \<le> 64 \<and>
        cl_timer c = (if cl_held c then Some (cl_gen c) else None) \<and>
        (h_done h \<or> \<not> cl_evicting c)) \<and>
     (h_clients h = [] \<or> int (length (h_clients h)) \<le> h_max h) \<and>
     (h_done h \<or> h_evict h = [])"
proof -
  have inv: "hub_live_inv h" using assms by (rule hub.reachable_invariant)
  then have wf: "hub_wf h" by (simp add: hub_live_inv_def)
  then have m: "wf_map (h_clients h)" by (rule hub_wf_map)
  have "cl_id c = p \<and> length (cl_out c) \<le> 64 \<and>
        cl_timer c = (if cl_held c then Some (cl_gen c) else None) \<and>
        (h_done h \<or> \<not> cl_evicting c)" if "(p, c) \<in> set (h_clients h)" for p c
  proof -
    have c: "find_client h p = Some c" using m that by (simp add: wf_map_def)
    then have "h_done h \<or> \<not> cl_evicting c"
      using inv by (auto simp: hub_live_inv_def dest: hub_inv_not_evicting)
    with hub_wf_client [OF wf c] show ?thesis by (simp add: client_wf_def sendBuffer_def)
  qed
  with wf inv m show ?thesis
    by (auto simp: hub_wf_but_def hub_live_inv_def hub_inv_def wf_map_def)
qed

section \<open>Held slots and resumes\<close>

lemma hub_step_quiet:
  "handle_cmd cb c h = (h', False) \<Longrightarrow> h_evict h' = [] \<Longrightarrow> hub_step cb c h = (h', False)"
  by (simp add: hub_step_def)

lemma evict_set_client [simp]: "h_evict (set_client p c h) = h_evict h"
  by (simp add: set_client_def)

lemma leave_unexpected:
  assumes "hub_inv h" and "find_client h p = Some c" and "\<not> cl_held c" and "h_grace h > 0"
  shows "hub_step cb (leaveCmd p (cl_gen c) True) h = (holdSlot c h, False)"
  using assms
  by (intro hub_step_quiet) (auto simp: handle_cmd_def handleLeave_def holdSlot_def hub_inv_def)

lemma find_holdSlot:
  "cl_id c = p \<Longrightarrow> find_client (holdSlot c h) k =
     (if k = p then Some (c\<lparr>cl_held := True, cl_gen := cl_gen c + 1, cl_out := [],
                            cl_timer := Some (cl_gen c + 1)\<rparr>)
      else find_client h k)"
  by (simp add: holdSlot_def set_client_def)

text \<open>
  An unexpected drop is invisible to the session: the slot is held with an empty buffer,
  a new generation and a grace timer for it, every other slot is untouched, nobody is told,
  and the timer of any other generation, as well as a second leave, then changes nothing.
\<close>

theorem unexpected_drop_holds:
  assumes "hub_inv h" and "find_client h p = Some c" and "\<not> cl_held c" and "h_grace h > 0"
  shows "\<exists>h'. hub_step cb (leaveCmd p (cl_gen c) True) h = (h', False) \<and>
     (\<forall>k. k \<noteq> p \<longrightarrow> find_client h' k = find_client h k) \<and>
     (\<exists>c'. find_client h' p = Some c' \<and> cl_held c' \<and> cl_out c' = [] \<and> cl_token c' = cl_token c \<and>
           cl_gen c' = cl_gen c + 1 \<and> cl_timer c' = Some (cl_gen c + 1)) \<and>
     h_kicks h' = h_kicks h \<and>
     (\<forall>g. g \<noteq> cl_gen c + 1 \<longrightarrow> hub_step cb (graceExpiredCmd p g) h' = (h', False)) \<and>
     (\<forall>g u. hub_step cb (leaveCmd p g u) h' = (h', False))"
proof -
  have p: "cl_id c = p" using hub_inv_client [OF assms(1,2)] by (simp add: client_wf_def)
  have e: "h_evict (holdSlot c h) = []" "h_kicks (holdSlot c h) = h_kicks h"
    using assms(1) by (simp_all add: holdSlot_def hub_inv_def set_client_def)
  note f = find_holdSlot [OF p, of h]
  have "hub_step cb (graceExpiredCmd p g) (holdSlot c h) = (holdSlot c h, False)"
    if "g \<noteq> cl_gen c + 1" for g
    using that by (intro hub_step_quiet) (simp_all add: handle_cmd_def handleGraceExpired_def f e)
  moreover have "hub_step cb (leaveCmd p g u) (holdSlot c h) = (holdSlot c h, False)" for g u
    by (intro hub_step_quiet) (simp_all add: handle_cmd_def handleLeave_def f e)
  ultimately show ?thesis
    using leave_unexpected [OF assms, of cb] e(2) by (intro exI [of _ "holdSlot c h"]) (simp add: f)
qed

lemma resume_ok:
  assumes "hub_inv h" and "find_client h p = Some c"
    and "Encode (cJoinResult cb) MsgJoinResult
           \<lparr>jr_OK = True, jr_Err = '''', jr_ParticipantID = p, jr_Peers = peersExcept p h,
            jr_HostID = h_host h, jr_ResumeToken = cl_token c\<rparr> = Inr jr"
  shows "hub_step cb (resumeCmd k p (cl_token c)) h = (handleResume cb k p (cl_token c) h, False)"
    and "h_evict (handleResume cb k p (cl_token c) h) = []"
    and "find_client (handleResume cb k p (cl_token c) h) q =
      (if q = p
       then Some (c\<lparr>cl_timer := None, cl_held := False, cl_gen := cl_gen c + 1, cl_kick := k,
                    cl_out := take sendBuffer (jr # (if cl_held c then cl_out c else []))\<rparr>)
       else find_client h q)"
    and "h_kicks (handleResume cb k p (cl_token c) h) =
      h_kicks h @ (if cl_held c then [] else [cl_kick c])"
proof -
  show e: "h_evict (handleResume cb k p (cl_token c) h) = []"
    using assms by (simp add: handleResume_def hub_inv_def Let_def)
  then show "hub_step cb (resumeCmd k p (cl_token c)) h = (handleResume cb k p (cl_token c) h, False)"
    by (intro hub_step_quiet) (simp_all add: handle_cmd_def)
  show "find_client (handleResume cb k p (cl_token c) h) q =
      (if q = p
       then Some (c\<lparr>cl_timer := None, cl_held := False, cl_gen := cl_gen c + 1, cl_kick := k,
                    cl_out := take sendBuffer (jr # (if cl_held c then cl_out c else []))\<rparr>)
       else find_client h q)"
    using assms(2,3) by (simp add: handleResume_def Let_def set_client_def chan_send_all_take sendBuffer_def)
  show "h_kicks (handleResume cb k p (cl_token c) h) =
      h_kicks h @ (if cl_held c then [] else [cl_kick c])"
    using assms(2,3) by (simp add: handleResume_def Let_def set_client_def reply_def)
qed

text \<open>
  A resume with the slot's token takes the slot over: the new connection first receives
  the join result and then the frames buffered while the slot was held, in order (a full buffer
  loses its last one); id and token stay, the generation moves on, a connection still attached
  is kicked, no other slot changes, and the leave or the grace expiry of the old generation that
  arrives afterwards has no effect.
\<close>

theorem resume_takes_over:
  assumes "hub_inv h" and "find_client h p = Some c"
    and "Encode (cJoinResult cb) MsgJoinResult
           \<lparr>jr_OK = True, jr_Err = '''', jr_ParticipantID = p, jr_Peers = peersExcept p h,
            jr_HostID = h_host h, jr_ResumeToken = cl_token c\<rparr> = Inr jr"
  shows "\<exists>h' c'. hub_step cb (resumeCmd k p (cl_token c)) h = (h', False) \<and>
     find_client h' p = Some c' \<and>
     cl_out c' = take 64 (jr # (if cl_held c then cl_out c else [])) \<and>
     \<not> cl_held c' \<and> cl_timer c' = None \<and> cl_id c' = p \<and> cl_token c' = cl_token c \<and>
     cl_gen c' = cl_gen c + 1 \<and> cl_kick c' = k \<and>
     h_kicks h' = h_kicks h @ (if cl_held c then [] else [cl_kick c]) \<and>
     (\<forall>q. q \<noteq> p \<longrightarrow> find_client h' q = find_client h q) \<and>
     (\<forall>u. hub_step cb (leaveCmd p (cl_gen c) u) h' = (h', False)) \<and>
     hub_step cb (graceExpiredCmd p (cl_gen c)) h' = (h', False)"
proof -
  let ?h = "handleResume cb k p (cl_token c) h"
  note r = resume_ok [OF assms, of k]
  have p: "cl_id c = p" using hub_inv_client [OF assms(1,2)] by (simp add: client_wf_def)
  have "hub_step cb (leaveCmd p (cl_gen c) u) ?h = (?h, False)" for u
    by (intro hub_step_quiet) (simp_all add: handle_cmd_def handleLeave_def r)
  moreover have "hub_step cb (graceExpiredCmd p (cl_gen c)) ?h = (?h, False)"
    by (intro hub_step_quiet) (simp_all add: handle_cmd_def handleGraceExpired_def r)
  ultimately show ?thesis
    by (intro exI [of _ ?h]) (simp add: r p sendBuffer_def)
qed

text \<open>
  A slot cannot be taken without its token: a resume that names an unknown participant or
  carries any other token is answered with the resume-rejected code, and no slot, no host and
  no connection is affected.
\<close>

theorem resume_rejected:
  assumes "hub_inv h" and "\<And>c. find_client h p = Some c \<Longrightarrow> cl_token c \<noteq> tok"
  shows "\<exists>h'. hub_step cb (resumeCmd k p tok) h = (h', False) \<and>
     h_clients h' = h_clients h \<and> h_host h' = h_host h \<and> h_kicks h' = h_kicks h \<and>
     h_replies h' = h_replies h @
       [(k, ResumeReply \<lparr>rrep_ok = False, rrep_errC = ErrCodeResumeRejected,
             rrep_errS = ''cannot resume session'', rrep_gen = 0\<rparr>)]"
  using assms
  by (intro exI [of _ "handleResume cb k p tok h"] conjI hub_step_quiet)
     (auto simp: handle_cmd_def handleResume_def Let_def reply_def count_error_def hub_inv_def
       split: option.split)

lemma map_fst_fan_out:
  "wf_map (h_clients h) \<Longrightarrow> map fst (h_clients (fan_out (map fst (h_clients h)) f ex h)) = map fst (h_clients h)"
  by (simp add: fan_out_clients wf_map_def case_prod_unfold)

lemma map_fst_route_broadcast:
  assumes "wf_map (h_clients h)" and "Body (cBroadcast cb) raw = Inr b"
  shows "map fst (h_clients (route cb q MsgBroadcast raw h)) = map fst (h_clients h)"
    and "h_host (route cb q MsgBroadcast raw h) = h_host h"
  using assms
    map_fst_fan_out [of "h\<lparr>h_metrics := (h_metrics h)
       \<lparr>FramesForwarded := FramesForwarded (h_metrics h) + 1,
        BytesForwarded := BytesForwarded (h_metrics h) + word_of_nat (length raw)\<rparr>\<rparr>"]
  by (simp_all add: route_def Let_def broadcastFrame_def split: sum.split)

lemma run_broadcasts:
  assumes "hub_inv h"
    and "list_all2 (\<lambda>raw f. \<exists>b. Body (cBroadcast cb) raw = Inr b \<and>
           Encode (cBroadcast cb) MsgBroadcast (b\<lparr>b_From := q\<rparr>) = Inr f) raws fs"
    and "\<forall>k c. find_client h k = Some c \<longrightarrow> length (cl_out c) + length fs \<le> sendBuffer"
  shows "\<exists>h'. (\<forall>rest. run cb h (map (frameCmd q MsgBroadcast) raws @ rest) = run cb h' rest) \<and>
     hub_inv h' \<and> map fst (h_clients h') = map fst (h_clients h) \<and> h_host h' = h_host h \<and>
     (\<forall>k. find_client h' k = (if k = q then find_client h k
          else map_option (\<lambda>c. c\<lparr>cl_out := cl_out c @ fs\<rparr>) (find_client h k)))"
  using assms(2,1,3)
proof (induction arbitrary: h rule: list_all2_induct)
  case Nil
  then show ?case by (intro exI [of _ h]) (simp add: option.map_ident)
next
  case (Cons raw raws f fs)
  from Cons(1) obtain b where b: "Body (cBroadcast cb) raw = Inr b"
    "Encode (cBroadcast cb) MsgBroadcast (b\<lparr>b_From := q\<rparr>) = Inr f" by blast
  let ?h = "route cb q MsgBroadcast raw h"
  have room: "length (cl_out c) < sendBuffer" if "find_client h k = Some c" for k c
    using Cons.prems(2) that by fastforce
  note step = broadcast_step [OF Cons.prems(1) _ b]
  have s: "hub_step cb (frameCmd q MsgBroadcast raw) h = (?h, False)"
    by (rule step) (rule room)
  have fnd: "find_client ?h k = (if k = q then find_client h k
      else map_option (\<lambda>c. c\<lparr>cl_out := cl_out c @ [f]\<rparr>) (find_client h k))" for k
    by (rule step) (rule room)
  have inv: "hub_inv ?h" using hub_step_wf [OF Cons.prems(1) s] by simp
  have "\<forall>k c. find_client ?h k = Some c \<longrightarrow> length (cl_out c) + length fs \<le> sendBuffer"
    using Cons.prems(2) by (fastforce simp: fnd split: if_splits)
  from Cons.IH [OF inv this] obtain h' where
    h': "\<forall>rest. run cb ?h (map (frameCmd q MsgBroadcast) raws @ rest) = run cb h' rest"
     "hub_inv h'" "map fst (h_clients h') = map fst (h_clients ?h)" "h_host h' = h_host ?h"
     "\<forall>k. find_client h' k = (if k = q then find_client ?h k
          else map_option (\<lambda>c. c\<lparr>cl_out := cl_out c @ fs\<rparr>) (find_client ?h k))"
    by blast
  have "find_client h' k = (if k = q then find_client h k
          else map_option (\<lambda>c. c\<lparr>cl_out := cl_out c @ f # fs\<rparr>) (find_client h k))" for k
    by (simp add: h'(5) fnd option.map_comp comp_def)
  with h' s map_fst_route_broadcast [OF hub_wf_map [OF hub_inv_wf [OF Cons.prems(1)]] b(1)]
  show ?case by (intro exI [of _ h']) simp
qed

text \<open>
  No message is lost across a drop: when a participant's connection drops, another one
  broadcasts while it is away, and it resumes with its token, then its new connection is sent
  the join result followed by exactly those messages in the order they were sent, as long as
  the buffers have room.
\<close>

theorem drop_then_resume_delivers:
  assumes "hub_inv h" and "find_client h p = Some c" and "\<not> cl_held c" and "h_grace h > 0"
    and "q \<noteq> p"
    and "list_all2 (\<lambda>raw f. \<exists>b. Body (cBroadcast cb) raw = Inr b \<and>
           Encode (cBroadcast cb) MsgBroadcast (b\<lparr>b_From := q\<rparr>) = Inr f) raws fs"
    and "length fs < 64"
    and "\<And>k c. find_client h k = Some c \<Longrightarrow> length (cl_out c) + length fs \<le> 64"
    and "Encode (cJoinResult cb) MsgJoinResult
           \<lparr>jr_OK = True, jr_Err = '''', jr_ParticipantID = p, jr_Peers = peersExcept p h,
            jr_HostID = h_host h, jr_ResumeToken = cl_token c\<rparr> = Inr jr"
  shows "\<exists>h' c'. run cb h (leaveCmd p (cl_gen c) True # map (frameCmd q MsgBroadcast) raws @
                      [resumeCmd k p (cl_token c)]) = (h', []) \<and>
     find_client h' p = Some c' \<and> cl_out c' = jr # fs \<and> cl_kick c' = k \<and> \<not> cl_held c'"
proof -
  let ?h = "holdSlot c h"
  have p: "cl_id c = p" using hub_inv_client [OF assms(1,2)] by (simp add: client_wf_def)
  note fnd = find_holdSlot [OF p, of h]
  have s: "hub_step cb (leaveCmd p (cl_gen c) True) h = (?h, False)"
    using assms(1-4) by (rule leave_unexpected)
  have inv: "hub_inv ?h" using hub_step_wf [OF assms(1) s] by simp
  have "\<forall>j d. find_client ?h j = Some d \<longrightarrow> length (cl_out d) + length fs \<le> sendBuffer"
    using assms(7,8) by (auto simp: fnd sendBuffer_def split: if_splits)
  from run_broadcasts [OF inv assms(6) this] obtain h1 where
    h1: "\<forall>rest. run cb ?h (map (frameCmd q MsgBroadcast) raws @ rest) = run cb h1 rest"
      "hub_inv h1" "map fst (h_clients h1) = map fst (h_clients ?h)" "h_host h1 = h_host ?h"
      "\<forall>k. find_client h1 k = (if k = q then find_client ?h k
          else map_option (\<lambda>c. c\<lparr>cl_out := cl_out c @ fs\<rparr>) (find_client ?h k))"
    by blast
  have c1: "find_client h1 p = Some (c\<lparr>cl_held := True, cl_gen := cl_gen c + 1, cl_out := fs,
                                  cl_timer := Some (cl_gen c + 1)\<rparr>)"
    using assms(5) by (simp add: h1(5) fnd)
  have "map fst (h_clients ?h) = map fst (h_clients h)" "h_host ?h = h_host h"
    using assms(1,2) p alist_update_eq_map [OF hub_wf_map [OF hub_inv_wf [OF assms(1)]] assms(2)]
    by (simp_all add: holdSlot_def set_client_def case_prod_unfold)
  with h1 have "peersExcept p h1 = peersExcept p h" "h_host h1 = h_host h"
    by (simp_all add: peersExcept_def)
  with assms(9) have "Encode (cJoinResult cb) MsgJoinResult
      \<lparr>jr_OK = True, jr_Err = '''', jr_ParticipantID = p, jr_Peers = peersExcept p h1,
       jr_HostID = h_host h1, jr_ResumeToken = cl_token c\<rparr> = Inr jr" by simp
  then have r: "hub_step cb (resumeCmd k p (cl_token c)) h1 = (handleResume cb k p (cl_token c) h1, False)"
    "find_client (handleResume cb k p (cl_token c) h1) p =
       Some (c\<lparr>cl_timer := None, cl_held := False, cl_gen := cl_gen c + 1 + 1, cl_kick := k,
               cl_out := take sendBuffer (jr # fs)\<rparr>)"
    using resume_ok [OF h1(2) c1, of cb jr k] by simp_all
  with s h1(1) assms(7) show ?thesis by (simp add: sendBuffer_def)
qed

section \<open>The end of a session\<close>

lemma broadcastFrame_Nil_iff [simp]: "h_clients (broadcastFrame cd t b ex h) = [] \<longleftrightarrow> h_clients h = []"
  using length_broadcastFrame [of cd t b ex h] by (metis length_0_conv)

lemma set_client_not_Nil [simp]: "h_clients (set_client p c h) \<noteq> []"
  using dom_set_client [of p c h] by auto

lemma removeParticipant_stop:
  "removeParticipant cb p h = (h', s) \<Longrightarrow> h_clients h \<noteq> [] \<Longrightarrow> s \<longleftrightarrow> h_clients h' = []"
  by (auto simp: removeParticipant_def Let_def split: option.splits if_splits)

lemma drainEvictions_stop:
  "drainEvictions cb h = (h', s) \<Longrightarrow> h_clients h \<noteq> [] \<Longrightarrow> s \<longleftrightarrow> h_clients h' = []"
proof (induction rule: drainEvictions_cases)
  case (Emptied h p rest h1)
  from removeParticipant_stop [OF Emptied(2)] Emptied(3) show ?case by simp
next
  case (Step h p rest h1 h' stop)
  from removeParticipant_stop [OF Step(2)] Step(4) have "h_clients h1 \<noteq> []" by simp
  then show ?case by (rule Step(3))
qed simp

lemma handle_cmd_stop:
  assumes "hub_inv h" and "h_clients h \<noteq> []" and "handle_cmd cb c h = (h', s)"
    and "\<And>r. c \<noteq> closeCmd r"
  shows "s \<longleftrightarrow> h_clients h' = []"
proof -
  have wf: "wf_map (h_clients h)" using assms(1) by (simp add: hub_inv_def hub_wf_but_def)
  have keep: "h_clients h'' \<noteq> []" if "dom (find_client h) \<subseteq> dom (find_client h'')" for h''
    using that assms(2) by (cases "h_clients h") auto
  show ?thesis
  proof (cases c)
    case (joinCmd k isC tok)
    with assms(3) keep dom_handleJoin [OF wf, of cb k isC tok] show ?thesis
      by (auto simp: handle_cmd_def)
  next
    case (leaveCmd p g u)
    with assms(2,3) show ?thesis
      by (auto simp: handle_cmd_def handleLeave_def holdSlot_def removeParticipant_stop
          split: option.splits if_splits)
  next
    case (resumeCmd k p tok)
    with assms(3) keep dom_handleResume [of cb k p tok h] show ?thesis by (auto simp: handle_cmd_def)
  next
    case (graceExpiredCmd p g)
    with assms(2,3) show ?thesis
      by (auto simp: handle_cmd_def handleGraceExpired_def removeParticipant_stop
          split: option.splits if_splits)
  next
    case (frameCmd p ty raw)
    with assms(3) keep dom_route [OF wf, of cb p ty raw] show ?thesis by (auto simp: handle_cmd_def)
  next
    case (claimHostCmd p)
    with assms(2,3) show ?thesis by (auto simp: handle_cmd_def handleClaimHost_def split: option.splits)
  next
    case (statsCmd k)
    with assms(2,3) show ?thesis by (auto simp: handle_cmd_def handleStats_def)
  qed (use assms(4) in simp)
qed

text \<open>
  A session ends exactly when it has emptied or was closed: for every command on a hub
  with participants, the loop stops if and only if the command is a close or no participant is
  left. In particular the host's departure does not end it.
\<close>

theorem session_ends_iff:
  assumes "hub_inv h" and "h_clients h \<noteq> []" and "hub_step cb c h = (h', stop)"
  shows "stop \<longleftrightarrow> (\<exists>reason. c = closeCmd reason) \<or> h_clients h' = []"
proof (cases "\<exists>reason. c = closeCmd reason")
  case True
  with assms(3) show ?thesis by (auto simp: hub_step_def handle_cmd_def)
next
  case False
  obtain h1 s where h1: "handle_cmd cb c h = (h1, s)" by (cases "handle_cmd cb c h")
  from handle_cmd_stop [OF assms(1,2) h1] False have s: "s \<longleftrightarrow> h_clients h1 = []" by blast
  show ?thesis
  proof (cases s)
    case True
    with s h1 assms(3) show ?thesis by (auto simp: hub_step_def)
  next
    case ns: False
    with h1 assms(3) have "drainEvictions cb h1 = (h', stop)" by (simp add: hub_step_def)
    with drainEvictions_stop s ns False show ?thesis by blast
  qed
qed

section \<open>Participant ids\<close>

definition join_ids :: "hub \<Rightarrow> ParticipantID list" where
  "join_ids h = concat (map (\<lambda>(k, r). case r of JoinReply j \<Rightarrow> if jrep_ok j then [jrep_id j] else []
                                     | _ \<Rightarrow> []) (h_replies h))"

text \<open>The commands other than a join keep the ids handed out and add no slot.\<close>

definition keeps_ids :: "hub \<Rightarrow> hub \<Rightarrow> bool" where
  "keeps_ids h h' \<longleftrightarrow> join_ids h' = join_ids h \<and> h_nextID h' = h_nextID h \<and>
     dom (find_client h') \<subseteq> dom (find_client h)"

lemma keeps_ids_refl [simp]: "keeps_ids h h"
  by (simp add: keeps_ids_def)

lemma keeps_ids_trans: "keeps_ids h h1 \<Longrightarrow> keeps_ids h1 h2 \<Longrightarrow> keeps_ids h h2"
  unfolding keeps_ids_def by (simp, blast)

lemma keeps_ids_removeParticipant:
  assumes "wf_map (h_clients h)" and "removeParticipant cb p h = (h', s)"
  shows "keeps_ids h h'"
  unfolding keeps_ids_def
proof (intro conjI)
  show "join_ids h' = join_ids h" "h_nextID h' = h_nextID h"
    using assms(2) by (auto simp: removeParticipant_def Let_def join_ids_def split: option.splits if_splits)
  show "dom (find_client h') \<subseteq> dom (find_client h)"
    by (simp only: removeParticipant_dom [OF assms]) blast
qed

lemma keeps_ids_drainEvictions:
  "drainEvictions cb h = (h', s) \<Longrightarrow> hub_wf h \<Longrightarrow> keeps_ids h h'"
proof (induction rule: drainEvictions_cases)
  case (Emptied h p rest h1)
  then have "wf_map (h_clients (h\<lparr>h_evict := rest\<rparr>))" by (simp add: hub_wf_but_def)
  from keeps_ids_removeParticipant [OF this Emptied(2)] show ?case
    by (simp add: keeps_ids_def join_ids_def)
next
  case (Step h p rest h1 h' s)
  then have "wf_map (h_clients (h\<lparr>h_evict := rest\<rparr>))" by (simp add: hub_wf_but_def)
  from keeps_ids_removeParticipant [OF this Step(2)] have "keeps_ids h h1"
    by (simp add: keeps_ids_def join_ids_def)
  moreover have "hub_wf h1"
    using hub_wf_removeParticipant [OF hub_wf_but_pop [OF Step(4,1)], of cb] Step(2) by simp
  ultimately show ?case using Step(3) keeps_ids_trans by blast
qed simp

lemma keeps_ids_holdSlot: "cl_id x \<in> dom (find_client h) \<Longrightarrow> keeps_ids h (holdSlot x h)"
  unfolding keeps_ids_def holdSlot_def
  by (simp only: dom_set_client) (auto simp: set_client_def join_ids_def)

lemma keeps_ids_handle_cmd:
  assumes "hub_inv h" and "handle_cmd cb c h = (h', s)" and "\<And>k isC tok. c \<noteq> joinCmd k isC tok"
  shows "keeps_ids h h'"
proof -
  have wf: "wf_map (h_clients h)" using assms(1) by (simp add: hub_inv_def hub_wf_but_def)
  have hold: "keeps_ids h (holdSlot x h)" if "find_client h p = Some x" for p x
    using hub_inv_client [OF assms(1) that] that
    by (intro keeps_ids_holdSlot) (auto simp: client_wf_def)
  show ?thesis
  proof (cases c)
    case (leaveCmd p g u)
    with assms(2) hold show ?thesis
      by (auto simp: handle_cmd_def handleLeave_def keeps_ids_removeParticipant [OF wf]
          split: option.splits if_splits)
  next
    case (resumeCmd k p tok)
    have "join_ids (handleResume cb k p tok h) = join_ids h"
      "h_nextID (handleResume cb k p tok h) = h_nextID h"
      by (auto simp: handleResume_def Let_def join_ids_def reply_def count_error_def set_client_def
          split: option.split sum.split)
    with resumeCmd assms(2) dom_handleResume [of cb k p tok h] show ?thesis
      by (simp add: handle_cmd_def keeps_ids_def)
  next
    case (graceExpiredCmd p g)
    with assms(2) show ?thesis
      by (auto simp: handle_cmd_def handleGraceExpired_def keeps_ids_removeParticipant [OF wf]
          split: option.splits if_splits)
  next
    case (frameCmd p ty raw)
    have "join_ids (route cb p ty raw h) = join_ids h" "h_nextID (route cb p ty raw h) = h_nextID h"
      by (simp_all add: route_def Let_def join_ids_def count_error_def split: sum.split option.split)
    with frameCmd assms(2) dom_route [OF wf, of cb p ty raw] show ?thesis
      by (simp add: handle_cmd_def keeps_ids_def)
  next
    case (closeCmd r)
    then have "h' = handleClose cb r h" using assms(2) by (simp add: handle_cmd_def)
    then show ?thesis unfolding keeps_ids_def handleClose_def
      by (simp only: dom_broadcastFrame [OF wf]) (simp add: join_ids_def)
  next
    case (claimHostCmd p)
    with assms(2) show ?thesis
      by (auto simp: handle_cmd_def handleClaimHost_def keeps_ids_def join_ids_def split: option.splits)
  next
    case (statsCmd k)
    with assms(2) show ?thesis
      by (auto simp: handle_cmd_def handleStats_def keeps_ids_def join_ids_def reply_def)
  qed (use assms(3) in simp)
qed

text \<open>Ids handed out so far: distinct, below the counter, and covering every slot.\<close>

definition ids_fresh :: "nat \<Rightarrow> hub \<Rightarrow> bool" where
  "ids_fresh n h \<longleftrightarrow> distinct (join_ids h) \<and> (\<forall>i \<in> set (join_ids h). i < h_nextID h) \<and>
     dom (find_client h) \<subseteq> set (join_ids h) \<and> unat (h_nextID h) \<le> n"

lemma ids_fresh_keep: "ids_fresh n h \<Longrightarrow> keeps_ids h h' \<Longrightarrow> ids_fresh (Suc n) h'"
  unfolding ids_fresh_def keeps_ids_def by (simp, blast)

lemma word_less_Suc:
  assumes "unat (x :: uint32) + 1 < 2 ^ 32"
  shows "unat (x + 1) = unat x + 1"
  using assms by (simp add: unat_word_ariths)

lemma ids_fresh_join:
  assumes "hub_inv h" and "ids_fresh n h" and "n + 1 < 2 ^ 32"
  shows "ids_fresh (Suc n) (handleJoin cb k isC tok h)"
proof -
  let ?h' = "handleJoin cb k isC tok h"
  have wf: "wf_map (h_clients h)" using assms(1) by (simp add: hub_inv_def hub_wf_but_def)
  have next1: "unat (h_nextID h + 1) = unat (h_nextID h) + 1"
    using assms(2,3) by (intro word_less_Suc) (simp add: ids_fresh_def)
  then have less: "i < h_nextID h + 1" if "i < h_nextID h \<or> i = h_nextID h" for i
    using that by (auto simp: word_less_nat_alt)
  have "?h' = reply k (JoinReply \<lparr>jrep_ok = False, jrep_errC = ErrCodeSessionFull,
        jrep_errS = ''session full'', jrep_id = 0, jrep_gen = 0\<rparr>) (count_error h) \<or>
    ?h' = reply k (JoinReply \<lparr>jrep_ok = False, jrep_errC = ErrCodeBadFrame,
        jrep_errS = ''encode reply'', jrep_id = 0, jrep_gen = 0\<rparr>) (h\<lparr>h_nextID := h_nextID h + 1\<rparr>) \<or>
    (join_ids ?h' = join_ids h @ [h_nextID h] \<and> h_nextID ?h' = h_nextID h + 1)"
    by (auto simp: handleJoin_def Let_def join_ids_def reply_def set_client_def split: sum.split)
  then consider "?h' = reply k (JoinReply \<lparr>jrep_ok = False, jrep_errC = ErrCodeSessionFull,
        jrep_errS = ''session full'', jrep_id = 0, jrep_gen = 0\<rparr>) (count_error h)"
    | "?h' = reply k (JoinReply \<lparr>jrep_ok = False, jrep_errC = ErrCodeBadFrame,
        jrep_errS = ''encode reply'', jrep_id = 0, jrep_gen = 0\<rparr>) (h\<lparr>h_nextID := h_nextID h + 1\<rparr>)"
    | "join_ids ?h' = join_ids h @ [h_nextID h]" "h_nextID ?h' = h_nextID h + 1"
    by blast
  then show ?thesis
  proof cases
    case 3
    have "dom (find_client ?h') \<subseteq> set (join_ids ?h')"
      using dom_handleJoin [OF wf, of cb k isC tok] assms(2) 3
      unfolding ids_fresh_def by (simp, blast)
    with 3 assms(2) next1 less show ?thesis unfolding ids_fresh_def by auto
  qed (use assms(2) next1 less in
       \<open>auto simp: ids_fresh_def join_ids_def reply_def count_error_def\<close>)
qed

lemma ids_fresh_step:
  assumes "hub_inv h" and "ids_fresh n h" and "n + 1 < 2 ^ 32" and "hub_step cb c h = (h', s)"
  shows "ids_fresh (Suc n) h'"
proof -
  obtain h1 s1 where h1: "handle_cmd cb c h = (h1, s1)" by (cases "handle_cmd cb c h")
  have f: "ids_fresh (Suc n) h1"
  proof (cases "\<exists>k isC tok. c = joinCmd k isC tok")
    case True
    with ids_fresh_join [OF assms(1-3)] h1 show ?thesis by (auto simp: handle_cmd_def)
  next
    case False
    then have "keeps_ids h h1" by (intro keeps_ids_handle_cmd [OF assms(1) h1]) blast
    with assms(2) show ?thesis by (rule ids_fresh_keep)
  qed
  have wf: "hub_wf h1" using handle_cmd_wf [OF assms(1), of cb c] h1 by simp
  show ?thesis
  proof (cases s1)
    case True
    with f h1 assms(4) show ?thesis by (simp add: hub_step_def)
  next
    case False
    with h1 assms(4) have "drainEvictions cb h1 = (h', s)" by (simp add: hub_step_def)
    from keeps_ids_drainEvictions [OF this wf] f show ?thesis
      unfolding ids_fresh_def keeps_ids_def by (simp, blast)
  qed
qed

lemma ids_fresh_shutdown: "ids_fresh n h \<Longrightarrow> n \<le> m \<Longrightarrow> ids_fresh m (shutdown h)"
  unfolding ids_fresh_def shutdown_def by (simp add: join_ids_def)

lemma ids_fresh_run:
  "hub_inv h \<Longrightarrow> ids_fresh n h \<Longrightarrow> n + length cmds < 2 ^ 32 \<Longrightarrow> run cb h cmds = (h', rest) \<Longrightarrow>
     ids_fresh (n + length cmds) h'"
proof (induction cmds arbitrary: h n)
  case (Cons c cmds)
  obtain h1 s where h1: "hub_step cb c h = (h1, s)" by (cases "hub_step cb c h")
  have f: "ids_fresh (Suc n) h1"
    using Cons.prems by (intro ids_fresh_step [OF Cons.prems(1,2) _ h1]) simp
  show ?case
  proof (cases s)
    case True
    then have "h' = shutdown h1" using h1 Cons.prems(4) by simp
    with ids_fresh_shutdown [OF f] show ?thesis by simp
  next
    case False
    with Cons.IH [of h1 "Suc n"] f h1 Cons.prems hub_step_wf [OF Cons.prems(1) h1] show ?thesis by simp
  qed
qed simp

text \<open>
  C27. Participant ids are never reused within a session: over any command sequence shorter
  than the 32-bit counter, the ids of all successful joins are distinct, departed participants
  included, and every slot belongs to one of them.
\<close>

theorem ids_never_reused:
  assumes "run cb (newHub sid maxP grace now m) cmds = (h', rest)" and "length cmds + 1 < 2 ^ 32"
  shows "distinct (join_ids h') \<and> dom (find_client h') \<subseteq> set (join_ids h')"
proof -
  have "ids_fresh 1 (newHub sid maxP grace now m)"
    by (simp add: ids_fresh_def newHub_def join_ids_def)
  from ids_fresh_run [OF hub_inv_newHub this _ assms(1)] assms(2) show ?thesis
    by (simp add: ids_fresh_def)
qed

section \<open>Departed hosts, racing joins and unanswered commands\<close>

text \<open>
  The session outlives its host, but the hub still names the departed one: after the host
  leaves a session with others in it, the loop goes on, the host's slot is gone, and the hub
  keeps announcing the departed id as the host (join and resume results carry it) until some
  participant claims the role.
\<close>

theorem departed_host_still_named:
  assumes "hub_inv h" and "find_client h (h_host h) = Some c" and "\<not> cl_held c"
    and "find_client h q = Some d" and "q \<noteq> h_host h"
    and "\<And>k d. find_client h k = Some d \<Longrightarrow> length (cl_out d) < 64"
  shows "\<exists>h'. hub_step cb (leaveCmd (h_host h) (cl_gen c) False) h = (h', False) \<and>
     find_client h' (h_host h) = None \<and> h_host h' = h_host h \<and>
     h_host (fst (hub_step cb (claimHostCmd q) h')) = q"
proof -
  let ?p = "h_host h"
  let ?h = "h\<lparr>h_clients := AList.delete ?p (h_clients h), h_kicks := h_kicks h @ [cl_kick c]\<rparr>"
  let ?h' = "broadcastFrame (cParticipantLeft cb) MsgParticipantLeft \<lparr>pl_ParticipantID = ?p\<rparr> 0 ?h"
  have m: "wf_map (h_clients h)" using assms(1) by (simp add: hub_inv_def hub_wf_but_def)
  have q: "find_client ?h q = Some d" using assms(4,5) by simp
  then have ne: "AList.delete ?p (h_clients h) \<noteq> []" by (auto simp del: map_of_alist_delete)
  then have hd: "handle_cmd cb (leaveCmd ?p (cl_gen c) False) h = (?h', False)"
    using assms(2,3) by (simp add: handle_cmd_def handleLeave_def removeParticipant_def)
  have "length (cl_out e) < sendBuffer" if "find_client ?h k = Some e" for k e
    using that assms(6) [of k e] by (simp add: sendBuffer_def split: if_splits)
  then have e: "h_evict ?h' = []"
    using assms(1) m by (intro no_overflow_fan_out) (simp_all add: hub_inv_def)
  have "dom (find_client ?h') = dom (find_client ?h)" using m by (intro dom_broadcastFrame) simp
  moreover have "?p \<notin> dom (find_client ?h)" "q \<in> dom (find_client ?h)"
    using assms(4,5) by auto
  ultimately have "?p \<notin> dom (find_client ?h')" "q \<in> dom (find_client ?h')" by simp_all
  then have fnd: "find_client ?h' ?p = None" "find_client ?h' q \<noteq> None" by blast+
  then have "hub_step cb (claimHostCmd q) ?h' = (?h'\<lparr>h_host := q\<rparr>, False)"
    using e by (intro hub_step_quiet) (auto simp: handle_cmd_def handleClaimHost_def)
  with hub_step_quiet [OF hd e] fnd show ?thesis by auto
qed

text \<open>
  C40. Commands queued behind the end of a session are never answered: when the only
  participant leaves, the loop shuts down with the rest of its inbox unread, so a join or a
  resume already accepted into the inbox gets no reply at all.
\<close>

theorem queued_join_unanswered:
  assumes "h_clients h = [(p, c)]" and "\<not> cl_held c"
  shows "\<exists>h'. run cb h (leaveCmd p (cl_gen c) False # inbox) = (h', inbox) \<and>
     h_done h' \<and> h_replies h' = h_replies h"
  using assms
  by (simp add: hub_step_def handle_cmd_def handleLeave_def removeParticipant_def shutdown_def)

text \<open>What an admitted join answers, the creator's or a joiner's.\<close>

definition join_answer :: "codecs \<Rightarrow> bool \<Rightarrow> bytes \<Rightarrow> hub \<Rightarrow> wire_error + bytes" where
  "join_answer cb isCreate tok h =
     (if isCreate then Encode (cSessionCreated cb) MsgSessionCreated
            \<lparr>sc_ParticipantID = h_nextID h, sc_ResumeToken = tok\<rparr>
      else Encode (cJoinResult cb) MsgJoinResult
            \<lparr>jr_OK = True, jr_Err = '''', jr_ParticipantID = h_nextID h,
             jr_Peers = peersExcept (h_nextID h) h, jr_HostID = h_host h, jr_ResumeToken = tok\<rparr>)"

lemma join_step:
  fixes k :: conn
  assumes "hub_inv h" and "int (length (h_clients h)) < h_max h" and "find_client h (h_nextID h) = None"
    and "\<And>q c. find_client h q = Some c \<Longrightarrow> length (cl_out c) < sendBuffer"
    and "join_answer cb isC tok h = Inr f"
  defines "h' \<equiv> handleJoin cb k isC tok h"
  shows "hub_step cb (joinCmd k isC tok) h = (h', False)"
    and "h_replies h' = h_replies h @
      [(k, JoinReply \<lparr>jrep_ok = True, jrep_errC = 0, jrep_errS = '''', jrep_id = h_nextID h, jrep_gen = 1\<rparr>)]"
    and "h_nextID h' = h_nextID h + 1" and "h_host h' = h_host h" and "h_max h' = h_max h"
    and "length (h_clients h') = Suc (length (h_clients h))"
    and "find_client h' q =
      (if q = h_nextID h
       then Some \<lparr>cl_id = q, cl_out = [f], cl_kick = k, cl_token = tok, cl_held = False, cl_gen = 1,
                  cl_timer = None, cl_evicting = False\<rparr>
       else case Encode (cParticipantJoined cb) MsgParticipantJoined \<lparr>pj_ParticipantID = h_nextID h\<rparr> of
              Inl _ \<Rightarrow> find_client h q
            | Inr g \<Rightarrow> map_option (\<lambda>c. c\<lparr>cl_out := cl_out c @ [g]\<rparr>) (find_client h q))"
proof -
  let ?c = "\<lparr>cl_id = h_nextID h, cl_out = [f], cl_kick = k, cl_token = tok, cl_held = False,
             cl_gen = 1, cl_timer = None, cl_evicting = False\<rparr>"
  let ?h = "reply k (JoinReply \<lparr>jrep_ok = True, jrep_errC = 0, jrep_errS = '''',
      jrep_id = h_nextID h, jrep_gen = 1\<rparr>)
      (h\<lparr>h_nextID := h_nextID h + 1, h_clients := AList.update (h_nextID h) ?c (h_clients h),
         h_metrics := (h_metrics h)\<lparr>Joins := Joins (h_metrics h) + 1\<rparr>\<rparr>)"
  have h': "h' = broadcastFrame (cParticipantJoined cb) MsgParticipantJoined
      \<lparr>pj_ParticipantID = h_nextID h\<rparr> (h_nextID h) ?h"
    using assms(2,5) unfolding h'_def join_answer_def
    by (cases isC) (simp_all add: handleJoin_def Let_def set_client_def peersExcept_def)
  have m: "wf_map (h_clients h)" using assms(1) by (simp add: hub_inv_def hub_wf_but_def)
  have e: "h_evict h' = []"
    unfolding h' using assms(1,4) m
    by (intro no_overflow_fan_out) (auto simp: hub_inv_def sendBuffer_def split: if_splits)
  then show "hub_step cb (joinCmd k isC tok) h = (h', False)"
    unfolding h'_def by (intro hub_step_quiet) (simp_all add: handle_cmd_def)
  show "h_replies h' = h_replies h @
      [(k, JoinReply \<lparr>jrep_ok = True, jrep_errC = 0, jrep_errS = '''', jrep_id = h_nextID h, jrep_gen = 1\<rparr>)]"
    "h_nextID h' = h_nextID h + 1" "h_host h' = h_host h" "h_max h' = h_max h"
    "length (h_clients h') = Suc (length (h_clients h))"
    unfolding h' using assms(3) by (simp_all add: reply_def length_update_absent)
  have room: "offer g c = c\<lparr>cl_out := cl_out c @ [g]\<rparr>" if "find_client h q = Some c" for q c g
    using assms(4) [OF that] hub_inv_not_evicting [OF assms(1) that] by (simp add: offer_def)
  show "find_client h' q =
      (if q = h_nextID h
       then Some \<lparr>cl_id = q, cl_out = [f], cl_kick = k, cl_token = tok, cl_held = False, cl_gen = 1,
                  cl_timer = None, cl_evicting = False\<rparr>
       else case Encode (cParticipantJoined cb) MsgParticipantJoined \<lparr>pj_ParticipantID = h_nextID h\<rparr> of
              Inl _ \<Rightarrow> find_client h q
            | Inr g \<Rightarrow> map_option (\<lambda>c. c\<lparr>cl_out := cl_out c @ [g]\<rparr>) (find_client h q))"
    unfolding h' using m room
    by (cases "find_client h q") (simp_all add: find_broadcastFrame split: sum.split)
qed

text \<open>
  A join is announced and answered: below the participant cap, the joiner gets a fresh
  slot whose first frame is the join result with its id, token, the present host and exactly
  the participants already there; every one of them, held ones included, is sent one
  participant-joined notice after what it had already queued. At the cap the join is refused
  with the session-full code and no slot changes.
\<close>

theorem join_admits:
  assumes "hub_inv h" and "find_client h (h_nextID h) = None"
    and "\<And>q c. find_client h q = Some c \<Longrightarrow> length (cl_out c) < 64"
    and "Encode (cJoinResult cb) MsgJoinResult
            \<lparr>jr_OK = True, jr_Err = '''', jr_ParticipantID = h_nextID h,
             jr_Peers = map fst (h_clients h), jr_HostID = h_host h, jr_ResumeToken = tok\<rparr> = Inr f"
    and "Encode (cParticipantJoined cb) MsgParticipantJoined \<lparr>pj_ParticipantID = h_nextID h\<rparr> = Inr g"
  shows "\<exists>h'. hub_step cb (joinCmd k False tok) h = (h', False) \<and>
     (if int (length (h_clients h)) < h_max h
      then map_option (\<lambda>c. (cl_out c, cl_token c, cl_held c)) (find_client h' (h_nextID h)) = Some ([f], tok, False) \<and>
           (\<forall>q. q \<noteq> h_nextID h \<longrightarrow> find_client h' q =
              map_option (\<lambda>c. c\<lparr>cl_out := cl_out c @ [g]\<rparr>) (find_client h q))
      else h_clients h' = h_clients h \<and>
           h_replies h' = h_replies h @ [(k, JoinReply \<lparr>jrep_ok = False, jrep_errC = ErrCodeSessionFull,
              jrep_errS = ''session full'', jrep_id = 0, jrep_gen = 0\<rparr>)])"
proof (cases "int (length (h_clients h)) < h_max h")
  case True
  have "peersExcept (h_nextID h) h = map fst (h_clients h)"
    using assms(2) by (force simp: peersExcept_def map_of_None_iff filter_id_conv)
  then have f: "join_answer cb False tok h = Inr f" using assms(4) by (simp add: join_answer_def)
  have room: "length (cl_out c) < sendBuffer" if "find_client h q = Some c" for q c
    using assms(3) [OF that] by (simp add: sendBuffer_def)
  show ?thesis
    using join_step(1,7) [OF assms(1) True assms(2) _ f, where k = k] room True assms(5) by auto
next
  case False
  then have "handle_cmd cb (joinCmd k False tok) h = (reply k (JoinReply \<lparr>jrep_ok = False,
      jrep_errC = ErrCodeSessionFull, jrep_errS = ''session full'', jrep_id = 0, jrep_gen = 0\<rparr>)
      (count_error h), False)"
    by (simp add: handle_cmd_def handleJoin_def)
  from hub_step_quiet [OF this] False assms(1) show ?thesis
    by (simp add: hub_inv_def reply_def count_error_def)
qed

text \<open>
  The creator is not always participant 1: if a join reaches the new hub's inbox before
  the creator's own command, the joiner becomes participant 1 and the recorded host, and the
  creator is participant 2.
\<close>

theorem creator_can_lose_race:
  assumes "2 \<le> maxP"
    and "Encode (cJoinResult cb) MsgJoinResult \<lparr>jr_OK = True, jr_Err = '''', jr_ParticipantID = 1,
           jr_Peers = [], jr_HostID = 1, jr_ResumeToken = tok1\<rparr> = Inr f1"
    and "Encode (cSessionCreated cb) MsgSessionCreated
           \<lparr>sc_ParticipantID = 2, sc_ResumeToken = tok2\<rparr> = Inr f2"
  shows "\<exists>h'. run cb (newHub sid maxP grace now m) [joinCmd k1 False tok1, joinCmd k2 True tok2] = (h', []) \<and>
     h_host h' = 1 \<and>
     h_replies h' =
       [(k1, JoinReply \<lparr>jrep_ok = True, jrep_errC = 0, jrep_errS = '''', jrep_id = 1, jrep_gen = 1\<rparr>),
        (k2, JoinReply \<lparr>jrep_ok = True, jrep_errC = 0, jrep_errS = '''', jrep_id = 2, jrep_gen = 1\<rparr>)]"
proof -
  let ?h0 = "newHub sid maxP grace now m" and ?h1 = "handleJoin cb k1 False tok1 (newHub sid maxP grace now m)"
  have 0: "h_clients ?h0 = []" "h_nextID ?h0 = 1" "h_host ?h0 = 1" "h_max ?h0 = maxP" "h_replies ?h0 = []"
    by (simp_all add: newHub_def)
  have "join_answer cb False tok1 ?h0 = Inr f1"
    using assms(2) by (simp add: join_answer_def 0 peersExcept_def)
  note 1 = join_step [OF hub_inv_newHub _ _ _ this, where k = k1]
  have s1: "hub_step cb (joinCmd k1 False tok1) ?h0 = (?h1, False)"
    by (rule 1) (use assms(1) in \<open>simp_all add: 0\<close>)
  have f1: "h_replies ?h1 = [(k1, JoinReply \<lparr>jrep_ok = True, jrep_errC = 0, jrep_errS = '''', jrep_id = 1, jrep_gen = 1\<rparr>)]"
    "h_nextID ?h1 = 2" "h_host ?h1 = 1" "h_max ?h1 = maxP" "length (h_clients ?h1) = 1"
    using 1(2-6) assms(1) by (simp_all add: 0)
  have c1: "find_client ?h1 q = (if q = 1 then Some \<lparr>cl_id = q, cl_out = [f1], cl_kick = k1,
      cl_token = tok1, cl_held = False, cl_gen = 1, cl_timer = None, cl_evicting = False\<rparr> else None)" for q
    using 1(7) [where q = q] assms(1) by (simp add: 0 split: sum.split)
  have inv: "hub_inv ?h1" using hub_step_wf [OF hub_inv_newHub s1] by simp
  have "join_answer cb True tok2 ?h1 = Inr f2" using assms(3) by (simp add: join_answer_def f1)
  note 2 = join_step [OF inv _ _ _ this, where k = k2]
  have "hub_step cb (joinCmd k2 True tok2) ?h1 = (handleJoin cb k2 True tok2 ?h1, False)"
    by (rule 2) (use assms(1) in \<open>auto simp: f1 c1 sendBuffer_def split: if_splits\<close>)
  moreover have "h_host (handleJoin cb k2 True tok2 ?h1) = 1"
    "h_replies (handleJoin cb k2 True tok2 ?h1) = h_replies ?h1 @
       [(k2, JoinReply \<lparr>jrep_ok = True, jrep_errC = 0, jrep_errS = '''', jrep_id = 2, jrep_gen = 1\<rparr>)]"
    by (subst 2, use assms(1) in \<open>auto simp: f1 c1 sendBuffer_def split: if_splits\<close>)+
  ultimately show ?thesis using s1 f1(1) by simp
qed

section \<open>Closed examples\<close>

lemma demo_join:
  "\<exists>h'. hub_step demo_codecs (joinCmd 10 True [7]) (newHub sid 16 30 0 zero_Metrics) = (h', False) \<and>
     length (h_clients h') = 1"
proof -
  obtain f g where "Encode (cSessionCreated demo_codecs) MsgSessionCreated
      \<lparr>sc_ParticipantID = 1, sc_ResumeToken = [7]\<rparr> = Inr f"
    "Encode (cParticipantJoined demo_codecs) MsgParticipantJoined \<lparr>pj_ParticipantID = 1\<rparr> = Inr g"
    using demo_encode_SessionCreated [of "[7]"] demo_encodes(2) by fastforce
  then show ?thesis
    by (simp add: hub_step_def handle_cmd_def handleJoin_def newHub_def reply_def set_client_def
      broadcastFrame_def fan_out_def Let_def)
qed

theorem hub_invariant_witness:
  "\<exists>h. reachable_from hub_initial (hub_trans demo_codecs) h \<and> length (h_clients h) = 1 \<and>
       (\<forall>(p, c) \<in> set (h_clients h). cl_id c = p \<and> length (cl_out c) \<le> 64)"
proof -
  let ?i = "newHub (replicate 16 0) 16 30 0 zero_Metrics"
  obtain h' where h': "hub_step demo_codecs (joinCmd 10 True [7]) ?i = (h', False)"
    "length (h_clients h') = 1" using demo_join by blast
  have t: "hub_trans demo_codecs ?i (Handle (joinCmd 10 True [7])) h'"
    using h'(1) by (intro hub_trans.handle) (simp_all add: newHub_def)
  have "reachable_from hub_initial (hub_trans demo_codecs) ?i"
    by (rule reach_initial) (unfold hub_initial_def, blast)
  then have "reachable_from hub_initial (hub_trans demo_codecs) h'" using t by (rule reach_step)
  from this h'(2) hub_invariant [OF this] show ?thesis by (intro exI [of _ h']) auto
qed

lemma demo_find [simp]:
  "find_client demo_hub 1 = Some (demo_client 1 10 [7])" "find_client demo_hub 2 = Some (demo_client 2 20 [8])"
  "find_client demo_hub 3 = Some demo_held"
  by (simp_all add: demo_hub_def)

lemma demo_fields [simp]:
  "\<not> cl_held (demo_client p k t)" "cl_gen (demo_client p k t) = 1" "cl_token (demo_client p k t) = t"
  "cl_held demo_held" "cl_token demo_held = [9]" "cl_out demo_held = [[5], [6]]" "cl_gen demo_held = 2"
  "h_grace demo_hub = 30" "h_host demo_hub = 1" "length (peersExcept p demo_hub) \<le> 100"
  using length_filter_le [of "\<lambda>q. q \<noteq> p" "map fst (h_clients demo_hub)"]
  by (simp_all add: demo_client_def demo_held_def demo_hub_def newHub_def peersExcept_def)

lemma demo_room: "find_client demo_hub k = Some c \<Longrightarrow> length (cl_out c) \<le> 2"
  by (auto simp: demo_hub_simps split: if_splits)

theorem unexpected_drop_holds_witness:
  "\<exists>h' c'. hub_step demo_codecs (leaveCmd 2 1 True) demo_hub = (h', False) \<and>
     find_client h' 2 = Some c' \<and> cl_held c'"
  using unexpected_drop_holds [OF demo_hub_inv demo_find(2), of demo_codecs] by auto

theorem resume_takes_over_witness:
  "\<exists>jr h' c'. hub_step demo_codecs (resumeCmd 99 3 [9]) demo_hub = (h', False) \<and>
     find_client h' 3 = Some c' \<and> cl_out c' = [jr, [5], [6]] \<and> cl_kick c' = 99"
proof -
  obtain jr where "Encode (cJoinResult demo_codecs) MsgJoinResult
       \<lparr>jr_OK = True, jr_Err = '''', jr_ParticipantID = 3, jr_Peers = peersExcept 3 demo_hub,
        jr_HostID = h_host demo_hub, jr_ResumeToken = cl_token demo_held\<rparr> = Inr jr"
    using demo_encode_JoinResult [of "peersExcept 3 demo_hub" "[9]"] by fastforce
  from resume_takes_over [OF demo_hub_inv demo_find(3) this, of 99] show ?thesis by auto
qed

theorem resume_rejected_witness:
  "\<exists>h'. hub_step demo_codecs (resumeCmd 99 3 [8]) demo_hub = (h', False) \<and>
     h_clients h' = h_clients demo_hub"
proof -
  have "cl_token c \<noteq> [8]" if "find_client demo_hub 3 = Some c" for c using that by auto
  from resume_rejected [OF demo_hub_inv this, where k = 99 and cb = demo_codecs] show ?thesis by blast
qed

theorem drop_then_resume_delivers_witness:
  "\<exists>raws fs jr h' c'. length raws = 2 \<and>
     run demo_codecs demo_hub (leaveCmd 2 1 True # map (frameCmd 1 MsgBroadcast) raws @ [resumeCmd 99 2 [8]])
       = (h', []) \<and> find_client h' 2 = Some c' \<and> cl_out c' = jr # fs"
proof -
  let ?b = "\<lparr>b_From = 0, b_Payload = [42]\<rparr>"
  obtain f where f: "Encode (cBroadcast demo_codecs) MsgBroadcast (?b\<lparr>b_From := 1\<rparr>) = Inr f"
    using demo_encode_Broadcast [of "[42]" MsgBroadcast 1] by auto
  obtain raw where raw: "marshal (cBroadcast demo_codecs) ?b = Some raw"
    by (simp add: demo_codecs_def)
  have body: "Body (cBroadcast demo_codecs) raw = Inr ?b"
    using demo_codecs_ok raw by (intro Body_roundtrip) (simp_all add: codecs_ok_def)
  obtain jr where jr: "Encode (cJoinResult demo_codecs) MsgJoinResult
       \<lparr>jr_OK = True, jr_Err = '''', jr_ParticipantID = 2, jr_Peers = peersExcept 2 demo_hub,
        jr_HostID = h_host demo_hub, jr_ResumeToken = cl_token (demo_client 2 20 [8])\<rparr> = Inr jr"
    using demo_encode_JoinResult [of "peersExcept 2 demo_hub" "[8]"] by fastforce
  have "list_all2 (\<lambda>raw f. \<exists>b. Body (cBroadcast demo_codecs) raw = Inr b \<and>
      Encode (cBroadcast demo_codecs) MsgBroadcast (b\<lparr>b_From := 1\<rparr>) = Inr f) [raw, raw] [f, f]"
    using body f by auto
  note all = drop_then_resume_delivers [OF demo_hub_inv demo_find(2) _ _ _ this _ _ jr, of 99]
  have "\<exists>h' c'. run demo_codecs demo_hub (leaveCmd 2 1 True #
         map (frameCmd 1 MsgBroadcast) [raw, raw] @ [resumeCmd 99 2 [8]]) = (h', []) \<and>
       find_client h' 2 = Some c' \<and> cl_out c' = jr # [f, f] \<and> cl_kick c' = 99 \<and> \<not> cl_held c'"
    using all demo_room by fastforce
  then show ?thesis
    by (rule_tac x = "[raw, raw]" in exI, rule_tac x = "[f, f]" in exI, rule_tac x = jr in exI)
       (auto simp del: run.simps)
qed

theorem session_ends_iff_witness:
  "\<exists>h' stop. hub_step demo_codecs (leaveCmd 1 1 False) demo_hub = (h', stop) \<and>
     (stop \<longleftrightarrow> h_clients h' = [])"
proof -
  obtain h' stop where s: "hub_step demo_codecs (leaveCmd 1 1 False) demo_hub = (h', stop)"
    by (cases "hub_step demo_codecs (leaveCmd 1 1 False) demo_hub")
  have "h_clients demo_hub \<noteq> []" by (simp add: demo_hub_def)
  from session_ends_iff [OF demo_hub_inv this s] s show ?thesis by auto
qed

theorem ids_never_reused_witness:
  "\<exists>h'. run demo_codecs (newHub (replicate 16 0) 16 30 0 zero_Metrics)
          [joinCmd 10 True [7], leaveCmd 1 1 True, joinCmd 20 False [8]] = (h', []) \<and>
     distinct (join_ids h')"
proof -
  obtain f1 f2 f3 where
    "Encode (cSessionCreated demo_codecs) MsgSessionCreated \<lparr>sc_ParticipantID = 1, sc_ResumeToken = [7]\<rparr> = Inr f1"
    "Encode (cParticipantJoined demo_codecs) MsgParticipantJoined \<lparr>pj_ParticipantID = 2\<rparr> = Inr f2"
    "Encode (cJoinResult demo_codecs) MsgJoinResult \<lparr>jr_OK = True, jr_Err = '''', jr_ParticipantID = 2,
           jr_Peers = [1], jr_HostID = 1, jr_ResumeToken = [8]\<rparr> = Inr f3"
    using demo_encode_SessionCreated [of "[7]"] demo_encodes(2) demo_encode_JoinResult [of "[1]" "[8]"]
    by fastforce
  then have "\<exists>h'. run demo_codecs (newHub (replicate 16 0) 16 30 0 zero_Metrics)
          [joinCmd 10 True [7], leaveCmd 1 1 True, joinCmd 20 False [8]] = (h', [])"
    by (simp add: hub_step_def handle_cmd_def handleJoin_def newHub_def reply_def set_client_def
      handleLeave_def holdSlot_def
      broadcastFrame_def fan_out_def queue_def chan_send_def sendBuffer_def peersExcept_def Let_def
      split: sum.split)
  then obtain h' where h': "run demo_codecs (newHub (replicate 16 0) 16 30 0 zero_Metrics)
          [joinCmd 10 True [7], leaveCmd 1 1 True, joinCmd 20 False [8]] = (h', [])" by blast
  from ids_never_reused [OF h'] h' show ?thesis by simp
qed

theorem departed_host_still_named_witness:
  "\<exists>h'. hub_step demo_codecs (leaveCmd 1 1 False) demo_hub = (h', False) \<and>
     find_client h' 1 = None \<and> h_host h' = 1"
  using departed_host_still_named [of demo_hub "demo_client 1 10 [7]" 2 "demo_client 2 20 [8]" demo_codecs]
    demo_hub_inv demo_room by fastforce

theorem queued_join_unanswered_witness:
  "\<exists>h'. run demo_codecs (demo_hub\<lparr>h_clients := [(1, demo_client 1 10 [7])]\<rparr>)
          [leaveCmd 1 1 False, joinCmd 55 False [3]] = (h', [joinCmd 55 False [3]]) \<and>
     h_replies h' = []"
  using queued_join_unanswered [of "demo_hub\<lparr>h_clients := [(1, demo_client 1 10 [7])]\<rparr>" 1
      "demo_client 1 10 [7]" demo_codecs "[joinCmd 55 False [3]]"]
  by (auto simp: demo_hub_def newHub_def)

theorem creator_can_lose_race_witness:
  "\<exists>h'. run demo_codecs (newHub (replicate 16 0) 16 30 0 zero_Metrics)
          [joinCmd 10 False [7], joinCmd 20 True [8]] = (h', []) \<and> h_host h' = 1"
proof -
  obtain f1 f2 where
    f: "Encode (cJoinResult demo_codecs) MsgJoinResult \<lparr>jr_OK = True, jr_Err = '''', jr_ParticipantID = 1,
           jr_Peers = [], jr_HostID = 1, jr_ResumeToken = [7]\<rparr> = Inr f1"
    "Encode (cSessionCreated demo_codecs) MsgSessionCreated \<lparr>sc_ParticipantID = 2, sc_ResumeToken = [8]\<rparr> = Inr f2"
    using demo_encode_SessionCreated [of "[8]"] demo_encode_JoinResult [of "[]" "[7]"] by fastforce
  from creator_can_lose_race [OF _ f, of 16] show ?thesis by force
qed

theorem join_admits_witness:
  "\<exists>f h'. hub_step demo_codecs (joinCmd 40 False [4]) demo_hub = (h', False) \<and>
     map_option cl_out (find_client h' 4) = Some [f]"
proof -
  obtain f g where
    f: "Encode (cJoinResult demo_codecs) MsgJoinResult \<lparr>jr_OK = True, jr_Err = '''',
           jr_ParticipantID = h_nextID demo_hub, jr_Peers = map fst (h_clients demo_hub),
           jr_HostID = h_host demo_hub, jr_ResumeToken = [4]\<rparr> = Inr f"
    and g: "Encode (cParticipantJoined demo_codecs) MsgParticipantJoined
             \<lparr>pj_ParticipantID = h_nextID demo_hub\<rparr> = Inr g"
    using demo_encodes(2) demo_encode_JoinResult [of "map fst (h_clients demo_hub)" "[4]"]
    by (fastforce simp: demo_hub_def)
  have "h_nextID demo_hub = 4" "find_client demo_hub 4 = None" "int (length (h_clients demo_hub)) < h_max demo_hub"
    by (simp_all add: demo_hub_def newHub_def)
  with join_admits [OF demo_hub_inv _ _ f g, of 40] demo_room show ?thesis by fastforce
qed

end
