(* ===== verification/Registry.thy ===== *)
theory Registry
  imports HubProps
begin

text \<open>
  The session registry of the relay (src/relay/registry.go) together with the hubs it points
  to. A hub is a cell of a store, addressed by its position: its state, its inbox (a channel of
  capacity 16) and whether its \<open>onEmpty\<close> callback has run. The counters shared by all hubs
  are a field of the store: a hub loads them before it handles a command and stores them back.
\<close>

section \<open>State\<close>

type_synonym haddr = nat

record hub_cell =
  hc_hub :: hub
  hc_inbox :: "cmd list"
  hc_gone :: bool

record registry =
  rg_sessions :: "(SessionID \<times> haddr) list"
  rg_maxCount :: int
  rg_maxAge :: int
  rg_grace :: int

record relay =
  rl_reg :: registry
  rl_heap :: "hub_cell list"
  rl_metrics :: Metrics

definition inboxCap :: nat where "inboxCap = 16"

definition newRegistry :: "int \<Rightarrow> int \<Rightarrow> int \<Rightarrow> registry" where
  "newRegistry maxSessions maxAge grace =
     \<lparr>rg_sessions = [], rg_maxCount = maxSessions, rg_maxAge = maxAge, rg_grace = grace\<rparr>"

section \<open>Operations\<close>

definition registry_create :: "SessionID \<Rightarrow> int \<Rightarrow> int \<Rightarrow> relay \<Rightarrow> (uint16 \<times> string + haddr) \<times> relay" where
  "registry_create sid maxParticipants now R =
     (let r = rl_reg R
      in if map_of (rg_sessions r) sid \<noteq> None
         then (Inl (ErrCodeSessionExists, ''session already exists''), R)
         else if int (length (rg_sessions r)) \<ge> rg_maxCount r
         then (Inl (ErrCodeRateLimited, ''relay at session capacity''), R)
         else
           (let a = length (rl_heap R);
                m = (rl_metrics R)\<lparr>SessionsCreated := SessionsCreated (rl_metrics R) + 1\<rparr>;
                h = newHub sid maxParticipants (rg_grace r) now (rl_metrics R)
            in (Inr a,
                R\<lparr>rl_heap := rl_heap R @ [\<lparr>hc_hub = h, hc_inbox = [], hc_gone = False\<rparr>],
                  rl_reg := r\<lparr>rg_sessions := AList.update sid a (rg_sessions r)\<rparr>,
                  rl_metrics := m\<rparr>)))"

definition registry_get :: "SessionID \<Rightarrow> relay \<Rightarrow> haddr option" where
  "registry_get sid R = map_of (rg_sessions (rl_reg R)) sid"

definition registry_hubs :: "relay \<Rightarrow> haddr list" where
  "registry_hubs R = map snd (rg_sessions (rl_reg R))"

definition registry_remove :: "SessionID \<Rightarrow> relay \<Rightarrow> relay" where
  "registry_remove sid R =
     R\<lparr>rl_reg := (rl_reg R)\<lparr>rg_sessions := AList.delete sid (rg_sessions (rl_reg R))\<rparr>\<rparr>"

text \<open>
  Sending to a hub waits until the inbox has room or the hub is done; if both hold, either can
  be chosen (\<open>pick_done\<close>). \<open>None\<close> means that the sender still waits.
\<close>

definition hub_send :: "bool \<Rightarrow> cmd \<Rightarrow> hub_cell \<Rightarrow> (bool \<times> hub_cell) option" where
  "hub_send pick_done c cell =
     (if h_done (hc_hub cell) \<and> (pick_done \<or> inboxCap \<le> length (hc_inbox cell)) then Some (False, cell)
      else map_option (\<lambda>q. (True, cell\<lparr>hc_inbox := q\<rparr>)) (chan_send inboxCap (hc_inbox cell) c))"

definition send_to :: "bool \<Rightarrow> cmd \<Rightarrow> haddr \<Rightarrow> relay \<Rightarrow> (bool \<times> relay) option" where
  "send_to pick_done c a R =
     map_option (\<lambda>(ok, cell). (ok, R\<lparr>rl_heap := (rl_heap R)[a := cell]\<rparr>))
       (hub_send pick_done c (rl_heap R ! a))"

definition expired :: "int \<Rightarrow> relay \<Rightarrow> haddr list" where
  "expired now R =
     filter (\<lambda>a. now - h_created (hc_hub (rl_heap R ! a)) > rg_maxAge (rl_reg R)) (registry_hubs R)"

fun close_all :: "bool list \<Rightarrow> haddr list \<Rightarrow> relay \<Rightarrow> relay option" where
  "close_all picks [] R = Some R"
| "close_all picks (a # as) R =
     (case send_to (hd (picks @ [False])) (closeCmd ''session expired'') a R of
        None \<Rightarrow> None
      | Some (_, R') \<Rightarrow> close_all (tl picks) as R')"

definition sweep :: "bool list \<Rightarrow> int \<Rightarrow> relay \<Rightarrow> relay option" where
  "sweep picks now R = close_all picks (expired now R) R"

section \<open>Steps of the hubs in the store\<close>

definition put_hub :: "haddr \<Rightarrow> hub_cell \<Rightarrow> relay \<Rightarrow> relay" where
  "put_hub a cell R = R\<lparr>rl_heap := (rl_heap R)[a := cell], rl_metrics := h_metrics (hc_hub cell)\<rparr>"

datatype relay_event =
    Create SessionID int int
  | Send bool cmd haddr
  | Sweep "bool list" int
  | Hub haddr hub_event
  | OnEmpty haddr

inductive relay_trans :: "codecs \<Rightarrow> relay \<Rightarrow> relay_event \<Rightarrow> relay \<Rightarrow> bool" for cb where
  create: "registry_create sid maxP now R = (r, R') \<Longrightarrow> relay_trans cb R (Create sid maxP now) R'"
| send: "a < length (rl_heap R) \<Longrightarrow> send_to pick c a R = Some (ok, R') \<Longrightarrow>
     relay_trans cb R (Send pick c a) R'"
| sweep: "sweep picks now R = Some R' \<Longrightarrow> relay_trans cb R (Sweep picks now) R'"
| handle: "a < length (rl_heap R) \<Longrightarrow> rl_heap R ! a = cell \<Longrightarrow> hc_inbox cell = c # rest \<Longrightarrow>
     hub_trans cb ((hc_hub cell)\<lparr>h_metrics := rl_metrics R\<rparr>) (Handle c) h' \<Longrightarrow>
     relay_trans cb R (Hub a (Handle c)) (put_hub a (cell\<lparr>hc_hub := h', hc_inbox := rest\<rparr>) R)"
| other: "a < length (rl_heap R) \<Longrightarrow> rl_heap R ! a = cell \<Longrightarrow> (\<And>c. e \<noteq> Handle c) \<Longrightarrow>
     hub_trans cb ((hc_hub cell)\<lparr>h_metrics := rl_metrics R\<rparr>) e h' \<Longrightarrow>
     relay_trans cb R (Hub a e) (put_hub a (cell\<lparr>hc_hub := h'\<rparr>) R)"
| on_empty: "a < length (rl_heap R) \<Longrightarrow> rl_heap R ! a = cell \<Longrightarrow> h_done (hc_hub cell) \<Longrightarrow>
     \<not> hc_gone cell \<Longrightarrow>
     relay_trans cb R (OnEmpty a)
       (registry_remove (h_id (hc_hub cell)) (R\<lparr>rl_heap := (rl_heap R)[a := cell\<lparr>hc_gone := True\<rparr>]\<rparr>))"

definition relay_initial :: "relay \<Rightarrow> bool" where
  "relay_initial R \<longleftrightarrow> (\<exists>maxS maxAge grace. R = \<lparr>rl_reg = newRegistry maxS maxAge grace,
      rl_heap = [], rl_metrics = zero_Metrics\<rparr>)"

section \<open>A hub keeps its identity\<close>

abbreviation static :: "hub \<Rightarrow> SessionID \<times> int \<times> int \<times> int" where
  "static h \<equiv> (h_id h, h_max h, h_grace h, h_created h)"

lemma set_client_frame [simp]:
  "h_id (set_client p c h) = h_id h" "h_max (set_client p c h) = h_max h"
  "h_grace (set_client p c h) = h_grace h" "h_created (set_client p c h) = h_created h"
  by (simp_all add: set_client_def)

lemma reply_frame [simp]:
  "h_id (reply k r h) = h_id h" "h_max (reply k r h) = h_max h"
  "h_grace (reply k r h) = h_grace h" "h_created (reply k r h) = h_created h"
  "h_id (count_error h) = h_id h" "h_max (count_error h) = h_max h"
  "h_grace (count_error h) = h_grace h" "h_created (count_error h) = h_created h"
  by (simp_all add: reply_def count_error_def)

lemma static_removeParticipant: "removeParticipant cb p h = (h', s) \<Longrightarrow> static h' = static h"
  by (auto simp: removeParticipant_def Let_def split: option.splits if_splits)

lemma static_drainEvictions: "drainEvictions cb h = (h', s) \<Longrightarrow> static h' = static h"
proof (induction rule: drainEvictions_cases)
  case (Emptied h p rest h1)
  from static_removeParticipant [OF Emptied(2)] show ?case by simp
next
  case (Step h p rest h1 h' s)
  from static_removeParticipant [OF Step(2)] Step(3) show ?case by simp
qed simp

lemma static_handle_cmd: "handle_cmd cb c h = (h', s) \<Longrightarrow> static h' = static h"
proof (cases c)
  case (joinCmd k isC tok)
  then show "handle_cmd cb c h = (h', s) \<Longrightarrow> static h' = static h"
    by (auto simp: handle_cmd_def handleJoin_def Let_def split: sum.splits if_splits)
next
  case (leaveCmd p g u)
  then show "handle_cmd cb c h = (h', s) \<Longrightarrow> static h' = static h"
    by (auto simp: handle_cmd_def handleLeave_def holdSlot_def dest: static_removeParticipant
        split: option.splits if_splits)
next
  case (resumeCmd k p tok)
  then show "handle_cmd cb c h = (h', s) \<Longrightarrow> static h' = static h"
    by (auto simp: handle_cmd_def handleResume_def Let_def split: option.splits sum.splits if_splits)
next
  case (graceExpiredCmd p g)
  then show "handle_cmd cb c h = (h', s) \<Longrightarrow> static h' = static h"
    by (auto simp: handle_cmd_def handleGraceExpired_def dest: static_removeParticipant
        split: option.splits if_splits)
next
  case (frameCmd p ty raw)
  then show "handle_cmd cb c h = (h', s) \<Longrightarrow> static h' = static h"
    by (auto simp: handle_cmd_def route_def Let_def split: option.splits sum.splits if_splits)
qed (auto simp: handle_cmd_def handleClose_def handleClaimHost_def handleStats_def split: option.splits)

lemma static_hub_step: "hub_step cb c h = (h', s) \<Longrightarrow> static h' = static h"
  by (auto simp: hub_step_def split: prod.splits if_splits
      dest!: static_handle_cmd static_drainEvictions)

lemma static_hub_trans: "hub_trans cb h e h' \<Longrightarrow> static h' = static h"
  by (induction rule: hub_trans.induct) (auto simp: shutdown_def dest: static_hub_step)

lemma hub_trans_not_done: "hub_trans cb h e h' \<Longrightarrow> \<not> h_done h"
  by (induction rule: hub_trans.induct) auto

section \<open>The invariant\<close>

text \<open>
  Every registered id leads to a hub with that id that has not been torn down, every hub not
  torn down is registered under its id, and every hub satisfies the hub invariant.
\<close>

definition relay_inv :: "relay \<Rightarrow> bool" where
  "relay_inv R \<longleftrightarrow>
     wf_map (rg_sessions (rl_reg R)) \<and>
     int (length (rg_sessions (rl_reg R))) \<le> max 0 (rg_maxCount (rl_reg R)) \<and>
     (\<forall>sid a. registry_get sid R = Some a \<longrightarrow> a < length (rl_heap R) \<and>
        h_id (hc_hub (rl_heap R ! a)) = sid \<and> \<not> hc_gone (rl_heap R ! a)) \<and>
     (\<forall>a < length (rl_heap R).
        hub_live_inv (hc_hub (rl_heap R ! a)) \<and>
        (hc_gone (rl_heap R ! a) \<longrightarrow> h_done (hc_hub (rl_heap R ! a))) \<and>
        (\<not> hc_gone (rl_heap R ! a) \<longrightarrow> registry_get (h_id (hc_hub (rl_heap R ! a))) R = Some a))"

lemma hub_live_inv_metrics [simp]: "hub_live_inv (h\<lparr>h_metrics := m\<rparr>) \<longleftrightarrow> hub_live_inv h"
  by (simp add: hub_live_inv_def hub_inv_def hub_wf_but_def evicting_ids_def)

lemma relay_invI:
  assumes "wf_map (rg_sessions (rl_reg R))"
    and "int (length (rg_sessions (rl_reg R))) \<le> max 0 (rg_maxCount (rl_reg R))"
    and "\<And>s b. registry_get s R = Some b \<Longrightarrow> b < length (rl_heap R) \<and>
           h_id (hc_hub (rl_heap R ! b)) = s \<and> \<not> hc_gone (rl_heap R ! b)"
    and "\<And>b. b < length (rl_heap R) \<Longrightarrow> hub_live_inv (hc_hub (rl_heap R ! b)) \<and>
           (hc_gone (rl_heap R ! b) \<longrightarrow> h_done (hc_hub (rl_heap R ! b))) \<and>
           (\<not> hc_gone (rl_heap R ! b) \<longrightarrow> registry_get (h_id (hc_hub (rl_heap R ! b))) R = Some b)"
  shows "relay_inv R"
  unfolding relay_inv_def using assms by blast

lemma relay_inv_registered:
  "relay_inv R \<Longrightarrow> registry_get s R = Some b \<Longrightarrow> b < length (rl_heap R) \<and>
     h_id (hc_hub (rl_heap R ! b)) = s \<and> \<not> hc_gone (rl_heap R ! b)"
  by (simp add: relay_inv_def)

lemma relay_inv_cell:
  "relay_inv R \<Longrightarrow> b < length (rl_heap R) \<Longrightarrow> hub_live_inv (hc_hub (rl_heap R ! b)) \<and>
     (hc_gone (rl_heap R ! b) \<longrightarrow> h_done (hc_hub (rl_heap R ! b))) \<and>
     (\<not> hc_gone (rl_heap R ! b) \<longrightarrow> registry_get (h_id (hc_hub (rl_heap R ! b))) R = Some b)"
  by (simp add: relay_inv_def)

lemma relay_inv_set_cell:
  assumes "relay_inv R" and "a < length (rl_heap R)"
    and "hub_live_inv (hc_hub cell)" and "h_id (hc_hub cell) = h_id (hc_hub (rl_heap R ! a))"
    and "hc_gone cell = hc_gone (rl_heap R ! a)" and "hc_gone cell \<longrightarrow> h_done (hc_hub cell)"
  shows "relay_inv (R\<lparr>rl_heap := (rl_heap R)[a := cell], rl_metrics := m\<rparr>)"
proof (rule relay_invI)
  let ?R = "R\<lparr>rl_heap := (rl_heap R)[a := cell], rl_metrics := m\<rparr>"
  have get: "registry_get s ?R = registry_get s R" for s by (simp add: registry_get_def)
  show "b < length (rl_heap ?R) \<and> h_id (hc_hub (rl_heap ?R ! b)) = s \<and> \<not> hc_gone (rl_heap ?R ! b)"
    if "registry_get s ?R = Some b" for s b
    using that relay_inv_registered [OF assms(1), of s b] assms(2,4,5) by (cases "b = a") (simp_all add: get)
  show "hub_live_inv (hc_hub (rl_heap ?R ! b)) \<and>
           (hc_gone (rl_heap ?R ! b) \<longrightarrow> h_done (hc_hub (rl_heap ?R ! b))) \<and>
           (\<not> hc_gone (rl_heap ?R ! b) \<longrightarrow> registry_get (h_id (hc_hub (rl_heap ?R ! b))) ?R = Some b)"
    if "b < length (rl_heap ?R)" for b
    using that relay_inv_cell [OF assms(1), of b] assms(2-) by (cases "b = a") (simp_all add: get)
qed (use assms(1) in \<open>simp_all add: relay_inv_def\<close>)

lemma hub_send_inbox: "hub_send pick c cell = Some (ok, cell') \<Longrightarrow> \<exists>q. cell' = cell\<lparr>hc_inbox := q\<rparr>"
  by (auto simp: hub_send_def split: if_splits intro: exI [of _ "hc_inbox cell"])

lemma relay_inv_send:
  assumes "relay_inv R" and "a < length (rl_heap R)" and "send_to pick c a R = Some (ok, R')"
  shows "relay_inv R' \<and> length (rl_heap R') = length (rl_heap R)"
proof -
  from assms(3) obtain q where R': "R' = R\<lparr>rl_heap := (rl_heap R)[a := (rl_heap R ! a)\<lparr>hc_inbox := q\<rparr>]\<rparr>"
    by (auto simp: send_to_def dest!: hub_send_inbox)
  have "relay_inv (R\<lparr>rl_heap := (rl_heap R)[a := (rl_heap R ! a)\<lparr>hc_inbox := q\<rparr>], rl_metrics := rl_metrics R\<rparr>)"
    using assms(1,2) by (intro relay_inv_set_cell) (simp_all add: relay_inv_def)
  then show ?thesis by (simp add: R')
qed

lemma relay_inv_close_all:
  "relay_inv R \<Longrightarrow> \<forall>a \<in> set as. a < length (rl_heap R) \<Longrightarrow> close_all picks as R = Some R' \<Longrightarrow> relay_inv R'"
proof (induction picks as R arbitrary: R' rule: close_all.induct)
  case (2 picks a as R)
  then show ?case by (auto dest: relay_inv_send split: option.splits)
qed simp

lemma expired_in_heap: "relay_inv R \<Longrightarrow> a \<in> set (expired now R) \<Longrightarrow> a < length (rl_heap R)"
  by (auto simp: expired_def registry_hubs_def relay_inv_def registry_get_def wf_map_def)

lemma relay_inv_create:
  assumes "relay_inv R" and "registry_create sid maxP now R = (r, R')"
  shows "relay_inv R'"
proof (cases r)
  case (Inl e)
  with assms show ?thesis by (auto simp: registry_create_def Let_def split: if_splits)
next
  case (Inr a)
  let ?cell = "\<lparr>hc_hub = newHub sid maxP (rg_grace (rl_reg R)) now (rl_metrics R), hc_inbox = [], hc_gone = False\<rparr>"
  from assms(2) Inr have new: "map_of (rg_sessions (rl_reg R)) sid = None"
    "int (length (rg_sessions (rl_reg R))) < rg_maxCount (rl_reg R)" "a = length (rl_heap R)"
    "rl_heap R' = rl_heap R @ [?cell]"
    "rl_reg R' = (rl_reg R)\<lparr>rg_sessions := AList.update sid a (rg_sessions (rl_reg R))\<rparr>"
    by (auto simp: registry_create_def Let_def split: if_splits)
  have h: "h_id (hc_hub ?cell) = sid" "hub_live_inv (hc_hub ?cell)" "\<not> h_done (hc_hub ?cell)"
    using hub_inv_newHub by (auto simp: newHub_def hub_live_inv_def intro: hub_inv_wf)
  have get: "registry_get s R' = (if s = sid then Some a else registry_get s R)" for s
    by (simp add: registry_get_def new(5))
  have fresh: "h_id (hc_hub (rl_heap R ! b)) = sid \<longrightarrow> hc_gone (rl_heap R ! b)" if "b < length (rl_heap R)" for b
    using relay_inv_cell [OF assms(1) that] new(1) by (auto simp: registry_get_def)
  show ?thesis
  proof (rule relay_invI)
    show "b < length (rl_heap R') \<and> h_id (hc_hub (rl_heap R' ! b)) = s \<and> \<not> hc_gone (rl_heap R' ! b)"
      if "registry_get s R' = Some b" for s b
      using that relay_inv_registered [OF assms(1), of s b] h(1)
      by (cases "s = sid") (simp_all add: get new(3,4) nth_append)
    show "hub_live_inv (hc_hub (rl_heap R' ! b)) \<and>
           (hc_gone (rl_heap R' ! b) \<longrightarrow> h_done (hc_hub (rl_heap R' ! b))) \<and>
           (\<not> hc_gone (rl_heap R' ! b) \<longrightarrow> registry_get (h_id (hc_hub (rl_heap R' ! b))) R' = Some b)"
      if "b < length (rl_heap R')" for b
      using that relay_inv_cell [OF assms(1), of b] fresh [of b] h
      by (cases "b = a") (auto simp: get new(3,4) nth_append)
  qed (use assms(1) new(1,2) in \<open>simp_all add: relay_inv_def new(5) length_update_absent\<close>)
qed

lemma relay_inv_on_empty:
  assumes "relay_inv R" and "a < length (rl_heap R)" and "h_done (hc_hub (rl_heap R ! a))"
    and "\<not> hc_gone (rl_heap R ! a)" and "h_id (hc_hub (rl_heap R ! a)) = sid"
  shows "relay_inv (registry_remove sid (R\<lparr>rl_heap := (rl_heap R)[a := (rl_heap R ! a)\<lparr>hc_gone := True\<rparr>]\<rparr>))"
    (is "relay_inv ?R")
proof (rule relay_invI)
  have here: "registry_get sid R = Some a" using relay_inv_cell [OF assms(1,2)] assms(4,5) by simp
  have get: "registry_get s ?R = (if s = sid then None else registry_get s R)" for s
    by (simp add: registry_get_def registry_remove_def)
  have heap: "rl_heap ?R = (rl_heap R)[a := (rl_heap R ! a)\<lparr>hc_gone := True\<rparr>]"
    by (simp add: registry_remove_def)
  show "b < length (rl_heap ?R) \<and> h_id (hc_hub (rl_heap ?R ! b)) = s \<and> \<not> hc_gone (rl_heap ?R ! b)"
    if "registry_get s ?R = Some b" for s b
    using that relay_inv_registered [OF assms(1), of s b] assms(5)
    by (cases "b = a") (simp_all add: get heap split: if_splits)
  show "hub_live_inv (hc_hub (rl_heap ?R ! b)) \<and>
           (hc_gone (rl_heap ?R ! b) \<longrightarrow> h_done (hc_hub (rl_heap ?R ! b))) \<and>
           (\<not> hc_gone (rl_heap ?R ! b) \<longrightarrow> registry_get (h_id (hc_hub (rl_heap ?R ! b))) ?R = Some b)"
    if "b < length (rl_heap ?R)" for b
    using that relay_inv_cell [OF assms(1), of b] assms(2,3) here
    by (cases "b = a") (auto simp: get heap)
  show "wf_map (rg_sessions (rl_reg ?R))" using assms(1) by (simp add: relay_inv_def registry_remove_def)
  have "length (rg_sessions (rl_reg ?R)) \<le> length (rg_sessions (rl_reg R))"
    by (simp add: registry_remove_def length_delete_le)
  with assms(1) show "int (length (rg_sessions (rl_reg ?R))) \<le> max 0 (rg_maxCount (rl_reg ?R))"
    by (simp add: relay_inv_def registry_remove_def)
qed

lemma relay_trans_inv: "relay_trans cb R e R' \<Longrightarrow> relay_inv R \<Longrightarrow> relay_inv R'"
proof (induction rule: relay_trans.induct)
  case (create sid maxP now R r R')
  then show ?case by (blast intro: relay_inv_create)
next
  case (send a R pick c ok R')
  then show ?case by (blast dest: relay_inv_send)
next
  case (sweep picks now R R')
  then show ?case
    using relay_inv_close_all [of R "expired now R" picks R'] by (auto simp: sweep_def dest: expired_in_heap)
next
  case (handle a R cell c rest h')
  then have "\<not> hc_gone cell" "hub_live_inv h'"
    using hub_trans_not_done [OF handle(4)] hub_trans_inv [OF handle(4)] by (auto simp: relay_inv_def)
  with handle show ?case
    unfolding put_hub_def using static_hub_trans [OF handle(4)] by (intro relay_inv_set_cell) auto
next
  case (other a R cell e h')
  then have "\<not> hc_gone cell" "hub_live_inv h'"
    using hub_trans_not_done [OF other(4)] hub_trans_inv [OF other(4)] by (auto simp: relay_inv_def)
  with other show ?case
    unfolding put_hub_def using static_hub_trans [OF other(4)] by (intro relay_inv_set_cell) auto
next
  case (on_empty a R cell)
  then show ?case using relay_inv_on_empty [of R a] by simp
qed

interpretation relay: transition_system relay_initial "relay_trans cb" relay_inv for cb
proof unfold_locales
  show "relay_inv R" if "relay_initial R" for R
    using that by (auto simp: relay_initial_def relay_inv_def newRegistry_def registry_get_def)
  show "relay_inv R'" if "relay_trans cb R e R'" and "relay_inv R" for R e R'
    using that by (rule relay_trans_inv)
qed

text \<open>
  C21. In every reachable state of the relay, whatever the interleaving of creates, commands,
  hub steps, sweeps and teardowns: the number of registered sessions is within the cap; a
  looked-up hub has the id it was looked up by, and if it has ended its removal is still to come,
  is possible at once and frees the id; every hub that still runs can be looked up; and no two
  running hubs serve the same session id.
\<close>

theorem one_live_hub_per_session:
  assumes "reachable_from relay_initial (relay_trans cb) R"
  shows "int (length (rg_sessions (rl_reg R))) \<le> max 0 (rg_maxCount (rl_reg R)) \<and>
     (\<forall>sid a. registry_get sid R = Some a \<longrightarrow> a < length (rl_heap R) \<and> h_id (hc_hub (rl_heap R ! a)) = sid \<and>
        (h_done (hc_hub (rl_heap R ! a)) \<longrightarrow> (\<exists>R'. relay_trans cb R (OnEmpty a) R' \<and> registry_get sid R' = None))) \<and>
     (\<forall>a < length (rl_heap R). \<not> h_done (hc_hub (rl_heap R ! a)) \<longrightarrow>
        registry_get (h_id (hc_hub (rl_heap R ! a))) R = Some a) \<and>
     (\<forall>a < length (rl_heap R). \<forall>b < length (rl_heap R).
        \<not> h_done (hc_hub (rl_heap R ! a)) \<longrightarrow> \<not> h_done (hc_hub (rl_heap R ! b)) \<longrightarrow>
        h_id (hc_hub (rl_heap R ! a)) = h_id (hc_hub (rl_heap R ! b)) \<longrightarrow> a = b)"
proof -
  have inv: "relay_inv R" using assms by (rule relay.reachable_invariant)
  have live: "registry_get (h_id (hc_hub (rl_heap R ! a))) R = Some a"
    if "a < length (rl_heap R)" "\<not> h_done (hc_hub (rl_heap R ! a))" for a
    using relay_inv_cell [OF inv that(1)] that(2) by blast
  have inj: "a = b" if "a < length (rl_heap R)" "b < length (rl_heap R)"
      "\<not> h_done (hc_hub (rl_heap R ! a))" "\<not> h_done (hc_hub (rl_heap R ! b))"
      "h_id (hc_hub (rl_heap R ! a)) = h_id (hc_hub (rl_heap R ! b))" for a b
    using live [OF that(1,3), unfolded that(5)] live [OF that(2,4)] by simp
  have removal: "\<exists>R'. relay_trans cb R (OnEmpty a) R' \<and> registry_get sid R' = None"
    if "registry_get sid R = Some a" "h_done (hc_hub (rl_heap R ! a))" for sid a
    using relay_trans.on_empty [of a R "rl_heap R ! a" cb] relay_inv_registered [OF inv that(1)] that(2)
    by (fastforce simp: registry_get_def registry_remove_def)
  have "int (length (rg_sessions (rl_reg R))) \<le> max 0 (rg_maxCount (rl_reg R))"
    using inv by (simp add: relay_inv_def)
  moreover have "\<forall>sid a. registry_get sid R = Some a \<longrightarrow> a < length (rl_heap R) \<and> h_id (hc_hub (rl_heap R ! a)) = sid \<and>
      (h_done (hc_hub (rl_heap R ! a)) \<longrightarrow> (\<exists>R'. relay_trans cb R (OnEmpty a) R' \<and> registry_get sid R' = None))"
    using relay_inv_registered [OF inv] removal by blast
  moreover have "\<forall>a < length (rl_heap R). \<not> h_done (hc_hub (rl_heap R ! a)) \<longrightarrow>
      registry_get (h_id (hc_hub (rl_heap R ! a))) R = Some a"
    using live by simp
  moreover have "\<forall>a < length (rl_heap R). \<forall>b < length (rl_heap R).
      \<not> h_done (hc_hub (rl_heap R ! a)) \<longrightarrow> \<not> h_done (hc_hub (rl_heap R ! b)) \<longrightarrow>
      h_id (hc_hub (rl_heap R ! a)) = h_id (hc_hub (rl_heap R ! b)) \<longrightarrow> a = b"
    by (intro allI impI) (rule inj)
  ultimately show ?thesis by (intro conjI)
qed

section \<open>The sweeper\<close>

lemma distinct_registry_hubs:
  assumes "relay_inv R"
  shows "distinct (registry_hubs R)"
proof -
  have wf: "wf_map (rg_sessions (rl_reg R))" using assms by (simp add: relay_inv_def)
  have "s = t" if "(s, a) \<in> set (rg_sessions (rl_reg R))" "(t, a) \<in> set (rg_sessions (rl_reg R))" for s t a
  proof -
    have "registry_get s R = Some a" "registry_get t R = Some a"
      using that wf by (simp_all add: registry_get_def wf_map_def)
    with relay_inv_registered [OF assms] show ?thesis by blast
  qed
  then have "inj_on snd (set (rg_sessions (rl_reg R)))" by (auto simp: inj_on_def)
  moreover have "distinct (rg_sessions (rl_reg R))" using wf by (auto simp: wf_map_def distinct_map)
  ultimately show ?thesis by (simp add: registry_hubs_def distinct_map)
qed

lemma expired_running:
  assumes "relay_inv R" and "a < length (rl_heap R)" and "\<not> h_done (hc_hub (rl_heap R ! a))"
  shows "a \<in> set (expired now R) \<longleftrightarrow> now - h_created (hc_hub (rl_heap R ! a)) > rg_maxAge (rl_reg R)"
proof -
  have "registry_get (h_id (hc_hub (rl_heap R ! a))) R = Some a"
    using relay_inv_cell [OF assms(1,2)] assms(3) by blast
  then have "a \<in> set (registry_hubs R)"
    by (force simp: registry_hubs_def registry_get_def dest: map_of_SomeD)
  then show ?thesis by (simp add: expired_def)
qed

lemma close_all_sends:
  assumes "distinct as" and "\<forall>a \<in> set as. a < length (rl_heap R) \<and> length (hc_inbox (rl_heap R ! a)) < inboxCap"
  shows "\<exists>R'. close_all picks as R = Some R' \<and> rl_reg R' = rl_reg R \<and> length (rl_heap R') = length (rl_heap R) \<and>
     (\<forall>b. hc_hub (rl_heap R' ! b) = hc_hub (rl_heap R ! b) \<and>
        (\<not> h_done (hc_hub (rl_heap R ! b)) \<longrightarrow> hc_inbox (rl_heap R' ! b) =
          hc_inbox (rl_heap R ! b) @ (if b \<in> set as then [closeCmd ''session expired''] else [])))"
  using assms
proof (induction picks as R rule: close_all.induct)
  case (2 picks a as R)
  let ?c = "rl_heap R ! a" and ?pick = "hd (picks @ [False])"
  let ?cell = "if h_done (hc_hub ?c) \<and> ?pick then ?c else ?c\<lparr>hc_inbox := hc_inbox ?c @ [closeCmd ''session expired'']\<rparr>"
  let ?R = "R\<lparr>rl_heap := (rl_heap R)[a := ?cell]\<rparr>"
  have a: "a < length (rl_heap R)" "length (hc_inbox ?c) < inboxCap" using "2.prems"(2) by auto
  then have s: "send_to ?pick (closeCmd ''session expired'') a R = Some (\<not> (h_done (hc_hub ?c) \<and> ?pick), ?R)"
    by (simp add: send_to_def hub_send_def chan_send_def)
  have other: "rl_heap ?R ! b = rl_heap R ! b" if "b \<noteq> a" for b using that by simp
  have "\<exists>R'. close_all (tl picks) as ?R = Some R' \<and> rl_reg R' = rl_reg ?R \<and> length (rl_heap R') = length (rl_heap ?R) \<and>
     (\<forall>b. hc_hub (rl_heap R' ! b) = hc_hub (rl_heap ?R ! b) \<and>
        (\<not> h_done (hc_hub (rl_heap ?R ! b)) \<longrightarrow> hc_inbox (rl_heap R' ! b) =
          hc_inbox (rl_heap ?R ! b) @ (if b \<in> set as then [closeCmd ''session expired''] else [])))"
    using "2.prems" by (intro "2.IH" [OF s refl]) (auto simp: nth_list_update)
  then obtain R' where R': "close_all (tl picks) as ?R = Some R'" "rl_reg R' = rl_reg R"
    "length (rl_heap R') = length (rl_heap R)"
    "\<And>b. hc_hub (rl_heap R' ! b) = hc_hub (rl_heap ?R ! b)"
    "\<And>b. \<not> h_done (hc_hub (rl_heap ?R ! b)) \<Longrightarrow> hc_inbox (rl_heap R' ! b) =
       hc_inbox (rl_heap ?R ! b) @ (if b \<in> set as then [closeCmd ''session expired''] else [])"
    by auto
  have "hc_hub (rl_heap R' ! b) = hc_hub (rl_heap R ! b) \<and>
      (\<not> h_done (hc_hub (rl_heap R ! b)) \<longrightarrow> hc_inbox (rl_heap R' ! b) =
        hc_inbox (rl_heap R ! b) @ (if b \<in> set (a # as) then [closeCmd ''session expired''] else []))" for b
    using R'(4,5) [of b] a "2.prems"(1) by (cases "b = a") auto
  with s R'(1-3) show ?case by simp
qed simp

text \<open>
  The sweeper ends exactly the expired sessions: while the inboxes of the expired hubs have
  room, a sweep completes, leaves the registry and all hub states as they are, and appends one
  close command to the inbox of every running hub that is registered and older than the age
  limit, and to no other running hub's.
\<close>

theorem sweep_closes_expired:
  assumes "reachable_from relay_initial (relay_trans cb) R"
    and "\<forall>a \<in> set (expired now R). length (hc_inbox (rl_heap R ! a)) < 16"
  shows "\<exists>R'. sweep picks now R = Some R' \<and> rl_reg R' = rl_reg R \<and>
     (\<forall>a < length (rl_heap R). hc_hub (rl_heap R' ! a) = hc_hub (rl_heap R ! a) \<and>
        (\<not> h_done (hc_hub (rl_heap R ! a)) \<longrightarrow>
           hc_inbox (rl_heap R' ! a) = hc_inbox (rl_heap R ! a) @
             (if now - h_created (hc_hub (rl_heap R ! a)) > rg_maxAge (rl_reg R)
              then [closeCmd ''session expired''] else [])))"
proof -
  have inv: "relay_inv R" using assms(1) by (rule relay.reachable_invariant)
  have "distinct (expired now R)" using distinct_registry_hubs [OF inv] by (simp add: expired_def)
  from close_all_sends [OF this, of R picks] assms(2) expired_in_heap [OF inv]
  show ?thesis by (fastforce simp: sweep_def inboxCap_def expired_running [OF inv])
qed

section \<open>Closed examples\<close>

definition demo_relay :: relay where
  "demo_relay = snd (registry_create (replicate 16 0) 16 0
     \<lparr>rl_reg = newRegistry 1000 100 30, rl_heap = [], rl_metrics = zero_Metrics\<rparr>)"

lemma demo_relay_reachable: "reachable_from relay_initial (relay_trans cb) demo_relay"
proof -
  let ?i = "\<lparr>rl_reg = newRegistry 1000 100 30, rl_heap = [], rl_metrics = zero_Metrics\<rparr>"
  have "reachable_from relay_initial (relay_trans cb) ?i"
    by (rule reach_initial) (unfold relay_initial_def, blast)
  moreover have "relay_trans cb ?i (Create (replicate 16 0) 16 0) demo_relay"
    unfolding demo_relay_def by (rule relay_trans.create [where r = "fst (registry_create (replicate 16 0) 16 0 ?i)"]) simp
  ultimately show ?thesis by (rule reach_step)
qed

lemma demo_relay_heap:
  "rl_heap demo_relay = [\<lparr>hc_hub = newHub (replicate 16 0) 16 30 0 zero_Metrics, hc_inbox = [], hc_gone = False\<rparr>]"
  "expired 200 demo_relay = [0]" "rg_maxAge (rl_reg demo_relay) = 100"
  by (simp_all add: demo_relay_def registry_create_def newRegistry_def expired_def registry_hubs_def newHub_def)

theorem one_live_hub_per_session_witness:
  "registry_get (h_id (hc_hub (rl_heap demo_relay ! 0))) demo_relay = Some 0"
  using one_live_hub_per_session [OF demo_relay_reachable] by (simp add: demo_relay_heap newHub_def)

theorem sweep_closes_expired_witness:
  "\<exists>R'. sweep [] 200 demo_relay = Some R' \<and> hc_inbox (rl_heap R' ! 0) = [closeCmd ''session expired'']"
  using sweep_closes_expired [OF demo_relay_reachable, of 200 "[]"]
  by (auto simp: demo_relay_heap newHub_def)

end
