(* ===== verification/RateLimit.thy ===== *)
theory RateLimit
  imports Prelude
begin

text \<open>
  The per-address connection limiter of the relay (src/relay/ratelimit.go). The token buckets of
  golang.org/x/time/rate are a parameter: a constructor and \<open>AllowN\<close>, which answers and
  updates the bucket. Times are integers in nanoseconds. The tracking map is an association
  list, in the order in which the eviction loop happens to visit it.
\<close>

section \<open>Host of an address\<close>

text \<open>\<open>net.SplitHostPort\<close>, reduced to the host and to whether it fails.\<close>

fun index_of :: "char \<Rightarrow> string \<Rightarrow> nat option" where
  "index_of c [] = None"
| "index_of c (x # xs) = (if x = c then Some 0 else map_option Suc (index_of c xs))"

definition last_index_of :: "char \<Rightarrow> string \<Rightarrow> nat option" where
  "last_index_of c s = map_option (\<lambda>j. length s - 1 - j) (index_of c (rev s))"

definition SplitHostPort :: "string \<Rightarrow> string option" where
  "SplitHostPort s =
     (case last_index_of (CHR '':'') s of
        None \<Rightarrow> None
      | Some i \<Rightarrow>
          (let split =
             (if s ! 0 = CHR ''['' then
                (case index_of (CHR '']'') s of
                   None \<Rightarrow> None
                 | Some e \<Rightarrow> if e + 1 = i then Some (take (e - 1) (drop 1 s), 1, e + 1) else None)
              else if index_of (CHR '':'') (take i s) \<noteq> None then None
              else Some (take i s, 0, 0))
           in case split of
                None \<Rightarrow> None
              | Some (host, j, k) \<Rightarrow>
                  if index_of (CHR ''['') (drop j s) \<noteq> None then None
                  else if index_of (CHR '']'') (drop k s) \<noteq> None then None
                  else Some host))"

lemma index_of_None_iff: "index_of c s = None \<longleftrightarrow> c \<notin> set s"
  by (induction s) auto

lemma index_of_append:
  "index_of c (xs @ ys) =
     (case index_of c xs of Some i \<Rightarrow> Some i | None \<Rightarrow> map_option (\<lambda>i. i + length xs) (index_of c ys))"
  by (induction xs) (auto split: option.split simp: option.map_comp comp_def option.map_ident)

lemma last_index_of_snoc:
  assumes "c \<notin> set ys"
  shows "last_index_of c (xs @ c # ys) = Some (length xs)"
  using assms by (simp add: last_index_of_def index_of_append index_of_None_iff [THEN iffD2] split: option.split)

lemma SplitHostPort_plain:
  assumes "CHR '':'' \<notin> set host \<union> set port" and "CHR ''['' \<notin> set host \<union> set port"
    and "CHR '']'' \<notin> set host \<union> set port"
  shows "SplitHostPort (host @ CHR '':'' # port) = Some host"
proof -
  have "(host @ CHR '':'' # port) ! 0 \<noteq> CHR ''[''" using assms(2) by (cases host) auto
  with assms show ?thesis
    by (simp add: SplitHostPort_def last_index_of_snoc index_of_None_iff Let_def)
qed

section \<open>State\<close>

record ('r, 'b) rate =
  NewLimiter :: "'r \<Rightarrow> int \<Rightarrow> 'b"
  AllowN :: "'b \<Rightarrow> int \<Rightarrow> int \<Rightarrow> bool \<times> 'b"

record 'b ipEntry =
  ie_lim :: 'b
  ie_seen :: int

record ('r, 'b) ipLimiter =
  l_m :: "(string \<times> 'b ipEntry) list"
  l_limit :: 'r
  l_burst :: int

definition ipLimiterCap :: nat where "ipLimiterCap = 16384"

definition ipIdleTTL :: int where "ipIdleTTL = 2 * 60 * 10 ^ 9"

definition newIPLimiter :: "'r \<Rightarrow> int \<Rightarrow> ('r, 'b) ipLimiter" where
  "newIPLimiter limit burst = \<lparr>l_m = [], l_limit = limit, l_burst = burst\<rparr>"

definition ip_count :: "('r, 'b) ipLimiter \<Rightarrow> int" where
  "ip_count l = int (length (l_m l))"

section \<open>Eviction\<close>

type_synonym 'b evict_scan = "(string \<times> 'b ipEntry) list \<times> string \<times> int \<times> bool"

definition evict_visit :: "int \<Rightarrow> string \<times> 'b ipEntry \<Rightarrow> 'b evict_scan \<Rightarrow> 'b evict_scan" where
  "evict_visit now = (\<lambda>(k, e) (m, oldestKey, oldestSeen, freed).
     if now - ie_seen e \<ge> ipIdleTTL then (AList.delete k m, oldestKey, oldestSeen, True)
     else if oldestKey = '''' \<or> ie_seen e < oldestSeen then (m, k, ie_seen e, freed)
     else (m, oldestKey, oldestSeen, freed))"

definition evictLocked :: "int \<Rightarrow> ('r, 'b) ipLimiter \<Rightarrow> ('r, 'b) ipLimiter" where
  "evictLocked now l =
     (let (m, oldestKey, oldestSeen, freed) = fold (evict_visit now) (l_m l) (l_m l, '''', 0, False)
      in l\<lparr>l_m := (if \<not> freed \<and> oldestKey \<noteq> '''' then AList.delete oldestKey m else m)\<rparr>)"

definition client_ip :: "string \<Rightarrow> string" where
  "client_ip remoteAddr = (case SplitHostPort remoteAddr of Some host \<Rightarrow> host | None \<Rightarrow> remoteAddr)"

definition allow :: "('r, 'b) rate \<Rightarrow> int \<Rightarrow> string \<Rightarrow> ('r, 'b) ipLimiter \<Rightarrow> bool \<times> ('r, 'b) ipLimiter" where
  "allow R now remoteAddr l =
     (let ip = client_ip remoteAddr
      in case map_of (l_m l) ip of
           Some e \<Rightarrow>
             (let (ok, lim) = AllowN R (ie_lim e) now 1
              in (ok, l\<lparr>l_m := AList.update ip \<lparr>ie_lim = lim, ie_seen = now\<rparr> (l_m l)\<rparr>))
         | None \<Rightarrow>
             (let l1 = (if length (l_m l) \<ge> ipLimiterCap then evictLocked now l else l);
                  (ok, lim) = AllowN R (NewLimiter R (l_limit l1) (l_burst l1)) now 1
              in (ok, l1\<lparr>l_m := AList.update ip \<lparr>ie_lim = lim, ie_seen = now\<rparr> (l_m l1)\<rparr>)))"

section \<open>What the eviction loop removes\<close>

definition stale :: "int \<Rightarrow> 'b ipEntry \<Rightarrow> bool" where
  "stale now e \<longleftrightarrow> now - ie_seen e \<ge> ipIdleTTL"

lemma AList_delete_filter: "AList.delete k m = filter (\<lambda>(k', _). k' \<noteq> k) m"
  by (induction m) auto

lemma evict_visit_stale:
  "stale now e \<Longrightarrow> evict_visit now (k, e) (m, ok, os, fr) = (AList.delete k m, ok, os, True)"
  by (simp add: evict_visit_def stale_def)

lemma evict_visit_fresh:
  "\<not> stale now e \<Longrightarrow> evict_visit now (k, e) (m, ok, os, fr) =
     (m, if ok = '''' \<or> ie_seen e < os then k else ok,
      if ok = '''' \<or> ie_seen e < os then ie_seen e else os, fr)"
  by (simp add: evict_visit_def stale_def)

lemma scan_map:
  "fst (fold (evict_visit now) xs (m, ok, os, fr)) =
     filter (\<lambda>(k, _). \<not> (\<exists>e. (k, e) \<in> set xs \<and> stale now e)) m"
proof (induction xs arbitrary: m ok os fr)
  case (Cons x xs)
  obtain k e where x: "x = (k, e)" by (cases x)
  show ?case
    by (cases "stale now e")
       (auto simp: x evict_visit_stale evict_visit_fresh Cons.IH AList_delete_filter intro!: filter_cong)
qed simp

lemma scan_freed:
  "snd (snd (snd (fold (evict_visit now) xs (m, ok, os, fr)))) \<longleftrightarrow>
     fr \<or> (\<exists>k e. (k, e) \<in> set xs \<and> stale now e)"
proof (induction xs arbitrary: m ok os fr)
  case (Cons x xs)
  obtain k e where x: "x = (k, e)" by (cases x)
  show ?case
    by (cases "stale now e") (auto simp: x evict_visit_stale evict_visit_fresh Cons.IH)
qed simp

text \<open>With non-empty keys the scan ends on a least recently seen entry among the fresh ones.\<close>

lemma scan_oldest:
  assumes "'''' \<notin> fst ` set xs" and "\<forall>(k, e) \<in> set xs. \<not> stale now e"
    and "ok \<noteq> '''' \<or> xs \<noteq> []"
  shows "\<exists>k s. fst (snd (fold (evict_visit now) xs (m, ok, os, fr))) = k \<and> k \<noteq> '''' \<and>
     fst (snd (snd (fold (evict_visit now) xs (m, ok, os, fr)))) = s \<and>
     ((k = ok \<and> s = os \<and> ok \<noteq> '''') \<or> (\<exists>e. (k, e) \<in> set xs \<and> s = ie_seen e)) \<and>
     (ok \<noteq> '''' \<longrightarrow> s \<le> os) \<and> (\<forall>(k', e) \<in> set xs. s \<le> ie_seen e)"
  using assms
proof (induction xs arbitrary: ok os)
  case (Cons x xs)
  obtain k e where x: "x = (k, e)" by (cases x)
  have k: "k \<noteq> ''''" "\<not> stale now e" using Cons.prems x by auto
  define ok' os' where "ok' = (if ok = '''' \<or> ie_seen e < os then k else ok)"
    and "os' = (if ok = '''' \<or> ie_seen e < os then ie_seen e else os)"
  have v: "evict_visit now x (m, ok, os, fr) = (m, ok', os', fr)"
    using k by (simp add: x evict_visit_fresh ok'_def os'_def)
  have "ok' \<noteq> ''''" using k by (simp add: ok'_def)
  with Cons.IH [of ok' os'] Cons.prems(1,2) obtain k2 s2 where
    "fst (snd (fold (evict_visit now) xs (m, ok', os', fr))) = k2" "k2 \<noteq> ''''"
    "fst (snd (snd (fold (evict_visit now) xs (m, ok', os', fr)))) = s2"
    "(k2 = ok' \<and> s2 = os') \<or> (\<exists>e. (k2, e) \<in> set xs \<and> s2 = ie_seen e)"
    "s2 \<le> os'" "\<forall>(k', e) \<in> set xs. s2 \<le> ie_seen e"
    by auto
  then show ?case
    unfolding x [symmetric] fold_simps v
    by (auto simp: ok'_def os'_def x split: if_splits)
qed simp

lemma evictLocked_stale:
  assumes "(k0, e0) \<in> set (l_m l)" and "stale now e0" and "wf_map (l_m l)"
  shows "l_m (evictLocked now l) = filter (\<lambda>(k, e). \<not> stale now e) (l_m l)"
proof -
  obtain m ok os fr where s: "fold (evict_visit now) (l_m l) (l_m l, '''', 0, False) = (m, ok, os, fr)"
    by (metis prod_cases4)
  have "fr" using scan_freed [of now "l_m l" "l_m l" "''''" 0 False] s assms by auto
  moreover have "m = filter (\<lambda>(k, e). \<not> stale now e) (l_m l)"
    using scan_map [of now "l_m l" "l_m l" "''''" 0 False] s assms(3)
    by (auto simp: wf_map_def intro!: filter_cong dest: eq_key_imp_eq_value)
  ultimately show ?thesis by (simp add: evictLocked_def s)
qed

lemma evictLocked_fresh:
  assumes "\<forall>(k, e) \<in> set (l_m l). \<not> stale now e" and "'''' \<notin> fst ` set (l_m l)" and "l_m l \<noteq> []"
  shows "\<exists>k e. (k, e) \<in> set (l_m l) \<and> (\<forall>(k', e') \<in> set (l_m l). ie_seen e \<le> ie_seen e') \<and>
     l_m (evictLocked now l) = AList.delete k (l_m l)"
proof -
  obtain m ok os fr where s: "fold (evict_visit now) (l_m l) (l_m l, '''', 0, False) = (m, ok, os, fr)"
    by (metis prod_cases4)
  have "\<not> fr" using scan_freed [of now "l_m l" "l_m l" "''''" 0 False] s assms(1) by auto
  moreover have "m = l_m l"
    using scan_map [of now "l_m l" "l_m l" "''''" 0 False] s assms(1)
    by (auto simp: filter_id_conv)
  moreover obtain e where "ok \<noteq> ''''" "(ok, e) \<in> set (l_m l)" "os = ie_seen e"
      "\<forall>(k', e') \<in> set (l_m l). os \<le> ie_seen e'"
    using scan_oldest [of "l_m l" now "''''" "l_m l" 0 False] s assms by auto
  ultimately show ?thesis by (auto simp: evictLocked_def s)
qed

lemma evictLocked_subset: "set (l_m (evictLocked now l)) \<subseteq> set (l_m l)"
proof -
  obtain m ok os fr where s: "fold (evict_visit now) (l_m l) (l_m l, '''', 0, False) = (m, ok, os, fr)"
    by (metis prod_cases4)
  have "m = filter (\<lambda>(k, _). \<not> (\<exists>e. (k, e) \<in> set (l_m l) \<and> stale now e)) (l_m l)"
    using scan_map [of now "l_m l" "l_m l" "''''" 0 False] s by simp
  then show ?thesis by (auto simp: evictLocked_def s AList_delete_filter)
qed

lemma wf_map_evictLocked: "wf_map (l_m l) \<Longrightarrow> wf_map (l_m (evictLocked now l))"
proof -
  assume wf: "wf_map (l_m l)"
  obtain m ok os fr where s: "fold (evict_visit now) (l_m l) (l_m l, '''', 0, False) = (m, ok, os, fr)"
    by (metis prod_cases4)
  have "m = filter (\<lambda>(k, _). \<not> (\<exists>e. (k, e) \<in> set (l_m l) \<and> stale now e)) (l_m l)"
    using scan_map [of now "l_m l" "l_m l" "''''" 0 False] s by simp
  then have "wf_map m" using wf by (simp add: wf_map_def distinct_map_filter)
  then show ?thesis by (simp add: evictLocked_def s)
qed

text \<open>Keys are distinct and non-empty and the map is within its cap.\<close>

definition limiter_ok :: "('r, 'b) ipLimiter \<Rightarrow> bool" where
  "limiter_ok l \<longleftrightarrow> wf_map (l_m l) \<and> '''' \<notin> fst ` set (l_m l) \<and> length (l_m l) \<le> ipLimiterCap"

lemma evictLocked_shrinks:
  assumes "limiter_ok l" and "l_m l \<noteq> []"
  shows "length (l_m (evictLocked now l)) < length (l_m l)"
proof (cases "\<exists>k e. (k, e) \<in> set (l_m l) \<and> stale now e")
  case True
  then obtain k e where ke: "(k, e) \<in> set (l_m l)" "stale now e" by blast
  then have "length (filter (\<lambda>(k, e). \<not> stale now e) (l_m l)) < length (l_m l)"
    by (intro length_filter_less [of "(k, e)"]) auto
  with evictLocked_stale [OF ke] assms(1) show ?thesis by (simp add: limiter_ok_def)
next
  case False
  then obtain k e where ke: "(k, e) \<in> set (l_m l)" "l_m (evictLocked now l) = AList.delete k (l_m l)"
    using evictLocked_fresh [of l now] assms by (auto simp: limiter_ok_def)
  then have "map_of (l_m l) k = Some e" using assms(1) by (simp add: limiter_ok_def wf_map_def)
  with ke(2) show ?thesis by (simp add: length_delete_less)
qed

lemma length_update_le: "length (AList.update k v m) \<le> Suc (length m)"
  by (induction m) auto

lemma limiter_ok_allow:
  assumes "limiter_ok l" and "client_ip addr \<noteq> ''''"
  shows "limiter_ok (snd (allow R now addr l))"
proof (cases "map_of (l_m l) (client_ip addr)")
  case (Some e)
  with assms show ?thesis
    by (auto simp: allow_def Let_def limiter_ok_def length_update_present split: prod.split)
next
  case None
  let ?l = "if length (l_m l) \<ge> ipLimiterCap then evictLocked now l else l"
  have "length (l_m ?l) < ipLimiterCap"
    using evictLocked_shrinks [OF assms(1), of now] assms(1)
    by (cases "l_m l") (auto simp: limiter_ok_def ipLimiterCap_def)
  moreover have "wf_map (l_m ?l)" "'''' \<notin> fst ` set (l_m ?l)"
    using assms(1) wf_map_evictLocked [of l now] evictLocked_subset [of now l]
    by (auto simp: limiter_ok_def)
  ultimately have "limiter_ok (?l\<lparr>l_m := AList.update (client_ip addr) v (l_m ?l)\<rparr>)" for v
    using assms(2) length_update_le [of "client_ip addr" v "l_m ?l"] by (simp add: limiter_ok_def)
  with None show ?thesis
    by (cases "length (l_m l) \<ge> ipLimiterCap") (simp_all add: allow_def Let_def split: prod.split)
qed

fun allow_all :: "('r, 'b) rate \<Rightarrow> (int \<times> string) list \<Rightarrow> ('r, 'b) ipLimiter \<Rightarrow> ('r, 'b) ipLimiter" where
  "allow_all R [] l = l"
| "allow_all R ((now, addr) # calls) l = allow_all R calls (snd (allow R now addr l))"

lemma limiter_ok_allow_all:
  "limiter_ok l \<Longrightarrow> \<forall>(now, addr) \<in> set calls. client_ip addr \<noteq> '''' \<Longrightarrow> limiter_ok (allow_all R calls l)"
  by (induction R calls l rule: allow_all.induct) (auto intro: limiter_ok_allow)

text \<open>
  C37. The tracking map is bounded: after any sequence of connection attempts at any times, the
  limiter tracks at most 16384 addresses, each once, whatever the token buckets answer (for
  attempts whose address has a non-empty host).
\<close>

theorem limiter_bounded:
  assumes "\<forall>(now, addr) \<in> set calls. client_ip addr \<noteq> ''''"
  shows "ip_count (allow_all R calls (newIPLimiter limit burst)) \<le> 16384 \<and>
     distinct (map fst (l_m (allow_all R calls (newIPLimiter limit burst))))"
proof -
  have "limiter_ok (newIPLimiter limit burst)"
    by (simp add: limiter_ok_def newIPLimiter_def)
  from limiter_ok_allow_all [OF this assms, of R] show ?thesis
    by (simp add: limiter_ok_def ip_count_def wf_map_def ipLimiterCap_def)
qed

text \<open>
  Making room never forgives an active offender: an attempt from one address leaves the
  bucket of every other address that was seen within the idle time as it is, unless that entry
  is a least recently seen one of the whole map.
\<close>

theorem allow_keeps_active:
  assumes "limiter_ok l" and "map_of (l_m l) ip = Some e" and "client_ip addr \<noteq> ip"
    and "now - ie_seen e < ipIdleTTL" and "(k', e') \<in> set (l_m l)" and "ie_seen e' < ie_seen e"
  shows "map_of (l_m (snd (allow R now addr l))) ip = Some e"
proof -
  have wf: "wf_map (l_m l)" and ne: "'''' \<notin> fst ` set (l_m l)" using assms(1) by (simp_all add: limiter_ok_def)
  have e: "(ip, e) \<in> set (l_m l)" "\<not> stale now e"
    using assms(2,4) by (auto simp: stale_def dest: map_of_SomeD)
  have "(ip, e) \<in> set (l_m (evictLocked now l))"
  proof (cases "\<exists>k e. (k, e) \<in> set (l_m l) \<and> stale now e")
    case True
    then obtain k0 e0 where "(k0, e0) \<in> set (l_m l)" "stale now e0" by blast
    from evictLocked_stale [OF this wf] e show ?thesis by simp
  next
    case False
    then obtain k2 e2 where k2: "(k2, e2) \<in> set (l_m l)" "\<forall>(k', e') \<in> set (l_m l). ie_seen e2 \<le> ie_seen e'"
      "l_m (evictLocked now l) = AList.delete k2 (l_m l)"
      using evictLocked_fresh [of l now] ne e(1) by fastforce
    have "ie_seen e2 < ie_seen e" using k2(2) assms(5,6) by fastforce
    then have "k2 \<noteq> ip"
      using k2(1) e(1) wf by (auto simp: wf_map_def dest: eq_key_imp_eq_value)
    with k2(3) e(1) show ?thesis by (simp add: AList_delete_filter)
  qed
  with wf_map_evictLocked [OF wf, of now] have "map_of (l_m (evictLocked now l)) ip = Some e"
    by (simp add: wf_map_def)
  with assms(2,3) show ?thesis by (auto simp: allow_def Let_def split: option.split prod.split)
qed

text \<open>
  The loop uses the empty string to mean that no candidate was found yet. If the entry visited
  last has the empty string as its key and is the oldest, nothing is evicted.
\<close>

lemma evictLocked_empty_key:
  assumes "l_m l = m @ [([], e)]" and "\<forall>(k, d) \<in> set m. k \<noteq> [] \<and> \<not> stale now d \<and> ie_seen e < ie_seen d"
    and "\<not> stale now e" and "m \<noteq> []"
  shows "evictLocked now l = l"
proof -
  obtain m' ok os fr where s: "fold (evict_visit now) m (l_m l, '''', 0, False) = (m', ok, os, fr)"
    by (metis prod_cases4)
  have fr: "\<not> fr" "m' = l_m l"
    using scan_freed [of now m "l_m l" "''''" 0 False] scan_map [of now m "l_m l" "''''" 0 False] s assms(2)
    by (fastforce simp: filter_id_conv)+
  obtain d where "ok \<noteq> ''''" "(ok, d) \<in> set m" "os = ie_seen d"
    using scan_oldest [of m now "''''" "l_m l" 0 False] s assms(2,4) by fastforce
  with assms(2) have "ie_seen e < os" by auto
  then have "fold (evict_visit now) (l_m l) (l_m l, '''', 0, False) = (m', [], ie_seen e, fr)"
    using s assms(1,3) by (simp add: evict_visit_fresh)
  with fr show ?thesis by (simp add: evictLocked_def)
qed

section \<open>Closed examples\<close>

text \<open>A bucket that counts down and never refills.\<close>

definition count_rate :: "(int, int) rate" where
  "count_rate = \<lparr>NewLimiter = (\<lambda>limit burst. burst), AllowN = (\<lambda>b now n. (n \<le> b, if n \<le> b then b - n else b))\<rparr>"

theorem limiter_bounded_witness:
  "ip_count (allow_all count_rate [(5, ''10.0.0.1:4000''), (6, ''10.0.0.2:4000''), (7, ''10.0.0.1:4001'')]
     (newIPLimiter 1 5)) \<le> 16384"
  using limiter_bounded [of "[(5, ''10.0.0.1:4000''), (6, ''10.0.0.2:4000''), (7, ''10.0.0.1:4001'')]" count_rate 1 5]
  by (simp add: client_ip_def SplitHostPort_def last_index_of_def)

theorem allow_keeps_active_witness:
  "map_of (l_m (snd (allow count_rate 9 ''10.0.0.3:1''
     \<lparr>l_m = [(''10.0.0.1'', \<lparr>ie_lim = 0, ie_seen = 7\<rparr>), (''10.0.0.2'', \<lparr>ie_lim = 4, ie_seen = 6\<rparr>)],
      l_limit = 1, l_burst = 5\<rparr>))) ''10.0.0.1'' = Some \<lparr>ie_lim = 0, ie_seen = 7\<rparr>"
  by (rule allow_keeps_active [where k' = "''10.0.0.2''" and e' = "\<lparr>ie_lim = 4, ie_seen = 6\<rparr>"])
     (simp_all add: limiter_ok_def wf_map_def ipLimiterCap_def ipIdleTTL_def client_ip_def
       SplitHostPort_def last_index_of_def)

end
