(* ===== verification/Relay.thy ===== *)
theory Relay
  imports Registry RateLimit DemoCodec
begin

text \<open>
  The relay server (src/relay/relay.go): options, the HTTP entry point, the first exchange on a
  connection, its read loop and its writer. The websocket library is a parameter: what a read
  returns and whether a write succeeds are inputs of the definitions. A goroutine that waits for
  a hub is split at the wait: \<open>hello\<close> up to the command it sends, and the treatment of the
  hub's reply. The parsed query string of a request is part of the request.
\<close>

section \<open>Options\<close>

abbreviation second :: int where "second \<equiv> 10 ^ 9"

record request =
  rq_query :: "(string \<times> string) list"
  rq_RemoteAddr :: string

record RouteResult =
  rr_Replay :: bool
  rr_Header :: "(string \<times> string list) list"
  rr_Status :: int

record 'r Options =
  o_MaxSessions :: int
  o_MaxParticipants :: int
  o_MaxAge :: int
  o_SweepEvery :: int
  o_IdleTimeout :: int
  o_Grace :: int
  o_ConnRate :: 'r
  o_ConnBurst :: int
  o_Router :: "(SessionID \<Rightarrow> request \<Rightarrow> RouteResult) option"

definition defaults :: "(int \<Rightarrow> 'r) \<Rightarrow> 'r::{zero,linorder} Options \<Rightarrow> 'r Options" where
  "defaults every op =
     \<lparr>o_MaxSessions = (if o_MaxSessions op \<le> 0 then 1000 else o_MaxSessions op),
      o_MaxParticipants = (if o_MaxParticipants op \<le> 0 then 16 else o_MaxParticipants op),
      o_MaxAge = (if o_MaxAge op \<le> 0 then 24 * 3600 * second else o_MaxAge op),
      o_SweepEvery = (if o_SweepEvery op \<le> 0 then 60 * second else o_SweepEvery op),
      o_IdleTimeout = (if o_IdleTimeout op \<le> 0 then 90 * second else o_IdleTimeout op),
      o_Grace = (if o_Grace op \<le> 0 then 30 * second else o_Grace op),
      o_ConnRate = (if o_ConnRate op \<le> 0 then every (12 * second) else o_ConnRate op),
      o_ConnBurst = (if o_ConnBurst op \<le> 0 then 5 else o_ConnBurst op),
      o_Router = o_Router op\<rparr>"

record ('r, 'b) Server =
  sv_opts :: "'r Options"
  sv_relay :: relay
  sv_limiter :: "('r, 'b) ipLimiter"
  sv_started :: int
  sv_stopped :: bool

definition New :: "(int \<Rightarrow> 'r) \<Rightarrow> int \<Rightarrow> 'r::{zero,linorder} Options \<Rightarrow> ('r, 'b) Server" where
  "New every now opts =
     (let op = defaults every opts
      in \<lparr>sv_opts = op,
          sv_relay = \<lparr>rl_reg = newRegistry (o_MaxSessions op) (o_MaxAge op) (o_Grace op),
                      rl_heap = [], rl_metrics = zero_Metrics\<rparr>,
          sv_limiter = newIPLimiter (o_ConnRate op) (o_ConnBurst op),
          sv_started = now, sv_stopped = False\<rparr>)"

text \<open>Closing the stop channel twice panics.\<close>

definition Close :: "('r, 'b) Server \<Rightarrow> ('r, 'b) Server option" where
  "Close s = (if sv_stopped s then None else Some (s\<lparr>sv_stopped := True\<rparr>))"

section \<open>The HTTP entry point\<close>

definition parseSessionParam :: "request \<Rightarrow> SessionID option" where
  "parseSessionParam rq =
     (let h = (case map_of (rq_query rq) SessionParam of Some v \<Rightarrow> v | None \<Rightarrow> '''')
      in if h = '''' then None
         else case ParseSessionID h of Inl _ \<Rightarrow> None | Inr sid \<Rightarrow> Some sid)"

datatype http_result =
    HttpError int string
  | HttpReplay "(string \<times> string) list" int
  | Upgrade

definition ServeHTTP :: "('r, 'b) rate \<Rightarrow> int \<Rightarrow> request \<Rightarrow> ('r, 'b) Server \<Rightarrow> http_result \<times> ('r, 'b) Server" where
  "ServeHTTP R now rq s =
     (let limited =
        (let (ok, l) = allow R now (rq_RemoteAddr rq) (sv_limiter s)
         in (if ok then Upgrade else HttpError 429 ''rate limited'', s\<lparr>sv_limiter := l\<rparr>))
      in case o_Router (sv_opts s) of
           None \<Rightarrow> limited
         | Some router \<Rightarrow>
             (case parseSessionParam rq of
                None \<Rightarrow> (HttpError 400 ''missing or malformed session id'', s)
              | Some sid \<Rightarrow>
                  (let res = router sid rq
                   in if rr_Replay res
                      then (HttpReplay (concat (map (\<lambda>(k, vs). map (Pair k) vs) (rr_Header res)))
                              (if rr_Status res = 0 then 503 else rr_Status res), s)
                      else limited)))"

section \<open>Frames on a connection\<close>

text \<open>
  What a read on the websocket returns: a failure with its close status (-1 if it is no close
  frame), a message of another kind, or the bytes of a binary message.
\<close>

datatype ws_read = ReadFailed int | NonBinary | Binary bytes

datatype conn_error = ErrRead int | ErrNonBinary | ErrWire wire_error

definition StatusNormalClosure :: int where "StatusNormalClosure = 1000"

definition readFrame :: "ws_read \<Rightarrow> conn_error + (MsgType \<times> bytes)" where
  "readFrame r =
     (case r of
        ReadFailed st \<Rightarrow> Inl (ErrRead st)
      | NonBinary \<Rightarrow> Inl ErrNonBinary
      | Binary data \<Rightarrow> (case Decode data of Inl e \<Rightarrow> Inl (ErrWire e) | Inr f \<Rightarrow> Inr f))"

definition CloseStatus :: "conn_error \<Rightarrow> int" where
  "CloseStatus e = (case e of ErrRead st \<Rightarrow> st | _ \<Rightarrow> -1)"

definition writeFrame :: "'a cbor \<Rightarrow> MsgType \<Rightarrow> 'a \<Rightarrow> bytes list" where
  "writeFrame cd t body = (case Encode cd t body of Inl _ \<Rightarrow> [] | Inr frame \<Rightarrow> [frame])"

abbreviation error_frame :: "codecs \<Rightarrow> uint16 \<Rightarrow> string \<Rightarrow> bytes list" where
  "error_frame cb code msg \<equiv> writeFrame (cError cb) MsgError \<lparr>e_Code = code, e_Msg = msg\<rparr>"

section \<open>The first exchange\<close>

definition helloCreate :: "codecs \<Rightarrow> 'r Options \<Rightarrow> int \<Rightarrow> bytes \<Rightarrow> relay \<Rightarrow> (bytes list + haddr) \<times> relay" where
  "helloCreate cb opts now raw R =
     (case Body (cCreateSession cb) raw of
        Inl _ \<Rightarrow> (Inl (error_frame cb ErrCodeBadFrame ''bad create frame''), R)
      | Inr cs \<Rightarrow>
          (let n = uint (cs_MaxParticipants cs);
               maxP = (if n \<le> 0 \<or> n > o_MaxParticipants opts then o_MaxParticipants opts else n)
           in case registry_create (cs_SessionID cs) maxP now R of
                (Inl (code, msg), R') \<Rightarrow> (Inl (error_frame cb code msg), R')
              | (Inr a, R') \<Rightarrow> (Inr a, R')))"

definition helloJoin :: "codecs \<Rightarrow> bytes \<Rightarrow> relay \<Rightarrow> bytes list + haddr" where
  "helloJoin cb raw R =
     (case Body (cJoinSession cb) raw of
        Inl _ \<Rightarrow> Inl (error_frame cb ErrCodeBadFrame ''bad join frame'')
      | Inr js \<Rightarrow>
          (case registry_get (js_SessionID js) R of
             None \<Rightarrow> Inl (error_frame cb ErrCodeSessionNotFound ''session not found'')
           | Some a \<Rightarrow> Inr a))"

definition resume :: "codecs \<Rightarrow> conn \<Rightarrow> bytes \<Rightarrow> relay \<Rightarrow> bytes list + haddr \<times> cmd" where
  "resume cb k raw R =
     (case Body (cResumeSession cb) raw of
        Inl _ \<Rightarrow> Inl (error_frame cb ErrCodeBadFrame ''bad resume frame'')
      | Inr rs \<Rightarrow>
          (case registry_get (rs_SessionID rs) R of
             None \<Rightarrow> Inl (error_frame cb ErrCodeSessionNotFound ''session not found'')
           | Some a \<Rightarrow> Inr (a, resumeCmd k (rs_ParticipantID rs) (rs_Token rs))))"

text \<open>
  \<open>hello\<close> up to the command: the frames written before giving up, or the hub and the command
  to send to it. \<open>tok\<close> is the token the hub will draw for a new slot.
\<close>

definition hello :: "codecs \<Rightarrow> 'r Options \<Rightarrow> int \<Rightarrow> conn \<Rightarrow> bytes \<Rightarrow> ws_read \<Rightarrow> relay \<Rightarrow>
    (bytes list + haddr \<times> cmd) \<times> relay" where
  "hello cb opts now k tok rd R =
     (case readFrame rd of
        Inl e \<Rightarrow>
          (Inl (case e of
                  ErrWire (ErrUnsupportedVersion v) \<Rightarrow>
                    error_frame cb ErrCodeUnsupportedVersion ''unsupported protocol version''
                | _ \<Rightarrow> []), R)
      | Inr (ty, raw) \<Rightarrow>
          if ty = MsgResumeSession then (resume cb k raw R, R)
          else if ty = MsgCreateSession then
            (case helloCreate cb opts now raw R of
               (Inl out, R') \<Rightarrow> (Inl out, R')
             | (Inr a, R') \<Rightarrow> (Inr (a, joinCmd k True tok), R'))
          else if ty = MsgJoinSession then
            (case helloJoin cb raw R of
               Inl out \<Rightarrow> (Inl out, R)
             | Inr a \<Rightarrow> (Inr (a, joinCmd k False tok), R))
          else (Inl (error_frame cb ErrCodeBadFrame ''expected create or join''), R))"

text \<open>What \<open>hello\<close> does with the outcome of the send and with the hub's reply.\<close>

definition hello_refused :: "codecs \<Rightarrow> bytes list" where
  "hello_refused cb = error_frame cb ErrCodeSessionNotFound ''session closed''"

definition hello_reply :: "codecs \<Rightarrow> joinReply \<Rightarrow> bytes list + ParticipantID \<times> uint64" where
  "hello_reply cb jr =
     (if jrep_ok jr then Inr (jrep_id jr, jrep_gen jr)
      else Inl (error_frame cb (jrep_errC jr) (jrep_errS jr)))"

definition resume_reply :: "codecs \<Rightarrow> ParticipantID \<Rightarrow> resumeReply \<Rightarrow> bytes list + ParticipantID \<times> uint64" where
  "resume_reply cb pid rr =
     (if rrep_ok rr then Inr (pid, rrep_gen rr)
      else Inl (error_frame cb (rrep_errC rr) (rrep_errS rr)))"

section \<open>The read loop\<close>

datatype conn_action = Queue bytes | Command cmd

definition queueFrame :: "'a cbor \<Rightarrow> MsgType \<Rightarrow> 'a \<Rightarrow> conn_action list" where
  "queueFrame cd t body = map Queue (writeFrame cd t body)"

definition on_frame :: "codecs \<Rightarrow> ParticipantID \<Rightarrow> MsgType \<Rightarrow> bytes \<Rightarrow> conn_action list" where
  "on_frame cb pid ty raw =
     (if ty = MsgPing then
        (case Body (cPing cb) raw of
           Inl _ \<Rightarrow> []
         | Inr p \<Rightarrow> queueFrame (cPong cb) MsgPong \<lparr>pong_Nonce = ping_Nonce p\<rparr>)
      else if ty = MsgDirect \<or> ty = MsgBroadcast then [Command (frameCmd pid ty raw)]
      else if ty = MsgClaimHost then [Command (claimHostCmd pid)]
      else queueFrame (cError cb) MsgError \<lparr>e_Code = ErrCodeBadFrame, e_Msg = ''unexpected message type''\<rparr>)"

text \<open>
  The loop over the results of successive reads; \<open>None\<close> while the connection is still open.
\<close>

fun readLoop :: "codecs \<Rightarrow> ParticipantID \<Rightarrow> ws_read list \<Rightarrow> (conn_action list \<times> bool) option" where
  "readLoop cb pid [] = None"
| "readLoop cb pid (rd # rds) =
     (case readFrame rd of
        Inl e \<Rightarrow> Some ([], CloseStatus e \<noteq> StatusNormalClosure)
      | Inr (ty, raw) \<Rightarrow>
          map_option (\<lambda>(acts, u). (on_frame cb pid ty raw @ acts, u)) (readLoop cb pid rds))"

definition serve_conn :: "codecs \<Rightarrow> ParticipantID \<Rightarrow> uint64 \<Rightarrow> ws_read list \<Rightarrow> conn_action list option" where
  "serve_conn cb pid gen rds =
     map_option (\<lambda>(acts, unexpected). acts @ [Command (leaveCmd pid gen unexpected)]) (readLoop cb pid rds)"

section \<open>The writer\<close>

text \<open>
  \<open>wr n\<close> tells whether the \<open>n\<close>-th write succeeds. The result is what reaches the wire.
\<close>

fun drainAndCancel :: "(nat \<Rightarrow> bool) \<Rightarrow> nat \<Rightarrow> bytes list \<Rightarrow> bytes list" where
  "drainAndCancel wr n [] = []"
| "drainAndCancel wr n (b # bs) = (if wr n then b # drainAndCancel wr (Suc n) bs else [])"

datatype writer_event = Received bytes | Kicked "bytes list" | ContextDone

fun writer :: "(nat \<Rightarrow> bool) \<Rightarrow> nat \<Rightarrow> writer_event list \<Rightarrow> bytes list" where
  "writer wr n [] = []"
| "writer wr n (Received b # es) = (if wr n then b # writer wr (Suc n) es else [])"
| "writer wr n (Kicked queued # es) = drainAndCancel wr n queued"
| "writer wr n (ContextDone # es) = []"

section \<open>Properties\<close>

text \<open>
  The defaults leave no limit unset: after \<open>New\<close>, every cap, timeout and burst is
  positive, whatever the caller passed, given that the interval of the default rate is a
  positive rate; values that were positive are kept, and setting defaults again changes nothing.
\<close>

theorem New_limits_positive:
  fixes every :: "int \<Rightarrow> 'r::{zero,linorder}"
  assumes "0 < every (12 * second)"
  shows "let op = sv_opts (New every now opts :: ('r, 'b) Server) in
     0 < o_MaxSessions op \<and> 0 < o_MaxParticipants op \<and> 0 < o_MaxAge op \<and> 0 < o_SweepEvery op \<and>
     0 < o_IdleTimeout op \<and> 0 < o_Grace op \<and> 0 < o_ConnRate op \<and> 0 < o_ConnBurst op \<and>
     (0 < o_Grace opts \<longrightarrow> o_Grace op = o_Grace opts) \<and>
     (0 < o_MaxParticipants opts \<longrightarrow> o_MaxParticipants op = o_MaxParticipants opts) \<and>
     defaults every op = op"
proof -
  have rate: "0 < (if r \<le> 0 then every (12 * second) else r)" for r :: 'r
    using assms by (simp add: not_le)
  have [simp]: "\<not> every (12 * second) \<le> 0" using assms by (simp add: not_le)
  show ?thesis
    unfolding New_def Let_def defaults_def Server.simps Options.simps using rate by (auto simp: not_le)
qed

text \<open>
  Routing comes before rate limiting: with a router configured, a request with a missing or
  malformed session id is refused with status 400 and one the router hands off is answered with
  its headers and status (503 if unset), and neither consumes anything of the rate limit; only a
  request that is served here is charged, and without a router the session id is not looked at.
\<close>

theorem ServeHTTP_routes_first:
  "(case o_Router (sv_opts s) of
      None \<Rightarrow> ServeHTTP R now rq s =
        (let (ok, l) = allow R now (rq_RemoteAddr rq) (sv_limiter s)
         in (if ok then Upgrade else HttpError 429 ''rate limited'', s\<lparr>sv_limiter := l\<rparr>))
    | Some router \<Rightarrow>
        (case parseSessionParam rq of
           None \<Rightarrow> ServeHTTP R now rq s = (HttpError 400 ''missing or malformed session id'', s)
         | Some sid \<Rightarrow>
             if rr_Replay (router sid rq)
             then \<exists>hdr st. ServeHTTP R now rq s = (HttpReplay hdr st, s) \<and>
                    (st = rr_Status (router sid rq) \<or> (rr_Status (router sid rq) = 0 \<and> st = 503)) \<and>
                    set hdr = {(k, v). \<exists>vs. (k, vs) \<in> set (rr_Header (router sid rq)) \<and> v \<in> set vs}
             else fst (ServeHTTP R now rq s) = Upgrade \<longleftrightarrow>
                    fst (allow R now (rq_RemoteAddr rq) (sv_limiter s))))"
  by (auto simp: ServeHTTP_def Let_def split: option.split prod.split)

text \<open>The session a first frame names.\<close>

definition frame_session :: "codecs \<Rightarrow> ws_read \<Rightarrow> SessionID option" where
  "frame_session cb rd =
     (case readFrame rd of
        Inl _ \<Rightarrow> None
      | Inr (ty, raw) \<Rightarrow>
          if ty = MsgResumeSession then
            (case Body (cResumeSession cb) raw of Inl _ \<Rightarrow> None | Inr m \<Rightarrow> Some (rs_SessionID m))
          else if ty = MsgCreateSession then
            (case Body (cCreateSession cb) raw of Inl _ \<Rightarrow> None | Inr m \<Rightarrow> Some (cs_SessionID m))
          else if ty = MsgJoinSession then
            (case Body (cJoinSession cb) raw of Inl _ \<Rightarrow> None | Inr m \<Rightarrow> Some (js_SessionID m))
          else None)"

lemma create_Inr:
  assumes "registry_create sid maxP now R = (Inr a, R')"
  shows "a = length (rl_heap R)" "registry_get sid R' = Some a"
    "hc_hub (rl_heap R' ! a) = newHub sid maxP (rg_grace (rl_reg R)) now (rl_metrics R)"
    "length (rl_heap R') = Suc (length (rl_heap R))"
  using assms by (auto simp: registry_create_def registry_get_def Let_def split: if_splits)

lemma helloCreate_Inr:
  assumes "helloCreate cb opts now raw R = (Inr a, R')" and "1 \<le> o_MaxParticipants opts"
  shows "\<exists>cs maxP. Body (cCreateSession cb) raw = Inr cs \<and> 1 \<le> maxP \<and> maxP \<le> o_MaxParticipants opts \<and>
     registry_create (cs_SessionID cs) maxP now R = (Inr a, R')"
proof -
  obtain cs where cs: "Body (cCreateSession cb) raw = Inr cs"
    using assms(1) by (auto simp: helloCreate_def split: sum.splits)
  let ?n = "uint (cs_MaxParticipants cs)"
  let ?maxP = "if ?n \<le> 0 \<or> ?n > o_MaxParticipants opts then o_MaxParticipants opts else ?n"
  have "registry_create (cs_SessionID cs) ?maxP now R = (Inr a, R')"
    using assms(1) cs by (auto simp: helloCreate_def Let_def split: sum.splits prod.splits)
  moreover have "?n \<le> 0 \<or> 1 \<le> ?n" by linarith
  ultimately show ?thesis
    using cs assms(2) by (intro exI [of _ cs] exI [of _ ?maxP]) auto
qed

text \<open>
  A connection is attached to the session it names and to no other: when the first frame
  leads to a command for a hub, that hub is the registered one of the session id in the frame.
  A create gets a hub of its own that did not exist before, with a participant cap between 1 and
  the server's maximum whatever the client asked for, and leaves every other hub untouched.
\<close>

theorem hello_targets_session:
  assumes "reachable_from relay_initial (relay_trans cb) R" and "1 \<le> o_MaxParticipants opts"
    and "hello cb opts now k tok rd R = (Inr (a, c), R')"
  shows "\<exists>sid. frame_session cb rd = Some sid \<and> registry_get sid R' = Some a \<and>
     a < length (rl_heap R') \<and> h_id (hc_hub (rl_heap R' ! a)) = sid \<and>
     (\<forall>b < length (rl_heap R). rl_heap R' ! b = rl_heap R ! b) \<and>
     (c = joinCmd k True tok \<longrightarrow> a = length (rl_heap R) \<and>
        1 \<le> h_max (hc_hub (rl_heap R' ! a)) \<and> h_max (hc_hub (rl_heap R' ! a)) \<le> o_MaxParticipants opts)"
proof -
  have inv: "relay_inv R" using assms(1) by (rule relay.reachable_invariant)
  obtain ty raw where rd: "readFrame rd = Inr (ty, raw)"
    using assms(3) by (auto simp: hello_def split: sum.splits)
  have reg: "a < length (rl_heap R) \<and> h_id (hc_hub (rl_heap R ! a)) = sid" if "registry_get sid R = Some a" for sid
    using relay_inv_registered [OF inv that] by blast
  consider (resume) "ty = MsgResumeSession" | (create) "ty = MsgCreateSession"
    | (join) "ty = MsgJoinSession"
    using assms(3) rd by (auto simp: hello_def split: if_splits)
  then show ?thesis
  proof cases
    case resume
    with assms(3) rd reg show ?thesis
      by (auto simp: hello_def resume_def frame_session_def split: sum.splits option.splits)
  next
    case join
    with assms(3) rd reg show ?thesis
      by (auto simp: hello_def helloJoin_def frame_session_def split: sum.splits option.splits)
  next
    case create
    with assms(3) rd have h: "helloCreate cb opts now raw R = (Inr a, R')"
      by (auto simp: hello_def split: sum.splits prod.splits)
    from helloCreate_Inr [OF this assms(2)] obtain cs maxP where
      cs: "Body (cCreateSession cb) raw = Inr cs" "1 \<le> maxP" "maxP \<le> o_MaxParticipants opts"
        "registry_create (cs_SessionID cs) maxP now R = (Inr a, R')" by blast
    have "\<forall>b < length (rl_heap R). rl_heap R' ! b = rl_heap R ! b"
      using cs(4) by (auto simp: registry_create_def Let_def nth_append split: if_splits)
    with create rd cs create_Inr [OF cs(4)] show ?thesis
      by (auto simp: frame_session_def newHub_def)
  qed
qed

lemma on_frame_commands:
  "Command c \<in> set (on_frame cb pid ty raw) \<Longrightarrow>
     (\<exists>t. c = frameCmd pid t raw \<and> (t = MsgDirect \<or> t = MsgBroadcast)) \<or> c = claimHostCmd pid"
  by (auto simp: on_frame_def queueFrame_def split: if_splits sum.splits)

lemma readLoop_commands:
  "readLoop cb pid rds = Some (acts, u) \<Longrightarrow> Command c \<in> set acts \<Longrightarrow>
     (\<exists>t raw. c = frameCmd pid t raw \<and> (t = MsgDirect \<or> t = MsgBroadcast)) \<or> c = claimHostCmd pid"
  by (induction cb pid rds arbitrary: acts rule: readLoop.induct)
     (auto split: sum.splits dest!: on_frame_commands)

lemma readLoop_unexpected:
  "readLoop cb pid rds = Some (acts, u) \<Longrightarrow>
     \<exists>pre e rest. rds = pre @ e # rest \<and> (\<forall>x \<in> set pre. \<exists>f. readFrame x = Inr f) \<and>
       (\<exists>err. readFrame e = Inl err \<and> (u \<longleftrightarrow> CloseStatus err \<noteq> StatusNormalClosure))"
proof (induction cb pid rds arbitrary: acts rule: readLoop.induct)
  case (2 cb pid rd rds)
  show ?case
  proof (cases "readFrame rd")
    case (Inl e)
    with "2.prems" show ?thesis by (intro exI [of _ "[]"]) auto
  next
    case (Inr f)
    obtain ty raw where f: "f = (ty, raw)" by (cases f)
    with Inr "2.prems" obtain acts' where "readLoop cb pid rds = Some (acts', u)" by auto
    from "2.IH" [OF Inr f [symmetric] this] obtain pre e rest err where
      "rds = pre @ e # rest" "\<forall>x \<in> set pre. \<exists>f. readFrame x = Inr f" "readFrame e = Inl err"
      "u \<longleftrightarrow> CloseStatus err \<noteq> StatusNormalClosure" by blast
    with Inr show ?thesis by (intro exI [of _ "rd # pre"] exI [of _ e] exI [of _ rest]) auto
  qed
qed simp

text \<open>
  A connection acts for its own slot only: whatever bytes arrive, every command it sends
  to its hub is a direct or broadcast frame, a host claim or a leave under its own participant
  id; the leave is sent once, last, with the connection's own generation, and it holds the slot
  exactly if the read that ended the loop was not a normal closure.
\<close>

theorem connection_own_slot:
  assumes "serve_conn cb pid gen rds = Some acts"
  shows "\<exists>acts' u. acts = acts' @ [Command (leaveCmd pid gen u)] \<and>
     (\<forall>c. Command c \<in> set acts' \<longrightarrow>
        (\<exists>t raw. c = frameCmd pid t raw \<and> (t = MsgDirect \<or> t = MsgBroadcast)) \<or> c = claimHostCmd pid) \<and>
     (\<exists>pre e rest. rds = pre @ e # rest \<and> (\<forall>x \<in> set pre. \<exists>f. readFrame x = Inr f) \<and>
        (\<exists>err. readFrame e = Inl err \<and> (u \<longleftrightarrow> CloseStatus err \<noteq> 1000)))"
proof -
  from assms obtain acts' u where r: "readLoop cb pid rds = Some (acts', u)"
    and a: "acts = acts' @ [Command (leaveCmd pid gen u)]"
    by (auto simp: serve_conn_def)
  from readLoop_unexpected [OF r] readLoop_commands [OF r] a show ?thesis
    by (intro exI [of _ acts'] exI [of _ u]) (auto simp: StatusNormalClosure_def)
qed

lemma drainAndCancel_prefix: "\<exists>rest. bs = drainAndCancel wr n bs @ rest"
  by (induction wr n bs rule: drainAndCancel.induct) auto

lemma drainAndCancel_all: "drainAndCancel (\<lambda>_. True) n bs = bs"
  by (induction bs arbitrary: n) auto

lemma writer_prefix: "\<exists>rest. bs @ queued = writer wr n (map Received bs @ [Kicked queued]) @ rest"
  by (induction bs arbitrary: n) (auto simp: drainAndCancel_prefix)

lemma writer_all: "writer (\<lambda>_. True) n (map Received bs @ [Kicked queued]) = bs @ queued"
  by (induction bs arbitrary: n) (auto simp: drainAndCancel_all)

text \<open>
  A kick flushes before it closes: what reaches the wire is always a prefix of the frames in
  the order the hub queued them, and when no write fails, everything received before the kick
  and everything still queued at the kick (a session-closed notice, for instance) is written.
\<close>

theorem writer_flushes_on_kick:
  "(\<exists>rest. bs @ queued = writer wr n (map Received bs @ [Kicked queued]) @ rest) \<and>
   ((\<forall>i. wr i) \<longrightarrow> writer wr n (map Received bs @ [Kicked queued]) = bs @ queued)"
proof (intro conjI impI)
  assume "\<forall>i. wr i"
  then have "wr = (\<lambda>_. True)" by auto
  then show "writer wr n (map Received bs @ [Kicked queued]) = bs @ queued"
    by (simp only: writer_all)
qed (rule writer_prefix)

section \<open>Closed examples\<close>

theorem New_limits_positive_witness:
  "0 < o_Grace (sv_opts (New (\<lambda>d. 1 :: int) 0 \<lparr>o_MaxSessions = 0, o_MaxParticipants = 0, o_MaxAge = 0,
     o_SweepEvery = 0, o_IdleTimeout = 0, o_Grace = 0, o_ConnRate = 0, o_ConnBurst = 0,
     o_Router = None\<rparr> :: (int, int) Server))"
  using New_limits_positive [where every = "\<lambda>d. 1 :: int" and ?'b = int] by (simp add: Let_def)

theorem writer_flushes_on_kick_witness:
  "(\<forall>i. (\<lambda>_::nat. True) i) \<and> writer (\<lambda>_. True) 0 (map Received [[1], [2]] @ [Kicked [[3]]]) = [[1], [2]] @ [[3]]"
  using writer_flushes_on_kick [of "[[1], [2]]" "[[3]]" "\<lambda>_. True" 0] by blast

definition demo_opts :: "int Options" where
  "demo_opts = \<lparr>o_MaxSessions = 1000, o_MaxParticipants = 16, o_MaxAge = 100, o_SweepEvery = 10,
     o_IdleTimeout = 90, o_Grace = 30, o_ConnRate = 1, o_ConnBurst = 5, o_Router = None\<rparr>"

lemma demo_create_frame:
  "\<exists>data raw. Decode data = Inr (MsgCreateSession, raw) \<and>
     Body (cCreateSession demo_codecs) raw = Inr \<lparr>cs_SessionID = replicate 16 1, cs_MaxParticipants = 200\<rparr>"
proof -
  let ?m = "\<lparr>cs_SessionID = replicate 16 1, cs_MaxParticipants = 200\<rparr>"
  obtain f where f: "Encode (cCreateSession demo_codecs) MsgCreateSession ?m = Inr f"
    by (simp add: Encode_def demo_codecs_def f_via_def f_pair_def f_word_def f_bytes_def MaxFrame_def)
  have "cbor_roundtrip (cCreateSession demo_codecs)" using demo_codecs_ok by (simp add: codecs_ok_def)
  from Encode_decodes [OF this f] show ?thesis by blast
qed

theorem hello_targets_session_witness:
  "\<exists>rd a R'. hello demo_codecs demo_opts 5 7 [3] rd demo_relay = (Inr (a, joinCmd 7 True [3]), R') \<and>
     registry_get (replicate 16 1) R' = Some a \<and> h_max (hc_hub (rl_heap R' ! a)) \<le> 16"
proof -
  obtain data raw where d: "Decode data = Inr (MsgCreateSession, raw)"
    "Body (cCreateSession demo_codecs) raw = Inr \<lparr>cs_SessionID = replicate 16 1, cs_MaxParticipants = 200\<rparr>"
    using demo_create_frame by blast
  obtain a R' where h: "hello demo_codecs demo_opts 5 7 [3] (Binary data) demo_relay =
      (Inr (a, joinCmd 7 True [3]), R')"
    using d by (simp add: hello_def readFrame_def helloCreate_def demo_relay_def registry_create_def
        newRegistry_def demo_opts_def Let_def)
  have "frame_session demo_codecs (Binary data) = Some (replicate 16 1)"
    using d by (simp add: frame_session_def readFrame_def)
  with hello_targets_session [OF demo_relay_reachable _ h] h show ?thesis
    by (fastforce simp: demo_opts_def)
qed

theorem connection_own_slot_witness:
  "\<exists>u. serve_conn demo_codecs 3 9 [ReadFailed 1000] = Some [Command (leaveCmd 3 9 u)]"
proof -
  have "serve_conn demo_codecs 3 9 [ReadFailed 1000] = Some [Command (leaveCmd 3 9 False)]"
    by (simp add: serve_conn_def readFrame_def CloseStatus_def StatusNormalClosure_def)
  from connection_own_slot [OF this] this show ?thesis by auto
qed

end
