(* ===== verification/Stats.thy ===== *)
theory Stats
  imports Complex_Main Relay
begin

text \<open>
  Snapshots of the relay for its dashboard (src/relay/stats.go): the statistics of one server
  and their combination over the nodes of a cluster. The answers of the hubs to the statistics
  query are an argument, because a hub answers from its own goroutine; \<open>quiescent_answer\<close> is the
  answer of a hub with an empty inbox. Ages in seconds are rational numbers.
\<close>

section \<open>State\<close>

record SessionStat =
  ss_ID :: string
  ss_AgeSeconds :: rat
  ss_Participants :: int
  ss_MaxParticipants :: int
  ss_Host :: uint32
  ss_IDsIssued :: uint32
  ss_Clients :: "ClientStat list"

record Stats =
  st_Uptime :: int
  st_ActiveSessions :: int
  st_MaxSessions :: int
  st_MaxParticipants :: int
  st_MaxAge :: int
  st_Grace :: int
  st_IdleTimeout :: int
  st_TrackedIPs :: int
  st_SessionsCreated :: uint64
  st_FramesForwarded :: uint64
  st_BytesForwarded :: uint64
  st_Joins :: uint64
  st_Resumes :: uint64
  st_Errors :: uint64
  st_Sessions :: "SessionStat list"

definition zero_Stats :: Stats where
  "zero_Stats = \<lparr>st_Uptime = 0, st_ActiveSessions = 0, st_MaxSessions = 0, st_MaxParticipants = 0,
     st_MaxAge = 0, st_Grace = 0, st_IdleTimeout = 0, st_TrackedIPs = 0, st_SessionsCreated = 0,
     st_FramesForwarded = 0, st_BytesForwarded = 0, st_Joins = 0, st_Resumes = 0, st_Errors = 0,
     st_Sessions = []\<rparr>"

section \<open>One server\<close>

definition session_stat :: "int \<Rightarrow> hub \<Rightarrow> hubStats \<Rightarrow> SessionStat" where
  "session_stat now h hs =
     \<lparr>ss_ID = EncodeToString (h_id h), ss_AgeSeconds = Fract (now - h_created h) second,
      ss_Participants = hst_participants hs, ss_MaxParticipants = h_max h, ss_Host = hst_host hs,
      ss_IDsIssued = hst_nextID hs - 1, ss_Clients = hst_clients hs\<rparr>"

definition Server_Stats :: "(haddr \<Rightarrow> hubStats option) \<Rightarrow> int \<Rightarrow> ('r, 'b) Server \<Rightarrow> Stats" where
  "Server_Stats answers now s =
     (let m = rl_metrics (sv_relay s); hubs = registry_hubs (sv_relay s)
      in \<lparr>st_Uptime = now - sv_started s, st_ActiveSessions = int (length hubs),
          st_MaxSessions = o_MaxSessions (sv_opts s), st_MaxParticipants = o_MaxParticipants (sv_opts s),
          st_MaxAge = o_MaxAge (sv_opts s), st_Grace = o_Grace (sv_opts s),
          st_IdleTimeout = o_IdleTimeout (sv_opts s), st_TrackedIPs = ip_count (sv_limiter s),
          st_SessionsCreated = SessionsCreated m, st_FramesForwarded = FramesForwarded m,
          st_BytesForwarded = BytesForwarded m, st_Joins = Joins m, st_Resumes = Resumes m,
          st_Errors = Errors m,
          st_Sessions = concat (map (\<lambda>a. case answers a of
                None \<Rightarrow> []
              | Some hs \<Rightarrow> [session_stat now (hc_hub (rl_heap (sv_relay s) ! a)) hs]) hubs)\<rparr>)"

text \<open>
  \<open>snapshot\<close>: the reply of a hub that handles the query next, or nothing once it is done.
\<close>

definition quiescent_answer :: "hub \<Rightarrow> hubStats option" where
  "quiescent_answer h =
     (if h_done h then None
      else case last (h_replies (handleStats 0 h)) of (_, StatsReply hs) \<Rightarrow> Some hs | _ \<Rightarrow> None)"

section \<open>The cluster\<close>

definition merge_part :: "Stats \<Rightarrow> Stats \<Rightarrow> Stats" where
  "merge_part p out =
     out\<lparr>st_ActiveSessions := st_ActiveSessions out + st_ActiveSessions p,
         st_TrackedIPs := st_TrackedIPs out + st_TrackedIPs p,
         st_SessionsCreated := st_SessionsCreated out + st_SessionsCreated p,
         st_FramesForwarded := st_FramesForwarded out + st_FramesForwarded p,
         st_BytesForwarded := st_BytesForwarded out + st_BytesForwarded p,
         st_Joins := st_Joins out + st_Joins p,
         st_Resumes := st_Resumes out + st_Resumes p,
         st_Errors := st_Errors out + st_Errors p,
         st_Uptime := (if st_Uptime p > st_Uptime out then st_Uptime p else st_Uptime out),
         st_Sessions := st_Sessions out @ st_Sessions p\<rparr>"

fun MergeStats :: "Stats list \<Rightarrow> Stats" where
  "MergeStats [] = zero_Stats"
| "MergeStats (p # ps) = fold merge_part ps p"

text \<open>What every field of the merged snapshot is, by itself.\<close>

lemma fold_merge_part:
  "st_ActiveSessions (fold merge_part ps p) = st_ActiveSessions p + sum_list (map st_ActiveSessions ps)"
  "st_TrackedIPs (fold merge_part ps p) = st_TrackedIPs p + sum_list (map st_TrackedIPs ps)"
  "st_SessionsCreated (fold merge_part ps p) = st_SessionsCreated p + sum_list (map st_SessionsCreated ps)"
  "st_FramesForwarded (fold merge_part ps p) = st_FramesForwarded p + sum_list (map st_FramesForwarded ps)"
  "st_BytesForwarded (fold merge_part ps p) = st_BytesForwarded p + sum_list (map st_BytesForwarded ps)"
  "st_Joins (fold merge_part ps p) = st_Joins p + sum_list (map st_Joins ps)"
  "st_Resumes (fold merge_part ps p) = st_Resumes p + sum_list (map st_Resumes ps)"
  "st_Errors (fold merge_part ps p) = st_Errors p + sum_list (map st_Errors ps)"
  "st_Sessions (fold merge_part ps p) = st_Sessions p @ concat (map st_Sessions ps)"
  "st_MaxSessions (fold merge_part ps p) = st_MaxSessions p"
  "st_MaxParticipants (fold merge_part ps p) = st_MaxParticipants p"
  "st_MaxAge (fold merge_part ps p) = st_MaxAge p" "st_Grace (fold merge_part ps p) = st_Grace p"
  "st_IdleTimeout (fold merge_part ps p) = st_IdleTimeout p"
  by (induction ps arbitrary: p) (simp_all add: merge_part_def)

lemma fold_merge_Uptime: "st_Uptime (fold merge_part ps p) = Max (set (map st_Uptime (p # ps)))"
proof (induction ps arbitrary: p)
  case (Cons q ps)
  have "st_Uptime (merge_part q p) = max (st_Uptime p) (st_Uptime q)" by (simp add: merge_part_def max_def)
  with Cons show ?case by (cases "ps = []") (auto simp: Max_insert max.assoc max.left_commute)
qed simp

text \<open>
  Merging loses and invents nothing: over any non-empty list of node snapshots, every
  counter of the result is the (64-bit) sum of the nodes' counters, the sessions are exactly
  those of the nodes one after the other, the uptime is that of the longest running node, and
  the configuration is the first node's. One snapshot is returned unchanged.
\<close>

theorem MergeStats_totals:
  "MergeStats [p] = p \<and>
   (let st = MergeStats (p # ps) in
      st_ActiveSessions st = sum_list (map st_ActiveSessions (p # ps)) \<and>
      st_TrackedIPs st = sum_list (map st_TrackedIPs (p # ps)) \<and>
      st_SessionsCreated st = sum_list (map st_SessionsCreated (p # ps)) \<and>
      st_FramesForwarded st = sum_list (map st_FramesForwarded (p # ps)) \<and>
      st_BytesForwarded st = sum_list (map st_BytesForwarded (p # ps)) \<and>
      st_Joins st = sum_list (map st_Joins (p # ps)) \<and>
      st_Resumes st = sum_list (map st_Resumes (p # ps)) \<and>
      st_Errors st = sum_list (map st_Errors (p # ps)) \<and>
      st_Sessions st = concat (map st_Sessions (p # ps)) \<and>
      st_Uptime st = Max (set (map st_Uptime (p # ps))) \<and>
      st_MaxSessions st = st_MaxSessions p \<and> st_MaxParticipants st = st_MaxParticipants p \<and>
      st_MaxAge st = st_MaxAge p \<and> st_Grace st = st_Grace p \<and> st_IdleTimeout st = st_IdleTimeout p)"
  by (simp add: fold_merge_part fold_merge_Uptime Let_def del: set_map)

lemma quiescent_answer_eq:
  "\<not> h_done h \<Longrightarrow> quiescent_answer h = Some
     \<lparr>hst_participants = int (length (h_clients h)), hst_host = h_host h, hst_nextID = h_nextID h,
      hst_clients = map (\<lambda>(_, c). \<lparr>cst_ID = cl_id c, cst_Held = cl_held c, cst_Gen = cl_gen c\<rparr>) (h_clients h)\<rparr>"
  by (simp add: quiescent_answer_def handleStats_def reply_def)

text \<open>
  A snapshot respects the limits it reports: in every reachable state of a relay whose hubs
  answer from a quiet state, the sessions listed are within the session cap, have distinct ids,
  and each lists as many client slots as it counts participants, at most its own maximum.
\<close>

theorem Server_Stats_within_limits:
  assumes "reachable_from relay_initial (relay_trans cb) (sv_relay s)"
    and "rg_maxCount (rl_reg (sv_relay s)) = o_MaxSessions (sv_opts s)" and "0 \<le> o_MaxSessions (sv_opts s)"
  shows "let st = Server_Stats (\<lambda>a. quiescent_answer (hc_hub (rl_heap (sv_relay s) ! a))) now s in
     int (length (st_Sessions st)) \<le> st_ActiveSessions st \<and> st_ActiveSessions st \<le> st_MaxSessions st \<and>
     (\<forall>x \<in> set (st_Sessions st). ss_Participants x = int (length (ss_Clients x)) \<and>
        (ss_Participants x = 0 \<or> ss_Participants x \<le> ss_MaxParticipants x) \<and>
        distinct (map cst_ID (ss_Clients x)))"
proof -
  let ?R = "sv_relay s"
  let ?h = "\<lambda>a. hc_hub (rl_heap ?R ! a)"
  let ?row = "\<lambda>a. case quiescent_answer (?h a) of None \<Rightarrow> [] | Some hs \<Rightarrow> [session_stat now (?h a) hs]"
  have inv: "relay_inv ?R" using assms(1) by (rule relay.reachable_invariant)
  have len: "length (concat (map ?row as)) \<le> length as" for as
    by (induction as) (auto split: option.split)
  have row: "ss_Participants x = int (length (ss_Clients x)) \<and>
        (ss_Participants x = 0 \<or> ss_Participants x \<le> ss_MaxParticipants x) \<and> distinct (map cst_ID (ss_Clients x))"
    if a: "a \<in> set (registry_hubs ?R)" and x: "x \<in> set (?row a)" for a x
  proof -
    have "a < length (rl_heap ?R)"
      using a inv by (auto simp: registry_hubs_def relay_inv_def registry_get_def wf_map_def)
    then have h: "hub_wf (?h a)" using relay_inv_cell [OF inv] by (simp add: hub_live_inv_def)
    have nd: "\<not> h_done (?h a)" using x by (auto simp: quiescent_answer_def split: if_splits)
    let ?cs = "map (\<lambda>(_, c). \<lparr>cst_ID = cl_id c, cst_Held = cl_held c, cst_Gen = cl_gen c\<rparr>) (h_clients (?h a))"
    have "map cst_ID ?cs = map fst (h_clients (?h a))"
      using h by (auto simp: hub_wf_but_def client_wf_def wf_map_def)
    moreover have "distinct (map fst (h_clients (?h a)))" using h by (simp add: hub_wf_but_def wf_map_def)
    ultimately have d: "distinct (map cst_ID ?cs)" by (simp only:)
    have x': "ss_Participants x = int (length (h_clients (?h a)))" "ss_Clients x = ?cs"
      "ss_MaxParticipants x = h_max (?h a)"
      using x by (simp_all add: quiescent_answer_eq [OF nd] session_stat_def)
    have "h_clients (?h a) = [] \<or> int (length (h_clients (?h a))) \<le> h_max (?h a)"
      using h by (simp add: hub_wf_but_def)
    then show ?thesis using d unfolding x' by auto
  qed
  have "int (length (registry_hubs ?R)) \<le> o_MaxSessions (sv_opts s)"
    using inv assms(2,3) by (simp add: registry_hubs_def relay_inv_def)
  moreover have "int (length (concat (map ?row (registry_hubs ?R)))) \<le> int (length (registry_hubs ?R))"
    using len by simp
  moreover have "\<forall>x \<in> set (concat (map ?row (registry_hubs ?R))). ss_Participants x = int (length (ss_Clients x)) \<and>
        (ss_Participants x = 0 \<or> ss_Participants x \<le> ss_MaxParticipants x) \<and> distinct (map cst_ID (ss_Clients x))"
    unfolding set_concat set_map using row by blast
  ultimately show ?thesis
    unfolding Server_Stats_def Let_def Stats.select_convs by (intro conjI)
qed

theorem Server_Stats_within_limits_witness:
  "st_ActiveSessions (Server_Stats (\<lambda>a. quiescent_answer (hc_hub (rl_heap demo_relay ! a))) 7
     \<lparr>sv_opts = demo_opts, sv_relay = demo_relay, sv_limiter = newIPLimiter 1 5 :: (int, int) ipLimiter,
      sv_started = 0, sv_stopped = False\<rparr>) \<le> 1000"
proof -
  let ?s = "\<lparr>sv_opts = demo_opts, sv_relay = demo_relay, sv_limiter = newIPLimiter 1 5 :: (int, int) ipLimiter,
      sv_started = 0, sv_stopped = False\<rparr>"
  have "rg_maxCount (rl_reg demo_relay) = 1000" "o_MaxSessions demo_opts = 1000"
    by (simp_all add: demo_relay_def registry_create_def newRegistry_def demo_opts_def)
  with Server_Stats_within_limits [of demo_codecs ?s 7] demo_relay_reachable [of demo_codecs] show ?thesis
    by (simp add: Let_def Server_Stats_def)
qed

end
