(* ===== verification/GoText.thy ===== *)
theory GoText
  imports Prelude
begin

text \<open>
  The parts of Go's text packages that the program uses. User text is a list of runes (code
  points); \<open>utf8\<close> gives its bytes. The case mapping of the Unicode tables beyond ASCII is a
  parameter \<open>U\<close>. Decimal numerals are those of the formatting verb for integers.
\<close>

type_synonym rune = nat
type_synonym runes = "nat list"

section \<open>UTF-8\<close>

definition utf8_rune :: "rune \<Rightarrow> nat list" where
  "utf8_rune r =
     (if r < 0x80 then [r]
      else if r < 0x800 then [0xC0 + r div 64, 0x80 + r mod 64]
      else if r < 0x10000 then [0xE0 + r div 4096, 0x80 + r div 64 mod 64, 0x80 + r mod 64]
      else [0xF0 + r div 262144, 0x80 + r div 4096 mod 64, 0x80 + r div 64 mod 64, 0x80 + r mod 64])"

definition utf8 :: "runes \<Rightarrow> bytes" where
  "utf8 rs = map word_of_nat (concat (map utf8_rune rs))"

fun utf8_decode :: "nat list \<Rightarrow> runes" where
  "utf8_decode [] = []"
| "utf8_decode (a # bs) =
     (if a < 0x80 then a # utf8_decode bs
      else if a < 0xE0 then
        (case bs of b # r \<Rightarrow> ((a - 0xC0) * 64 + (b - 0x80)) # utf8_decode (drop 1 bs) | _ \<Rightarrow> [])
      else if a < 0xF0 then
        (case bs of b # c # r \<Rightarrow> ((a - 0xE0) * 4096 + (b - 0x80) * 64 + (c - 0x80)) # utf8_decode (drop 2 bs) | _ \<Rightarrow> [])
      else
        (case bs of b # c # d # r \<Rightarrow>
            ((a - 0xF0) * 262144 + (b - 0x80) * 4096 + (c - 0x80) * 64 + (d - 0x80)) # utf8_decode (drop 3 bs)
         | _ \<Rightarrow> []))"

definition valid_rune :: "rune \<Rightarrow> bool" where
  "valid_rune r \<longleftrightarrow> r < 0x110000"

lemma split64: "r div 4096 * 4096 + r div 64 mod 64 * 64 + r mod 64 = (r :: nat)"
proof -
  have "r div 4096 = r div 64 div 64" by (simp add: div_mult2_eq [symmetric])
  then have "r div 4096 * 64 + r div 64 mod 64 = r div 64" by simp
  then have "r div 4096 * 4096 + r div 64 mod 64 * 64 = r div 64 * 64" by simp
  then show ?thesis by simp
qed

lemma split64_4: "r div 262144 * 262144 + r div 4096 mod 64 * 4096 + r div 64 mod 64 * 64 + r mod 64 = (r :: nat)"
proof -
  have "r div 262144 = r div 4096 div 64" by (simp add: div_mult2_eq [symmetric])
  then have "r div 262144 * 64 + r div 4096 mod 64 = r div 4096" by simp
  then have "r div 262144 * 262144 + r div 4096 mod 64 * 4096 = r div 4096 * 4096" by simp
  with split64 [of r] show ?thesis by simp
qed

lemma utf8_decode_rune: "valid_rune r \<Longrightarrow> utf8_decode (utf8_rune r @ bs) = r # utf8_decode bs"
proof -
  assume v: "valid_rune r"
  consider "r < 0x80" | "0x80 \<le> r" "r < 0x800" | "0x800 \<le> r" "r < 0x10000" | "0x10000 \<le> r" by linarith
  then show ?thesis
  proof cases
    case 2
    then have "r div 64 < 32" by (simp add: less_mult_imp_div_less)
    with 2 show ?thesis by (simp add: utf8_rune_def)
  next
    case 3
    then have "r div 4096 < 16" by (simp add: less_mult_imp_div_less)
    with 3 split64 [of r] show ?thesis by (simp add: utf8_rune_def)
  next
    case 4
    with split64_4 [of r] show ?thesis by (simp add: utf8_rune_def)
  qed (simp add: utf8_rune_def)
qed

lemma utf8_decode_concat: "\<forall>r \<in> set rs. valid_rune r \<Longrightarrow> utf8_decode (concat (map utf8_rune rs)) = rs"
  by (induction rs) (simp_all add: utf8_decode_rune)

lemma utf8_rune_byte: "valid_rune r \<Longrightarrow> b \<in> set (utf8_rune r) \<Longrightarrow> b < 256"
proof -
  assume v: "valid_rune r" and b: "b \<in> set (utf8_rune r)"
  have m: "r mod 64 < 64" "r div 64 mod 64 < 64" "r div 4096 mod 64 < 64" by simp_all
  have "r < 0x800 \<Longrightarrow> r div 64 < 32" "r < 0x10000 \<Longrightarrow> r div 4096 < 16" "r div 262144 < 5"
    using v by (simp_all add: valid_rune_def less_mult_imp_div_less)
  with b m show ?thesis by (auto simp: utf8_rune_def split: if_splits)
qed

lemma utf8_inject:
  assumes "\<forall>r \<in> set rs. valid_rune r" and "\<forall>r \<in> set ss. valid_rune r"
  shows "utf8 rs = utf8 ss \<longleftrightarrow> rs = ss"
proof
  assume "utf8 rs = utf8 ss"
  then have "map unat (utf8 rs) = map unat (utf8 ss)" by simp
  moreover have "map unat (utf8 xs) = concat (map utf8_rune xs)" if "\<forall>r \<in> set xs. valid_rune r" for xs
    unfolding utf8_def map_map comp_def
    by (rule map_idI) (use that utf8_rune_byte in \<open>auto simp: unat_byte_of_nat\<close>)
  ultimately show "rs = ss" using assms utf8_decode_concat by metis
qed simp

lemma utf8_append [simp]: "utf8 (xs @ ys) = utf8 xs @ utf8 ys"
  by (simp add: utf8_def)

section \<open>Character classes\<close>

definition runes_of :: "string \<Rightarrow> runes" where
  "runes_of s = map of_char s"

definition IsSpace :: "rune \<Rightarrow> bool" where
  "IsSpace r \<longleftrightarrow> (0x09 \<le> r \<and> r \<le> 0x0D) \<or> r = 0x20 \<or> r = 0x85 \<or> r = 0xA0 \<or> r = 0x1680 \<or>
     (0x2000 \<le> r \<and> r \<le> 0x200A) \<or> r = 0x2028 \<or> r = 0x2029 \<or> r = 0x202F \<or> r = 0x205F \<or> r = 0x3000"

definition IsControl :: "rune \<Rightarrow> bool" where
  "IsControl r \<longleftrightarrow> r < 0x20 \<or> (0x7F \<le> r \<and> r < 0xA0)"

definition rune_lower :: "(rune \<Rightarrow> rune) \<Rightarrow> rune \<Rightarrow> rune" where
  "rune_lower U r = (if r < 0x80 then (if 0x41 \<le> r \<and> r \<le> 0x5A then r + 0x20 else r) else U r)"

definition ToLower :: "(rune \<Rightarrow> rune) \<Rightarrow> runes \<Rightarrow> runes" where
  "ToLower U = map (rune_lower U)"

definition TrimSpace :: "runes \<Rightarrow> runes" where
  "TrimSpace s = rev (dropWhile IsSpace (rev (dropWhile IsSpace s)))"

text \<open>\<open>strings.Fields\<close>: the maximal runs of non-space runes.\<close>

function Fields :: "runes \<Rightarrow> runes list" where
  "Fields s =
     (let t = dropWhile IsSpace s
      in if t = [] then [] else takeWhile (\<lambda>r. \<not> IsSpace r) t # Fields (dropWhile (\<lambda>r. \<not> IsSpace r) t))"
  by pat_completeness auto
termination
proof (relation "measure length", goal_cases)
  case (2 s t)
  from 2(2) obtain x xs where t: "t = x # xs" unfolding neq_Nil_conv by blast
  have "\<not> IsSpace (hd t)" using 2 hd_dropWhile [of IsSpace s] by (simp only: not_False_eq_True)
  then have "\<not> IsSpace x" by (simp add: t)
  then have "length (dropWhile (\<lambda>r. \<not> IsSpace r) t) \<le> length xs" by (simp add: t length_dropWhile_le)
  moreover have "length t \<le> length s" using 2(1) length_dropWhile_le [of IsSpace s] by simp
  ultimately show ?case by (simp add: t)
qed simp

declare Fields.simps [simp del]

lemma TrimSpace_ends:
  assumes "TrimSpace s \<noteq> []"
  shows "\<not> IsSpace (hd (TrimSpace s))" "\<not> IsSpace (last (TrimSpace s))"
proof -
  let ?t = "dropWhile IsSpace s"
  have ne: "dropWhile IsSpace (rev ?t) \<noteq> []" using assms by (simp add: TrimSpace_def)
  from hd_dropWhile [OF this] show "\<not> IsSpace (last (TrimSpace s))"
    by (simp add: TrimSpace_def last_rev)
  have t: "?t \<noteq> []" using ne by (metis dropWhile.simps(1) rev.simps(1))
  obtain pre where pre: "rev ?t = pre @ dropWhile IsSpace (rev ?t)"
    by (metis takeWhile_dropWhile_id)
  then have "?t = rev (dropWhile IsSpace (rev ?t)) @ rev pre" by (metis rev_append rev_rev_ident)
  then have "hd (TrimSpace s) = hd ?t" using ne unfolding TrimSpace_def by (metis hd_append2 rev_is_Nil_conv)
  then show "\<not> IsSpace (hd (TrimSpace s))" using hd_dropWhile [OF t] by simp
qed

lemma TrimSpace_id: "s = [] \<or> (\<not> IsSpace (hd s) \<and> \<not> IsSpace (last s)) \<Longrightarrow> TrimSpace s = s"
proof -
  assume s: "s = [] \<or> (\<not> IsSpace (hd s) \<and> \<not> IsSpace (last s))"
  have drop: "dropWhile IsSpace t = t" if "t = [] \<or> \<not> IsSpace (hd t)" for t
    using that by (cases t) auto
  show ?thesis using s by (auto simp: TrimSpace_def drop hd_rev)
qed

lemma TrimSpace_idem [simp]: "TrimSpace (TrimSpace s) = TrimSpace s"
  by (rule TrimSpace_id) (use TrimSpace_ends [of s] in blast)

section \<open>Decimal numerals\<close>

fun dec :: "nat \<Rightarrow> string" where
  "dec n = (if n < 10 then [char_of (48 + n)] else dec (n div 10) @ [char_of (48 + n mod 10)])"

declare dec.simps [simp del]

definition read_dec :: "string \<Rightarrow> nat" where
  "read_dec s = foldl (\<lambda>a c. 10 * a + (of_char c - 48)) 0 s"

lemma read_dec_snoc [simp]: "read_dec (s @ [c]) = 10 * read_dec s + (of_char c - 48)"
  by (simp add: read_dec_def)

lemma read_dec_dec [simp]: "read_dec (dec n) = n"
proof (induction n rule: dec.induct)
  case (1 n)
  show ?case
  proof (cases "n < 10")
    case True
    then show ?thesis by (subst dec.simps) (simp add: read_dec_def)
  next
    case False
    then have "read_dec (dec n) = 10 * (n div 10) + n mod 10"
      using 1 by (subst dec.simps) simp
    then show ?thesis by simp
  qed
qed

lemma dec_inject [simp]: "dec m = dec n \<longleftrightarrow> m = n"
  by (metis read_dec_dec)

definition is_digit :: "char \<Rightarrow> bool" where
  "is_digit c \<longleftrightarrow> 48 \<le> (of_char c :: nat) \<and> (of_char c :: nat) < 58"

lemma dec_digits: "c \<in> set (dec n) \<Longrightarrow> is_digit c"
proof (induction n rule: dec.induct)
  case (1 n)
  have "n mod 10 < 10" by simp
  with 1 show ?case
    by (subst (asm) (2) dec.simps) (auto simp: is_digit_def split: if_splits)
qed

lemma dec_nonempty [simp]: "dec n \<noteq> []"
  by (subst dec.simps) simp

end
