(* ===== verification/Sha256.thy ===== *)
theory Sha256
  imports Prelude
begin

text \<open>
  SHA-256 and HMAC-SHA256 on byte lists, as the Go standard library packages crypto/sha256 and
  crypto/hmac compute them (FIPS 180-4 and 198-1), executable. The phrase and the dashboard hash
  with them.
\<close>

unbundle bit_operations_syntax

text \<open>
  The standard takes its constants from the first primes: the first 32 fractional bits of the
  cube roots of 64 of them for the rounds, and of the square roots of 8 of them for the start.
  They are computed here from that description.
\<close>

fun root_bits :: "nat \<Rightarrow> nat \<Rightarrow> nat \<Rightarrow> nat \<Rightarrow> nat" where
  "root_bits k n 0 r = r"
| "root_bits k n (Suc b) r = root_bits k n b (if (r + 2 ^ b) ^ k \<le> n then r + 2 ^ b else r)"

definition fraction_of_root :: "nat \<Rightarrow> nat \<Rightarrow> uint32" where
  "fraction_of_root k p = word_of_nat (root_bits k (p * 2 ^ (32 * k)) 40 0)"

definition first_primes :: "nat list" where
  "first_primes = filter (\<lambda>p. list_all (\<lambda>d. p mod d \<noteq> 0) [2..<p]) [2..<312]"

definition sha_K :: "uint32 list" where
  "sha_K = map (fraction_of_root 3) first_primes"

definition rotr :: "nat \<Rightarrow> uint32 \<Rightarrow> uint32" where
  "rotr n x = drop_bit n x OR push_bit (32 - n) x"

definition small_sigma0 :: "uint32 \<Rightarrow> uint32" where
  "small_sigma0 x = rotr 7 x XOR rotr 18 x XOR drop_bit 3 x"

definition small_sigma1 :: "uint32 \<Rightarrow> uint32" where
  "small_sigma1 x = rotr 17 x XOR rotr 19 x XOR drop_bit 10 x"

definition big_sigma0 :: "uint32 \<Rightarrow> uint32" where
  "big_sigma0 x = rotr 2 x XOR rotr 13 x XOR rotr 22 x"

definition big_sigma1 :: "uint32 \<Rightarrow> uint32" where
  "big_sigma1 x = rotr 6 x XOR rotr 11 x XOR rotr 25 x"

text \<open>The message schedule, kept with the most recent word first.\<close>

fun schedule :: "nat \<Rightarrow> uint32 list \<Rightarrow> uint32 list" where
  "schedule 0 ws = ws"
| "schedule (Suc n) ws =
     schedule n ((small_sigma1 (ws ! 1) + ws ! 6 + small_sigma0 (ws ! 14) + ws ! 15) # ws)"

type_synonym sha_state = "uint32 \<times> uint32 \<times> uint32 \<times> uint32 \<times> uint32 \<times> uint32 \<times> uint32 \<times> uint32"

fun sha_round :: "uint32 \<times> uint32 \<Rightarrow> sha_state \<Rightarrow> sha_state" where
  "sha_round (k, w) (a, b, c, d, e, f, g, h) =
     (let t1 = h + big_sigma1 e + ((e AND f) XOR (NOT e AND g)) + k + w;
          t2 = big_sigma0 a + ((a AND b) XOR (a AND c) XOR (b AND c))
      in (t1 + t2, a, b, c, d + t1, e, f, g))"

fun sha_add :: "sha_state \<Rightarrow> sha_state \<Rightarrow> sha_state" where
  "sha_add (a, b, c, d, e, f, g, h) (a', b', c', d', e', f', g', h') =
     (a + a', b + b', c + c', d + d', e + e', f + f', g + g', h + h')"

definition sha_init :: sha_state where
  "sha_init =
     (case map (fraction_of_root 2) (take 8 first_primes) of
        [a, b, c, d, e, f, g, h] \<Rightarrow> (a, b, c, d, e, f, g, h)
      | _ \<Rightarrow> (0, 0, 0, 0, 0, 0, 0, 0))"

fun words_of :: "bytes \<Rightarrow> uint32 list" where
  "words_of (a # b # c # d # rest) = of_be32 [a, b, c, d] # words_of rest"
| "words_of _ = []"

definition sha_block :: "bytes \<Rightarrow> sha_state \<Rightarrow> sha_state" where
  "sha_block blk st =
     sha_add st (fold sha_round (zip sha_K (rev (schedule 48 (rev (words_of blk))))) st)"

function sha_blocks :: "bytes \<Rightarrow> sha_state \<Rightarrow> sha_state" where
  "sha_blocks bs st = (if length bs < 64 then st else sha_blocks (drop 64 bs) (sha_block (take 64 bs) st))"
  by pat_completeness auto
termination
  by (relation "measure (\<lambda>(bs, st). length bs)") auto

declare sha_blocks.simps [simp del]

definition be64 :: "uint64 \<Rightarrow> bytes" where
  "be64 w = be32 (ucast (drop_bit 32 w)) @ be32 (ucast w)"

text \<open>Padding: a one bit, zeros up to 56 modulo 64, the bit length.\<close>

definition sha_pad :: "bytes \<Rightarrow> bytes" where
  "sha_pad bs =
     bs @ 0x80 # replicate ((119 - length bs mod 64) mod 64) 0 @ be64 (word_of_nat (8 * length bs))"

fun sha_out :: "sha_state \<Rightarrow> bytes" where
  "sha_out (a, b, c, d, e, f, g, h) =
     be32 a @ be32 b @ be32 c @ be32 d @ be32 e @ be32 f @ be32 g @ be32 h"

definition sha256 :: "bytes \<Rightarrow> bytes" where
  "sha256 bs = sha_out (sha_blocks (sha_pad bs) sha_init)"

lemma length_sha_out: "length (sha_out st) = 32"
  by (cases st rule: sha_out.cases) simp

lemma length_sha256 [simp]: "length (sha256 bs) = 32"
  by (simp add: sha256_def length_sha_out)

text \<open>The padded message is a whole number of blocks, so no byte of it is left out.\<close>

lemma length_sha_pad: "64 dvd length (sha_pad bs)"
proof -
  have "length (sha_pad bs) = length bs + 9 + (119 - length bs mod 64) mod 64"
    by (simp add: sha_pad_def be64_def)
  moreover have "(length bs + 9 + (119 - length bs mod 64) mod 64) mod 64 = 0"
  proof -
    let ?r = "length bs mod 64"
    have "(length bs + 9 + (119 - ?r) mod 64) mod 64 = (length bs + 9 + (119 - ?r)) mod 64"
      by (rule mod_add_right_eq)
    also have "\<dots> = (length bs + (9 + (119 - ?r))) mod 64"
      by (simp only: add.assoc)
    also have "\<dots> = (?r + (9 + (119 - ?r))) mod 64"
      by (simp only: mod_add_left_eq)
    also have "\<dots> = (?r + 9 + (119 - ?r)) mod 64"
      by (simp only: add.assoc)
    also have "?r + 9 + (119 - ?r) = 128"
      using mod_less_divisor [of 64 "length bs"] by linarith
    also have "(128 :: nat) mod 64 = 0" by simp
    finally show ?thesis .
  qed
  ultimately show ?thesis by (simp only: dvd_eq_mod_eq_0)
qed

section \<open>HMAC\<close>

definition hmac_key :: "bytes \<Rightarrow> bytes" where
  "hmac_key k = (let k' = (if length k > 64 then sha256 k else k) in k' @ replicate (64 - length k') 0)"

definition hmac_sha256 :: "bytes \<Rightarrow> bytes \<Rightarrow> bytes" where
  "hmac_sha256 k msg =
     sha256 (map (\<lambda>b. b XOR 0x5c) (hmac_key k) @ sha256 (map (\<lambda>b. b XOR 0x36) (hmac_key k) @ msg))"

lemma length_hmac_sha256 [simp]: "length (hmac_sha256 k msg) = 32"
  by (simp add: hmac_sha256_def)

end
