(* ===== verification/Phrase.thy ===== *)
theory Phrase
  imports GoText Sha256 Wire
begin

text \<open>
  Code phrases and the session ids derived from them (src/phrase/phrase.go). The embedded word
  list is an argument, as are the numbers drawn by crypto/rand; a draw outside the range that
  \<open>randInt\<close> can return gives \<open>None\<close>, as does an empty word list, for which it panics.
\<close>

section \<open>Definitions\<close>

definition alpha_word :: "runes \<Rightarrow> bool" where
  "alpha_word w \<longleftrightarrow> w \<noteq> [] \<and> (\<forall>r \<in> set w. 0x61 \<le> r \<and> r \<le> 0x7A)"

definition words :: "runes \<Rightarrow> runes list" where
  "words wordsFile = filter alpha_word (Fields wordsFile)"

definition randInt :: "nat \<Rightarrow> nat \<Rightarrow> nat option" where
  "randInt n v = (if v < n then Some v else None)"

definition dec02 :: "nat \<Rightarrow> string" where
  "dec02 n = (if n < 10 then CHR ''0'' # dec n else dec n)"

definition phrase_New :: "runes \<Rightarrow> nat \<Rightarrow> nat \<Rightarrow> nat \<Rightarrow> runes option" where
  "phrase_New wordsFile v1 v2 v3 =
     (let ws = words wordsFile
      in case (randInt (length ws) v1, randInt 100 v2, randInt (length ws) v3) of
           (Some i, Some n, Some j) \<Rightarrow>
             Some (ws ! i @ runes_of ''-'' @ runes_of (dec02 n) @ runes_of ''-'' @ ws ! j)
         | _ \<Rightarrow> None)"

definition Canonical :: "(rune \<Rightarrow> rune) \<Rightarrow> runes \<Rightarrow> runes" where
  "Canonical U phrase = ToLower U (TrimSpace phrase)"

definition session_preimage :: "(rune \<Rightarrow> rune) \<Rightarrow> runes \<Rightarrow> runes \<Rightarrow> bytes" where
  "session_preimage U protocol phrase =
     utf8 (protocol @ runes_of ''/session-id'' @ [0] @ Canonical U phrase)"

definition SessionID_of :: "(rune \<Rightarrow> rune) \<Rightarrow> runes \<Rightarrow> runes \<Rightarrow> SessionID" where
  "SessionID_of U protocol phrase = take 16 (sha256 (session_preimage U protocol phrase))"

section \<open>Generated phrases\<close>

lemma words_alpha: "w \<in> set (words f) \<Longrightarrow> alpha_word w"
  by (simp add: words_def)

lemma phrase_New_Some:
  assumes "phrase_New f v1 v2 v3 = Some p"
  shows "v1 < length (words f)" "v2 < 100" "v3 < length (words f)"
    "p = words f ! v1 @ [45] @ runes_of (dec02 v2) @ [45] @ words f ! v3"
  using assms
  by (auto simp: phrase_New_def randInt_def runes_of_def Let_def split: if_splits option.splits)

lemma digit_runes: "r \<in> set (runes_of (dec02 n)) \<Longrightarrow> 48 \<le> r \<and> r < 58"
  by (auto simp: runes_of_def dec02_def is_digit_def dest!: dec_digits split: if_splits)

lemma runes_of_inject [simp]: "runes_of s = runes_of t \<longleftrightarrow> s = t"
  unfolding runes_of_def by (rule inj_map_eq_map) (simp add: inj_def)

lemma dec02_inject: "m < 100 \<Longrightarrow> n < 100 \<Longrightarrow> dec02 m = dec02 n \<Longrightarrow> m = n"
proof -
  have r: "read_dec (dec02 k) = k" for k
  proof (cases "k < 10")
    case True
    then have "dec k = [char_of (48 + k)]" by (simp add: dec.simps)
    with True show ?thesis by (simp add: dec02_def read_dec_def)
  qed (simp add: dec02_def)
  show "dec02 m = dec02 n \<Longrightarrow> m = n" by (metis r)
qed

lemma append_sep_inject:
  assumes "x \<notin> set a" and "x \<notin> set b" and "a @ x # c = b @ x # d"
  shows "a = b \<and> c = d"
proof -
  have "takeWhile (\<lambda>y. y \<noteq> x) (a @ x # c) = a" "takeWhile (\<lambda>y. y \<noteq> x) (b @ x # d) = b"
    using assms(1,2) by (auto simp: takeWhile_append)
  with assms(3) show ?thesis by (metis append_same_eq list.inject same_append_eq)
qed

lemma phrase_New_parts:
  assumes "phrase_New f v1 v2 v3 = Some p" and "phrase_New f w1 w2 w3 = Some p"
  shows "words f ! v1 = words f ! w1" "v2 = w2" "words f ! v3 = words f ! w3"
proof -
  note v = phrase_New_Some [OF assms(1)] and w = phrase_New_Some [OF assms(2)]
  have a: "45 \<notin> set (words f ! i)" if "i < length (words f)" for i
    using words_alpha [OF nth_mem [OF that]] by (auto simp: alpha_word_def)
  have d: "45 \<notin> set (runes_of (dec02 n))" for n by (auto dest: digit_runes)
  have "words f ! v1 @ 45 # (runes_of (dec02 v2) @ 45 # words f ! v3) =
        words f ! w1 @ 45 # (runes_of (dec02 w2) @ 45 # words f ! w3)"
    using v(4) w(4) by simp
  from append_sep_inject [OF a [OF v(1)] a [OF w(1)] this]
  have 1: "words f ! v1 = words f ! w1"
    and rest: "runes_of (dec02 v2) @ 45 # words f ! v3 = runes_of (dec02 w2) @ 45 # words f ! w3"
    by simp_all
  from append_sep_inject [OF d d rest] have "dec02 v2 = dec02 w2" "words f ! v3 = words f ! w3" by simp_all
  with 1 v(2) w(2) show "words f ! v1 = words f ! w1" "v2 = w2" "words f ! v3 = words f ! w3"
    by (simp_all add: dec02_inject)
qed

text \<open>
  The phrase space is as large as the comment says: with a list of distinct words, every
  combination of the three draws gives a different phrase, so there are exactly 100 times the
  square of the number of (purely alphabetic) words.
\<close>

theorem phrase_space:
  assumes "distinct (words f)"
  shows "card {p. \<exists>i n j. phrase_New f i n j = Some p} = 100 * length (words f) ^ 2"
proof -
  let ?D = "{..<length (words f)} \<times> {..<100 :: nat} \<times> {..<length (words f)}"
  let ?g = "\<lambda>(i, n, j). the (phrase_New f i n j)"
  have some: "\<exists>p. phrase_New f i n j = Some p" if "i < length (words f)" "n < 100" "j < length (words f)" for i n j
    using that by (simp add: phrase_New_def randInt_def Let_def)
  have "inj_on ?g ?D"
  proof (rule inj_onI, clarsimp)
    fix i n j i' n' j'
    assume b: "i < length (words f)" "n < 100" "j < length (words f)"
      "i' < length (words f)" "n' < 100" "j' < length (words f)"
      and eq: "the (phrase_New f i n j) = the (phrase_New f i' n' j')"
    obtain p where "phrase_New f i n j = Some p" "phrase_New f i' n' j' = Some p"
      using some [OF b(1-3)] some [OF b(4-6)] eq by auto
    from phrase_New_parts [OF this] b assms show "i = i' \<and> n = n' \<and> j = j'"
      by (simp add: nth_eq_iff_index_eq)
  qed
  moreover have "{p. \<exists>i n j. phrase_New f i n j = Some p} = ?g ` ?D"
  proof (intro set_eqI iffI)
    fix p assume "p \<in> {p. \<exists>i n j. phrase_New f i n j = Some p}"
    then obtain i n j where p: "phrase_New f i n j = Some p" by blast
    from phrase_New_Some(1-3) [OF p] have "(i, n, j) \<in> ?D" by simp
    moreover have "p = ?g (i, n, j)" using p by simp
    ultimately show "p \<in> ?g ` ?D" by blast
  next
    fix p assume "p \<in> ?g ` ?D"
    then obtain i n j where "i < length (words f)" "n < 100" "j < length (words f)"
      and p: "p = the (phrase_New f i n j)" by auto
    with some [of i n j] show "p \<in> {p. \<exists>i n j. phrase_New f i n j = Some p}" by auto
  qed
  ultimately show ?thesis
    by (simp add: card_image card_cartesian_product power2_eq_square)
qed

section \<open>Canonical form\<close>

text \<open>What is used of the case tables: they are idempotent and keep white space apart.\<close>

definition unicode_ok :: "(rune \<Rightarrow> rune) \<Rightarrow> bool" where
  "unicode_ok U \<longleftrightarrow> (\<forall>r \<ge> 0x80. rune_lower U (U r) = U r \<and> IsSpace (U r) = IsSpace r)"

lemma rune_lower_idem: "unicode_ok U \<Longrightarrow> rune_lower U (rune_lower U r) = rune_lower U r"
  by (auto simp: unicode_ok_def rune_lower_def [of U r]) (auto simp: rune_lower_def)

lemma IsSpace_rune_lower: "unicode_ok U \<Longrightarrow> IsSpace (rune_lower U r) = IsSpace r"
  by (auto simp: unicode_ok_def rune_lower_def IsSpace_def)

lemma TrimSpace_ToLower: "unicode_ok U \<Longrightarrow> TrimSpace (ToLower U s) = ToLower U (TrimSpace s)"
proof -
  assume U: "unicode_ok U"
  have "dropWhile IsSpace (map (rune_lower U) t) = map (rune_lower U) (dropWhile IsSpace t)" for t
    using IsSpace_rune_lower [OF U] by (induction t) auto
  then show ?thesis by (simp add: TrimSpace_def ToLower_def rev_map)
qed

text \<open>
  Canonical form is a normal form, and generated phrases are already in it: canonicalising
  twice changes nothing, surrounding white space and letter case do not matter, and a freshly
  generated phrase is its own canonical form, so both sides of a session hash the same text.
\<close>

theorem Canonical_normal_form:
  assumes "unicode_ok U"
  shows "Canonical U (Canonical U s) = Canonical U s \<and>
     Canonical U (ToLower U s) = Canonical U s \<and> Canonical U (TrimSpace s) = Canonical U s \<and>
     (phrase_New f i n j = Some p \<longrightarrow> Canonical U p = p)"
proof -
  have idem: "ToLower U (ToLower U t) = ToLower U t" for t
    using rune_lower_idem [OF assms] by (simp add: ToLower_def)
  have "Canonical U p = p" if p: "phrase_New f i n j = Some p"
  proof -
    note s = phrase_New_Some [OF p]
    have al: "\<forall>r \<in> set (words f ! k). 0x61 \<le> r \<and> r \<le> 0x7A" "words f ! k \<noteq> []" if "k < length (words f)" for k
      using words_alpha [OF nth_mem [OF that]] by (auto simp: alpha_word_def)
    have low: "\<forall>r \<in> set p. 45 \<le> r \<and> r \<le> 0x7A \<and> \<not> (0x41 \<le> r \<and> r \<le> 0x5A)"
      using al(1) [OF s(1)] al(1) [OF s(3)] digit_runes [of _ n] unfolding s(4) by fastforce
    then have "rune_lower U r = r" if "r \<in> set p" for r
      using that by (auto simp: rune_lower_def)
    then have "ToLower U p = p" by (simp add: ToLower_def map_idI)
    moreover have "\<not> IsSpace r" if "r \<in> set p" for r
      using low that by (auto simp: IsSpace_def)
    moreover have "p \<noteq> []" using s(4) by simp
    ultimately have "TrimSpace p = p" by (intro TrimSpace_id) simp
    with \<open>ToLower U p = p\<close> show ?thesis by (simp add: Canonical_def)
  qed
  then show ?thesis
    by (simp add: Canonical_def TrimSpace_ToLower [OF assms] idem)
qed

section \<open>Session ids\<close>

lemma TrimSpace_subset: "set (TrimSpace s) \<subseteq> set s"
  unfolding TrimSpace_def using set_dropWhileD by (metis set_rev subsetI)

text \<open>
  C38. Session ids are domain separated: an id has 16 bytes, and the hashed texts of two
  protocol and phrase pairs are equal exactly if the protocols are equal and the phrases have
  the same canonical form (for protocol labels without a NUL and valid code points).
\<close>

theorem SessionID_domain_separated:
  assumes "0 \<notin> set p1 \<union> set p2"
    and "\<forall>r \<in> set p1 \<union> set p2 \<union> set (Canonical U s1) \<union> set (Canonical U s2). valid_rune r"
  shows "length (SessionID_of U p1 s1) = 16 \<and>
     (session_preimage U p1 s1 = session_preimage U p2 s2 \<longleftrightarrow> p1 = p2 \<and> Canonical U s1 = Canonical U s2)"
proof -
  let ?l = "runes_of ''/session-id''"
  have lab: "0 \<notin> set ?l" "\<forall>r \<in> set ?l. valid_rune r"
    by (simp_all add: runes_of_def valid_rune_def)
  have "session_preimage U p1 s1 = session_preimage U p2 s2 \<longleftrightarrow>
      p1 @ ?l @ [0] @ Canonical U s1 = p2 @ ?l @ [0] @ Canonical U s2"
    unfolding session_preimage_def using assms(2) lab
    by (intro utf8_inject) (auto simp: valid_rune_def)
  also have "\<dots> \<longleftrightarrow> p1 = p2 \<and> Canonical U s1 = Canonical U s2"
  proof
    assume "p1 @ ?l @ [0] @ Canonical U s1 = p2 @ ?l @ [0] @ Canonical U s2"
    then have "(p1 @ ?l) @ 0 # Canonical U s1 = (p2 @ ?l) @ 0 # Canonical U s2" by simp
    from append_sep_inject [OF _ _ this] assms(1) lab(1)
    show "p1 = p2 \<and> Canonical U s1 = Canonical U s2" by simp
  qed simp
  finally show ?thesis by (simp add: SessionID_of_def)
qed

section \<open>Closed examples\<close>

lemma demo_words: "words (runes_of ''lion yo-yo maple'') = [runes_of ''lion'', runes_of ''maple'']"
  by (simp add: words_def Fields.simps runes_of_def IsSpace_def alpha_word_def Let_def)

theorem phrase_space_witness:
  "card {p. \<exists>i n j. phrase_New (runes_of ''lion yo-yo maple'') i n j = Some p} = 400"
  using phrase_space [of "runes_of ''lion yo-yo maple''"] by (simp add: demo_words power2_eq_square)

theorem Canonical_normal_form_witness:
  "Canonical (\<lambda>r. r) (Canonical (\<lambda>r. r) (runes_of '' Lion-42-Maple '')) = runes_of ''lion-42-maple''"
proof -
  have U: "unicode_ok (\<lambda>r. r)" by (simp add: unicode_ok_def rune_lower_def)
  have "Canonical (\<lambda>r. r) (runes_of '' Lion-42-Maple '') = runes_of ''lion-42-maple''"
    by (simp add: Canonical_def TrimSpace_def ToLower_def rune_lower_def runes_of_def IsSpace_def)
  with Canonical_normal_form [OF U, of "runes_of '' Lion-42-Maple ''"] show ?thesis by simp
qed

theorem SessionID_domain_separated_witness:
  "session_preimage (\<lambda>r. r) (runes_of ''app/v1'') (runes_of ''lion'') \<noteq>
   session_preimage (\<lambda>r. r) (runes_of ''app/v2'') (runes_of ''lion'')"
  using SessionID_domain_separated [of "runes_of ''app/v1''" "runes_of ''app/v2''" "\<lambda>r. r"
      "runes_of ''lion''" "runes_of ''lion''"]
  by (simp add: runes_of_def Canonical_def TrimSpace_def ToLower_def rune_lower_def IsSpace_def valid_rune_def)

end
