(* ===== verification/Crypto.thy ===== *)
theory Crypto
  imports Phrase DemoCodec
begin

text \<open>
  The security boundary (src/crypto/crypto.go). The PAKE, HKDF and AEAD libraries are parameters,
  with the documented behaviour the code relies on as predicates: two PAKE sides with the same
  password agree on a key, HKDF delivers the requested number of bytes, and an AEAD opens what it
  sealed and nothing sealed with other associated data or under another key. Random bytes are
  arguments.
\<close>

section \<open>The libraries\<close>

record 'p pake =
  InitCurve :: "bytes \<Rightarrow> nat \<Rightarrow> string \<Rightarrow> bytes \<Rightarrow> 'p option"
  pakeBytes :: "'p \<Rightarrow> bytes"
  Update :: "'p \<Rightarrow> bytes \<Rightarrow> 'p option"
  SessionKey :: "'p \<Rightarrow> bytes option"

record aead =
  aeadSeal :: "bytes \<Rightarrow> bytes \<Rightarrow> bytes \<Rightarrow> bytes \<Rightarrow> bytes"
  aeadOpen :: "bytes \<Rightarrow> bytes \<Rightarrow> bytes \<Rightarrow> bytes \<Rightarrow> bytes option"

record 'p cryptolib =
  lib_pake :: "'p pake"
  lib_hkdf :: "bytes \<Rightarrow> bytes \<Rightarrow> bytes \<Rightarrow> nat \<Rightarrow> bytes option"
  lib_aead :: aead

definition pake_agrees :: "'p pake \<Rightarrow> bool" where
  "pake_agrees P \<longleftrightarrow> (\<forall>pw cv r0 r1 a b. InitCurve P pw 0 cv r0 = Some a \<longrightarrow> InitCurve P pw 1 cv r1 = Some b \<longrightarrow>
     (\<exists>b' a' k. Update P b (pakeBytes P a) = Some b' \<and> Update P a (pakeBytes P b') = Some a' \<and>
        SessionKey P a' = Some k \<and> SessionKey P b' = Some k))"

definition pake_inits :: "'p pake \<Rightarrow> bool" where
  "pake_inits P \<longleftrightarrow> (\<forall>pw role r. \<exists>p. InitCurve P pw role ''siec'' r = Some p)"

definition hkdf_delivers :: "(bytes \<Rightarrow> bytes \<Rightarrow> bytes \<Rightarrow> nat \<Rightarrow> bytes option) \<Rightarrow> bool" where
  "hkdf_delivers kdf \<longleftrightarrow> (\<forall>raw salt info. \<exists>k. kdf raw salt info 32 = Some k \<and> length k = 32)"

definition aead_correct :: "aead \<Rightarrow> bool" where
  "aead_correct A \<longleftrightarrow> (\<forall>k n p ad. length k = 32 \<longrightarrow> aeadOpen A k n (aeadSeal A k n p ad) ad = Some p)"

definition aead_binds_ad :: "aead \<Rightarrow> bool" where
  "aead_binds_ad A \<longleftrightarrow> (\<forall>k n p ad ad'. length k = 32 \<longrightarrow> ad \<noteq> ad' \<longrightarrow>
     aeadOpen A k n (aeadSeal A k n p ad) ad' = None)"

definition aead_binds_key :: "aead \<Rightarrow> bool" where
  "aead_binds_key A \<longleftrightarrow> (\<forall>k k' n p ad ad'. length k = 32 \<longrightarrow> length k' = 32 \<longrightarrow> k \<noteq> k' \<longrightarrow>
     aeadOpen A k' n (aeadSeal A k n p ad) ad' = None)"

definition lib_ok :: "'p cryptolib \<Rightarrow> bool" where
  "lib_ok L \<longleftrightarrow> pake_agrees (lib_pake L) \<and> pake_inits (lib_pake L) \<and> hkdf_delivers (lib_hkdf L) \<and>
     aead_correct (lib_aead L) \<and> aead_binds_ad (lib_aead L) \<and> aead_binds_key (lib_aead L)"

section \<open>Pairwise handshake\<close>

type_synonym Key = bytes

definition KeySize :: nat where "KeySize = 32"

definition pakeCurve :: string where "pakeCurve = ''siec''"

datatype crypto_error =
    ErrUnwrap | ErrOpen | ErrPakeInit | ErrPakeUpdate | ErrPakeSessionKey | ErrHkdf | ErrAeadKey

record 'p Joiner =
  j_p :: 'p
  j_protocol :: runes
  j_Flight1 :: bytes

definition NewJoiner :: "'p cryptolib \<Rightarrow> bytes \<Rightarrow> runes \<Rightarrow> runes \<Rightarrow> crypto_error + 'p Joiner" where
  "NewJoiner L rnd protocol phrase =
     (case InitCurve (lib_pake L) (utf8 phrase) 0 pakeCurve rnd of
        None \<Rightarrow> Inl ErrPakeInit
      | Some p \<Rightarrow> Inr \<lparr>j_p = p, j_protocol = protocol, j_Flight1 = pakeBytes (lib_pake L) p\<rparr>)"

definition pairwise_info :: "runes \<Rightarrow> ParticipantID \<Rightarrow> ParticipantID \<Rightarrow> bytes" where
  "pairwise_info protocol lo hi =
     utf8 (protocol @ runes_of (''/pairwise/'' @ dec (unat lo) @ ''/'' @ dec (unat hi)))"

definition derivePairwise :: "'p cryptolib \<Rightarrow> runes \<Rightarrow> bytes \<Rightarrow> SessionID \<Rightarrow> ParticipantID \<Rightarrow> ParticipantID \<Rightarrow>
    crypto_error + Key" where
  "derivePairwise L protocol raw sid a b =
     (let (lo, hi) = (if a > b then (b, a) else (a, b))
      in case lib_hkdf L raw sid (pairwise_info protocol lo hi) KeySize of
           None \<Rightarrow> Inl ErrHkdf
         | Some key \<Rightarrow> Inr key)"

definition Finish :: "'p cryptolib \<Rightarrow> 'p Joiner \<Rightarrow> bytes \<Rightarrow> SessionID \<Rightarrow> ParticipantID \<Rightarrow> ParticipantID \<Rightarrow>
    crypto_error + Key" where
  "Finish L j flight2 sid joinerID hostID =
     (case Update (lib_pake L) (j_p j) flight2 of
        None \<Rightarrow> Inl ErrPakeUpdate
      | Some p \<Rightarrow>
          (case SessionKey (lib_pake L) p of
             None \<Rightarrow> Inl ErrPakeSessionKey
           | Some raw \<Rightarrow> derivePairwise L (j_protocol j) raw sid joinerID hostID))"

definition HostExchange :: "'p cryptolib \<Rightarrow> bytes \<Rightarrow> runes \<Rightarrow> runes \<Rightarrow> bytes \<Rightarrow> SessionID \<Rightarrow>
    ParticipantID \<Rightarrow> ParticipantID \<Rightarrow> crypto_error + Key \<times> bytes" where
  "HostExchange L rnd protocol phrase flight1 sid joinerID hostID =
     (case InitCurve (lib_pake L) (utf8 phrase) 1 pakeCurve rnd of
        None \<Rightarrow> Inl ErrPakeInit
      | Some p0 \<Rightarrow>
          (case Update (lib_pake L) p0 flight1 of
             None \<Rightarrow> Inl ErrPakeUpdate
           | Some p \<Rightarrow>
               (case SessionKey (lib_pake L) p of
                  None \<Rightarrow> Inl ErrPakeSessionKey
                | Some raw \<Rightarrow>
                    (case derivePairwise L protocol raw sid joinerID hostID of
                       Inl e \<Rightarrow> Inl e
                     | Inr key \<Rightarrow> Inr (key, pakeBytes (lib_pake L) p)))))"

section \<open>Group key\<close>

definition NewGroupKey :: "bytes \<Rightarrow> Key" where
  "NewGroupKey rnd = rnd"

definition wrapAD :: "SessionID \<Rightarrow> ParticipantID \<Rightarrow> bytes" where
  "wrapAD sid joinerID = sid @ [Version] @ be32 joinerID"

definition WrapGroupKey :: "'p cryptolib \<Rightarrow> bytes \<Rightarrow> Key \<Rightarrow> Key \<Rightarrow> byte \<Rightarrow> SessionID \<Rightarrow> ParticipantID \<Rightarrow>
    crypto_error + GroupKey" where
  "WrapGroupKey L nonce pwKey groupKey role sid joinerID =
     (if length pwKey \<noteq> KeySize then Inl ErrAeadKey
      else Inr \<lparr>gk_Nonce = nonce,
                gk_Ciphertext = aeadSeal (lib_aead L) pwKey nonce (groupKey @ [role]) (wrapAD sid joinerID)\<rparr>)"

definition UnwrapGroupKey :: "'p cryptolib \<Rightarrow> Key \<Rightarrow> GroupKey \<Rightarrow> SessionID \<Rightarrow> ParticipantID \<Rightarrow>
    crypto_error + Key \<times> byte" where
  "UnwrapGroupKey L pwKey gk sid joinerID =
     (if length pwKey \<noteq> KeySize then Inl ErrAeadKey
      else case aeadOpen (lib_aead L) pwKey (gk_Nonce gk) (gk_Ciphertext gk) (wrapAD sid joinerID) of
             None \<Rightarrow> Inl ErrUnwrap
           | Some plaintext \<Rightarrow>
               if length plaintext \<noteq> KeySize + 1 then Inl ErrUnwrap
               else Inr (take KeySize plaintext, plaintext ! KeySize))"

section \<open>Service traffic\<close>

definition frameAD :: "SessionID \<Rightarrow> ParticipantID \<Rightarrow> bytes" where
  "frameAD sid sender = sid @ [Version] @ be32 sender"

definition Seal :: "'p cryptolib \<Rightarrow> bytes \<Rightarrow> Key \<Rightarrow> bytes \<Rightarrow> SessionID \<Rightarrow> ParticipantID \<Rightarrow>
    crypto_error + SealedFrame" where
  "Seal L nonce groupKey plaintext sid sender =
     (if length groupKey \<noteq> KeySize then Inl ErrAeadKey
      else Inr \<lparr>sf_Nonce = nonce,
                sf_Ciphertext = aeadSeal (lib_aead L) groupKey nonce plaintext (frameAD sid sender)\<rparr>)"

definition Open :: "'p cryptolib \<Rightarrow> Key \<Rightarrow> SealedFrame \<Rightarrow> SessionID \<Rightarrow> ParticipantID \<Rightarrow> crypto_error + bytes" where
  "Open L groupKey sf sid sender =
     (if length groupKey \<noteq> KeySize then Inl ErrAeadKey
      else case aeadOpen (lib_aead L) groupKey (sf_Nonce sf) (sf_Ciphertext sf) (frameAD sid sender) of
             None \<Rightarrow> Inl ErrOpen
           | Some plaintext \<Rightarrow> Inr plaintext)"

section \<open>Associated data and key derivation labels\<close>

lemma frameAD_inject:
  "length s = 16 \<Longrightarrow> length t = 16 \<Longrightarrow> frameAD s p = frameAD t q \<longleftrightarrow> s = t \<and> p = q"
  by (simp add: frameAD_def)

lemma wrapAD_inject:
  "length s = 16 \<Longrightarrow> length t = 16 \<Longrightarrow> wrapAD s p = wrapAD t q \<longleftrightarrow> s = t \<and> p = q"
  by (simp add: wrapAD_def)

lemma derivePairwise_minmax:
  "derivePairwise L pr raw sid a b =
     (case lib_hkdf L raw sid (pairwise_info pr (min a b) (max a b)) KeySize of
        None \<Rightarrow> Inl ErrHkdf | Some key \<Rightarrow> Inr key)"
proof (cases "a > b")
  case True
  then show ?thesis by (simp add: derivePairwise_def min.absorb2 max.absorb1)
next
  case False
  then have "a \<le> b" by simp
  then show ?thesis unfolding derivePairwise_def if_not_P [OF False] by (simp add: min.absorb1 max.absorb2)
qed

lemma derivePairwise_sym: "derivePairwise L pr raw sid a b = derivePairwise L pr raw sid b a"
  by (simp add: derivePairwise_minmax min.commute max.commute)

lemma derivePairwise_delivers:
  assumes "lib_ok L"
  shows "\<exists>k. derivePairwise L pr raw sid a b = Inr k \<and> length k = 32"
proof -
  have "hkdf_delivers (lib_hkdf L)" using assms by (simp add: lib_ok_def)
  then obtain k where "lib_hkdf L raw sid (pairwise_info pr (min a b) (max a b)) 32 = Some k" "length k = 32"
    unfolding hkdf_delivers_def by blast
  then show ?thesis by (simp add: derivePairwise_minmax KeySize_def)
qed

lemma slash_dec_inject: "dec m @ CHR ''/'' # s = dec n @ CHR ''/'' # t \<Longrightarrow> m = n \<and> s = t"
proof -
  assume eq: "dec m @ CHR ''/'' # s = dec n @ CHR ''/'' # t"
  have "CHR ''/'' \<notin> set (dec k)" for k by (auto dest!: dec_digits simp: is_digit_def)
  from append_sep_inject [OF this this eq] show ?thesis by simp
qed

text \<open>
  Pairwise keys are bound to the pair: for one protocol, the key derivation label is the
  same for two pairs of participants exactly if they are the same two participants, in either
  order, so two different pairs of a session never share a label.
\<close>

theorem pairwise_label_binds_pair:
  assumes "\<forall>r \<in> set pr. valid_rune r"
  shows "pairwise_info pr (min a b) (max a b) = pairwise_info pr (min c d) (max c d) \<longleftrightarrow> {a, b} = {c, d}"
proof -
  have v: "\<forall>r \<in> set (runes_of s). valid_rune r" for s
    by (auto simp: runes_of_def valid_rune_def intro: less_trans [of _ 256])
  have "pairwise_info pr x y = pairwise_info pr x' y' \<longleftrightarrow> x = x' \<and> y = y'" for x y x' y'
  proof -
    have "pairwise_info pr x y = pairwise_info pr x' y' \<longleftrightarrow>
        dec (unat x) @ CHR ''/'' # dec (unat y) = dec (unat x') @ CHR ''/'' # dec (unat y')"
      unfolding pairwise_info_def using assms v by (subst utf8_inject) auto
    then show ?thesis
      unfolding word_unat_eq_iff [of x] word_unat_eq_iff [of y] by (auto dest!: slash_dec_inject)
  qed
  moreover have "min a b = min c d \<and> max a b = max c d \<longleftrightarrow> {a, b} = {c, d}"
    by (auto simp: min_def max_def doubleton_eq_iff split: if_splits)
  ultimately show ?thesis by simp
qed

section \<open>Properties\<close>

text \<open>
  When joiner and host use the same protocol and phrase, the host accepts the joiner's flight,
  the joiner accepts the reply, and both end with the same 32-byte pairwise key.
\<close>

lemma exchange_completes:
  assumes "lib_ok L"
  shows "\<exists>j key flight2. NewJoiner L r0 pr phrase = Inr j \<and>
     HostExchange L r1 pr phrase (j_Flight1 j) sid joinerID hostID = Inr (key, flight2) \<and>
     Finish L j flight2 sid joinerID hostID = Inr key \<and> length key = 32"
proof -
  let ?P = "lib_pake L"
  have P: "pake_agrees ?P" "pake_inits ?P" using assms by (simp_all add: lib_ok_def)
  from P(2) obtain a b where ab: "InitCurve ?P (utf8 phrase) 0 pakeCurve r0 = Some a"
    "InitCurve ?P (utf8 phrase) 1 pakeCurve r1 = Some b"
    unfolding pake_inits_def pakeCurve_def by meson
  with P(1) obtain b' a' raw where u: "Update ?P b (pakeBytes ?P a) = Some b'"
    "Update ?P a (pakeBytes ?P b') = Some a'" "SessionKey ?P a' = Some raw" "SessionKey ?P b' = Some raw"
    unfolding pake_agrees_def by meson
  obtain key where "derivePairwise L pr raw sid joinerID hostID = Inr key" "length key = 32"
    using derivePairwise_delivers [OF assms] by blast
  with ab u show ?thesis
    by (simp add: NewJoiner_def HostExchange_def Finish_def)
qed

lemma exchange_agrees:
  assumes "lib_ok L" and "NewJoiner L r0 pr phrase = Inr j"
  shows "\<exists>key flight2. HostExchange L r1 pr phrase (j_Flight1 j) sid joinerID hostID = Inr (key, flight2) \<and>
     Finish L j flight2 sid joinerID hostID = Inr key \<and> length key = 32"
  using exchange_completes [OF assms(1), of r0 pr phrase r1 sid joinerID hostID] assms(2) by auto

lemma Wrap_Unwrap:
  assumes "lib_ok L" and "length pw = 32" and "length sid = 16"
    and "WrapGroupKey L nonce pw key role sid j = Inr gk"
  shows "length key = 32 \<Longrightarrow> UnwrapGroupKey L pw gk sid j = Inr (key, role)"
    and "length sid' = 16 \<Longrightarrow> (sid', j') \<noteq> (sid, j) \<Longrightarrow> UnwrapGroupKey L pw gk sid' j' = Inl ErrUnwrap"
    and "length pw' = 32 \<Longrightarrow> pw' \<noteq> pw \<Longrightarrow> UnwrapGroupKey L pw' gk sid' j' = Inl ErrUnwrap"
proof -
  let ?A = "lib_aead L"
  have A: "aead_correct ?A" "aead_binds_ad ?A" "aead_binds_key ?A" using assms(1) by (simp_all add: lib_ok_def)
  have gk: "gk = \<lparr>gk_Nonce = nonce, gk_Ciphertext = aeadSeal ?A pw nonce (key @ [role]) (wrapAD sid j)\<rparr>"
    using assms(2,4) by (simp add: WrapGroupKey_def KeySize_def)
  show "UnwrapGroupKey L pw gk sid j = Inr (key, role)" if "length key = 32"
    using that A(1) assms(2) by (simp add: UnwrapGroupKey_def gk KeySize_def aead_correct_def nth_append)
  show "UnwrapGroupKey L pw gk sid' j' = Inl ErrUnwrap" if "length sid' = 16" "(sid', j') \<noteq> (sid, j)"
    using that A(2) assms(2,3) wrapAD_inject [of sid sid' j j']
    by (auto simp: UnwrapGroupKey_def gk KeySize_def aead_binds_ad_def)
  show "UnwrapGroupKey L pw' gk sid' j' = Inl ErrUnwrap" if "length pw' = 32" "pw' \<noteq> pw"
    using that A(3) assms(2) by (auto simp: UnwrapGroupKey_def gk KeySize_def aead_binds_key_def)
qed

text \<open>
  Wrapping the group key is lossless and bound to one joiner: the joiner it was wrapped for
  recovers the key and its role byte, and the same blob is refused in any other session, for any
  other joiner and under any other pairwise key (a mistyped phrase).
\<close>

theorem group_key_wrap:
  assumes "lib_ok L" and "length pw = 32" and "length key = 32" and "length sid = 16"
    and "WrapGroupKey L nonce pw key role sid j = Inr gk"
  shows "UnwrapGroupKey L pw gk sid j = Inr (key, role) \<and>
     (\<forall>sid' j'. length sid' = 16 \<longrightarrow> (sid', j') \<noteq> (sid, j) \<longrightarrow> UnwrapGroupKey L pw gk sid' j' = Inl ErrUnwrap) \<and>
     (\<forall>pw' sid' j'. length pw' = 32 \<longrightarrow> pw' \<noteq> pw \<longrightarrow> UnwrapGroupKey L pw' gk sid' j' = Inl ErrUnwrap)"
  using Wrap_Unwrap [OF assms(1,2,4,5)] assms(3) by blast

lemma Seal_Open:
  assumes "lib_ok L" and "length key = 32" and "length sid = 16"
    and "Seal L nonce key pt sid sender = Inr sf"
  shows "Open L key sf sid sender = Inr pt"
    and "length sid' = 16 \<Longrightarrow> (sid', sender') \<noteq> (sid, sender) \<Longrightarrow> Open L key sf sid' sender' = Inl ErrOpen"
    and "length key' = 32 \<Longrightarrow> key' \<noteq> key \<Longrightarrow> Open L key' sf sid' sender' = Inl ErrOpen"
proof -
  let ?A = "lib_aead L"
  have A: "aead_correct ?A" "aead_binds_ad ?A" "aead_binds_key ?A" using assms(1) by (simp_all add: lib_ok_def)
  have sf: "sf = \<lparr>sf_Nonce = nonce, sf_Ciphertext = aeadSeal ?A key nonce pt (frameAD sid sender)\<rparr>"
    using assms(2,4) by (simp add: Seal_def KeySize_def)
  show "Open L key sf sid sender = Inr pt"
    using A(1) assms(2) by (simp add: Open_def sf KeySize_def aead_correct_def)
  show "Open L key sf sid' sender' = Inl ErrOpen" if "length sid' = 16" "(sid', sender') \<noteq> (sid, sender)"
    using that A(2) assms(2,3) frameAD_inject [of sid sid' sender sender']
    by (auto simp: Open_def sf KeySize_def aead_binds_ad_def)
  show "Open L key' sf sid' sender' = Inl ErrOpen" if "length key' = 32" "key' \<noteq> key"
    using that A(3) assms(2) by (auto simp: Open_def sf KeySize_def aead_binds_key_def)
qed

text \<open>
  A sealed frame opens to the same plaintext for its session and sender, and for nobody
  else's: replayed into another session, attributed to another participant or opened under
  another group key it is refused.
\<close>

theorem sealed_frame_bound:
  assumes "lib_ok L" and "length key = 32" and "length sid = 16"
    and "Seal L nonce key pt sid sender = Inr sf"
  shows "Open L key sf sid sender = Inr pt \<and>
     (\<forall>sid' sender'. length sid' = 16 \<longrightarrow> (sid', sender') \<noteq> (sid, sender) \<longrightarrow>
        Open L key sf sid' sender' = Inl ErrOpen) \<and>
     (\<forall>key' sid' sender'. length key' = 32 \<longrightarrow> key' \<noteq> key \<longrightarrow> Open L key' sf sid' sender' = Inl ErrOpen)"
  using Seal_Open [OF assms] by blast

section \<open>A concrete instance\<close>

text \<open>
  An instance of the libraries for the closed examples: the PAKE key is the password, the key
  derivation pads, and a ciphertext carries key, nonce and associated data next to the
  plaintext. It is not secret; it shows that the hypotheses hold together.
\<close>

definition demo_pake :: "(bytes \<times> nat) pake" where
  "demo_pake = \<lparr>InitCurve = (\<lambda>pw role cv r. Some (pw, role)), pakeBytes = (\<lambda>(pw, role). [word_of_nat role]),
     Update = (\<lambda>p f. Some p), SessionKey = (\<lambda>(pw, role). Some pw)\<rparr>"

definition demo_kdf :: "bytes \<Rightarrow> bytes \<Rightarrow> bytes \<Rightarrow> nat \<Rightarrow> bytes option" where
  "demo_kdf raw salt info n = Some (take n (raw @ salt @ info @ replicate n 0))"

definition demo_aead :: aead where
  "demo_aead = \<lparr>aeadSeal = (\<lambda>k n p ad. put_bytes k @ put_bytes n @ put_bytes ad @ p),
     aeadOpen = (\<lambda>k n c ad.
       let pre = put_bytes k @ put_bytes n @ put_bytes ad
       in if take (length pre) c = pre then Some (drop (length pre) c) else None)\<rparr>"

definition demo_lib :: "(bytes \<times> nat) cryptolib" where
  "demo_lib = \<lparr>lib_pake = demo_pake, lib_hkdf = demo_kdf, lib_aead = demo_aead\<rparr>"

lemma put_bytes_prefix: "put_bytes a @ r = put_bytes b @ s \<Longrightarrow> a = b \<and> r = s"
  by (metis get_put_bytes option.inject prod.inject)

lemma demo_open_Some:
  "aeadOpen demo_aead k' n (aeadSeal demo_aead k n p ad) ad' = Some q \<Longrightarrow> k = k' \<and> ad = ad' \<and> p = q"
proof -
  assume o: "aeadOpen demo_aead k' n (aeadSeal demo_aead k n p ad) ad' = Some q"
  let ?pre = "put_bytes k' @ put_bytes n @ put_bytes ad'"
  let ?c = "put_bytes k @ put_bytes n @ put_bytes ad @ p"
  from o have "take (length ?pre) ?c = ?pre" "drop (length ?pre) ?c = q"
    by (auto simp: demo_aead_def Let_def split: if_splits)
  then have "?c = ?pre @ q" by (metis append_take_drop_id)
  then have "put_bytes k @ (put_bytes n @ put_bytes ad @ p) = put_bytes k' @ (put_bytes n @ put_bytes ad' @ q)"
    by simp
  then show ?thesis by (auto dest!: put_bytes_prefix)
qed

lemma demo_lib_ok: "lib_ok demo_lib"
proof -
  have "aead_correct demo_aead" by (simp add: aead_correct_def demo_aead_def)
  moreover have "aead_binds_ad demo_aead" "aead_binds_key demo_aead"
    unfolding aead_binds_ad_def aead_binds_key_def using demo_open_Some by (metis not_None_eq)+
  moreover have "pake_agrees demo_pake" "pake_inits demo_pake"
    by (auto simp: pake_agrees_def pake_inits_def demo_pake_def)
  moreover have "hkdf_delivers demo_kdf" by (auto simp: hkdf_delivers_def demo_kdf_def)
  ultimately show ?thesis by (simp add: lib_ok_def demo_lib_def)
qed

theorem pairwise_label_binds_pair_witness:
  "pairwise_info (runes_of ''app'') (min 1 12) (max 1 12) \<noteq> pairwise_info (runes_of ''app'') (min 11 2) (max 11 2)"
  using pairwise_label_binds_pair [of "runes_of ''app''" 1 12 11 2]
  by (simp add: runes_of_def valid_rune_def doubleton_eq_iff)

theorem group_key_wrap_witness:
  "\<exists>gk. WrapGroupKey demo_lib [] (replicate 32 1) (replicate 32 2) 1 (replicate 16 0) 5 = Inr gk \<and>
     UnwrapGroupKey demo_lib (replicate 32 1) gk (replicate 16 0) 5 = Inr (replicate 32 2, 1)"
proof -
  obtain gk where gk: "WrapGroupKey demo_lib [] (replicate 32 1) (replicate 32 2) 1 (replicate 16 0) 5 = Inr gk"
    by (simp add: WrapGroupKey_def KeySize_def)
  from group_key_wrap [OF demo_lib_ok _ _ _ gk] gk show ?thesis by auto
qed

theorem sealed_frame_bound_witness:
  "\<exists>sf. Seal demo_lib [] (replicate 32 2) [42] (replicate 16 0) 5 = Inr sf \<and>
     Open demo_lib (replicate 32 2) sf (replicate 16 0) 5 = Inr [42] \<and>
     Open demo_lib (replicate 32 2) sf (replicate 16 0) 6 = Inl ErrOpen"
proof -
  obtain sf where sf: "Seal demo_lib [] (replicate 32 2) [42] (replicate 16 0) 5 = Inr sf"
    by (simp add: Seal_def KeySize_def)
  from sealed_frame_bound [OF demo_lib_ok _ _ sf] sf show ?thesis by auto
qed

end
