(* ===== verification/GoWeb.thy ===== *)
theory GoWeb
  imports Wire GoText
begin

text \<open>
  The parts of Go's standard library that the dashboard uses: strings as byte strings, cutting,
  decimal integers, unpadded URL-safe Base64 with its round trip, case folding (beyond ASCII the
  parameter \<open>U\<close>), HTML escaping, replacement, and the syntax of header tokens.
\<close>

section \<open>Strings and numbers\<close>

definition str_bytes :: "string \<Rightarrow> bytes" where
  "str_bytes s = map (\<lambda>c. word_of_nat (of_char c)) s"

definition gostr :: "bytes \<Rightarrow> string" where
  "gostr bs = map (\<lambda>b. char_of (unat b)) bs"

lemma gostr_raw [simp]: "gostr (str_bytes s) = s"
proof -
  have "char_of (unat (word_of_nat (of_char c) :: byte)) = c" for c :: char
    using unat_byte_of_nat [of "of_char c"] by simp
  then show ?thesis by (simp add: gostr_def str_bytes_def comp_def)
qed

lemma raw_gostr [simp]: "str_bytes (gostr bs) = bs"
proof -
  have "word_of_nat (of_char (char_of (unat b) :: char)) = b" for b :: byte
    using unat_byte_less [of b] by simp
  then show ?thesis by (simp add: gostr_def str_bytes_def comp_def)
qed

text \<open>\<open>strings.Cut\<close> at one byte.\<close>

definition Cut :: "char \<Rightarrow> string \<Rightarrow> (string \<times> string) option" where
  "Cut c s = (case dropWhile (\<lambda>d. d \<noteq> c) s of [] \<Rightarrow> None | _ # rest \<Rightarrow> Some (takeWhile (\<lambda>d. d \<noteq> c) s, rest))"

lemma Cut_append [simp]: "c \<notin> set a \<Longrightarrow> Cut c (a @ c # b) = Some (a, b)"
proof -
  assume "c \<notin> set a"
  then have "\<forall>d \<in> set a. d \<noteq> c" by auto
  then have "dropWhile (\<lambda>d. d \<noteq> c) (a @ c # b) = c # b" "takeWhile (\<lambda>d. d \<noteq> c) (a @ c # b) = a"
    by (simp_all add: dropWhile_append2 takeWhile_append2)
  then show ?thesis by (simp add: Cut_def)
qed

lemma Cut_SomeD: "Cut c s = Some (a, b) \<Longrightarrow> s = a @ c # b \<and> c \<notin> set a"
proof -
  assume cut: "Cut c s = Some (a, b)"
  then obtain d where d: "dropWhile (\<lambda>d. d \<noteq> c) s = d # b" and a: "a = takeWhile (\<lambda>d. d \<noteq> c) s"
    by (auto simp: Cut_def split: list.splits)
  then have "d = c" using hd_dropWhile [of "\<lambda>d. d \<noteq> c" s] by simp
  moreover have "s = a @ d # b" using a d takeWhile_dropWhile_id [of "\<lambda>d. d \<noteq> c" s] by simp
  ultimately show ?thesis using a by (auto dest: set_takeWhileD)
qed

text \<open>\<open>strconv.FormatInt\<close> and \<open>ParseInt\<close> in base 10 with 64 bits.\<close>

definition FormatInt :: "int \<Rightarrow> string" where
  "FormatInt i = (if i < 0 then CHR ''-'' # dec (nat (- i)) else dec (nat i))"

definition ParseInt :: "string \<Rightarrow> int option" where
  "ParseInt s =
     (let neg = (s \<noteq> [] \<and> hd s = CHR ''-'');
          ds = (if s \<noteq> [] \<and> hd s \<in> {CHR ''-'', CHR ''+''} then tl s else s);
          n = int (read_dec ds)
      in if ds = [] \<or> \<not> list_all is_digit ds then None
         else if neg then (if n > 2 ^ 63 then None else Some (- n))
         else if n \<ge> 2 ^ 63 then None else Some n)"

lemma dec_head: "hd (dec n) \<noteq> CHR ''-'' \<and> hd (dec n) \<noteq> CHR ''+''"
proof -
  have "is_digit (hd (dec n))" by (rule dec_digits [of _ n]) simp
  then show ?thesis by (auto simp: is_digit_def)
qed

lemma ParseInt_FormatInt:
  assumes "- (2 ^ 63) \<le> i" "i < 2 ^ 63"
  shows "ParseInt (FormatInt i) = Some i"
proof -
  have "list_all is_digit (dec n)" for n using dec_digits by (auto simp: list_all_iff)
  with assms show ?thesis using dec_head [of "nat i"] by (auto simp: ParseInt_def FormatInt_def Let_def)
qed

section \<open>Base64\<close>

text \<open>\<open>base64.RawURLEncoding\<close>: three bytes as four characters of six bits; the decoder ignores
  line breaks and the unused low bits of a last, shorter group.\<close>

definition b64_alphabet :: string where
  "b64_alphabet = ''ABCDEFGHIJKLMNOPQRSTUVWXYZabcdefghijklmnopqrstuvwxyz0123456789-_''"

definition b64_char :: "nat \<Rightarrow> char" where "b64_char n = b64_alphabet ! (n mod 64)"

definition b64_val :: "char \<Rightarrow> nat option" where
  "b64_val c = map_of (zip b64_alphabet [0..<64]) c"

fun b64_encode :: "nat list \<Rightarrow> string" where
  "b64_encode [] = []"
| "b64_encode [a] = [b64_char (a div 4), b64_char (a * 16)]"
| "b64_encode [a, b] = [b64_char (a div 4), b64_char (a * 16 + b div 16), b64_char (b * 4)]"
| "b64_encode (a # b # c # rest) =
     b64_char (a div 4) # b64_char (a * 16 + b div 16) # b64_char (b * 4 + c div 64) # b64_char c # b64_encode rest"

fun b64_groups :: "nat list \<Rightarrow> nat list option" where
  "b64_groups [] = Some []"
| "b64_groups [_] = None"
| "b64_groups [p, q] = Some [p * 4 + q div 16]"
| "b64_groups [p, q, r] = Some [p * 4 + q div 16, q mod 16 * 16 + r div 4]"
| "b64_groups (p # q # r # s # rest) =
     map_option (\<lambda>bs. (p * 4 + q div 16) # (q mod 16 * 16 + r div 4) # (r mod 4 * 64 + s) # bs) (b64_groups rest)"

definition b64_EncodeToString :: "bytes \<Rightarrow> string" where
  "b64_EncodeToString bs = b64_encode (map unat bs)"

definition b64_DecodeString :: "string \<Rightarrow> bytes option" where
  "b64_DecodeString s =
     (let vs = map b64_val (filter (\<lambda>c. c \<noteq> CHR 0x0A \<and> c \<noteq> CHR 0x0D) s)
      in if None \<in> set vs then None else map_option (map word_of_nat) (b64_groups (map the vs)))"

lemma b64_val_char: "b64_val (b64_char n) = Some (n mod 64)"
proof -
  have "\<forall>n \<in> set [0..<64]. b64_val (b64_alphabet ! n) = Some n" by code_simp
  then show ?thesis by (simp add: b64_char_def)
qed

lemma b64_char_plain: "b64_char n \<in> set b64_alphabet"
proof -
  have "length b64_alphabet = 64" by code_simp
  then show ?thesis unfolding b64_char_def by (intro nth_mem) simp
qed

lemma b64_encode_plain: "set (b64_encode ns) \<subseteq> set b64_alphabet"
  by (induction ns rule: b64_encode.induct) (auto simp: b64_char_plain)

lemma b64_alphabet_plain: "CHR ''.'' \<notin> set b64_alphabet" "CHR 0x0A \<notin> set b64_alphabet" "CHR 0x0D \<notin> set b64_alphabet"
  by code_simp+

lemma b64_vals: "map b64_val (b64_encode ns) = map Some (map (the \<circ> b64_val) (b64_encode ns))"
  by (induction ns rule: b64_encode.induct) (simp_all add: b64_val_char)

lemma b64_mod:
  fixes a u m k :: nat
  assumes "u < m" "64 = k * m"
  shows "(a * m + u) mod 64 = a mod k * m + u" "(a * m) mod 64 = a mod k * m"
proof -
  have m: "(a * m) mod 64 = a mod k * m" for a :: nat unfolding assms(2) by (simp add: mult_mod_left)
  have "a mod k * m + u < 64"
  proof -
    have "0 < k" using assms by (cases k) auto
    then have "a mod k + 1 \<le> k" by (simp add: Suc_leI)
    then have "(a mod k + 1) * m \<le> k * m" by (rule mult_le_mono1)
    with assms show ?thesis by (simp add: algebra_simps)
  qed
  then show "(a * m + u) mod 64 = a mod k * m + u" using m [of a] by (metis mod_add_left_eq mod_less)
  show "(a * m) mod 64 = a mod k * m" by (rule m)
qed

lemma b64_bytes:
  fixes a b c :: nat
  assumes "a < 256" "b < 256" "c < 256"
  shows "(a div 4) mod 64 * 4 + (a * 16) mod 64 div 16 = a"
    "(a div 4) mod 64 * 4 + (a * 16 + b div 16) mod 64 div 16 = a"
    "(a * 16 + b div 16) mod 64 mod 16 * 16 + (b * 4) mod 64 div 4 = b"
    "(a * 16 + b div 16) mod 64 mod 16 * 16 + (b * 4 + c div 64) mod 64 div 4 = b"
    "(b * 4 + c div 64) mod 64 mod 4 * 64 + c mod 64 = c"
proof -
  have bounds: "a div 4 < 64" "b div 16 < 16" "c div 64 < 4" using assms by (simp_all add: less_mult_imp_div_less)
  have m: "(64 :: nat) = 4 * 16" "(64 :: nat) = 16 * 4" by simp_all
  note eqs = b64_mod [OF bounds(2) m(1), of a] b64_mod [OF bounds(3) m(2), of b] mod_less [OF bounds(1)]
  have q: "(a mod 4 * 16 + b div 16) div 16 = a mod 4" "(b mod 16 * 4 + c div 64) div 4 = b mod 16"
    "(a mod 4 * 16 + b div 16) mod 16 = b div 16" "(b mod 16 * 4 + c div 64) mod 4 = c div 64"
    "a mod 4 * 16 div 16 = a mod 4" "b mod 16 * 4 div 4 = b mod 16"
    using bounds by simp_all
  show "(a div 4) mod 64 * 4 + (a * 16) mod 64 div 16 = a"
    "(a div 4) mod 64 * 4 + (a * 16 + b div 16) mod 64 div 16 = a"
    "(a * 16 + b div 16) mod 64 mod 16 * 16 + (b * 4) mod 64 div 4 = b"
    "(a * 16 + b div 16) mod 64 mod 16 * 16 + (b * 4 + c div 64) mod 64 div 4 = b"
    "(b * 4 + c div 64) mod 64 mod 4 * 64 + c mod 64 = c"
    by (simp_all only: eqs q div_mult_mod_eq)
qed

lemma b64_groups_encode: "\<forall>n \<in> set ns. n < 256 \<Longrightarrow> b64_groups (map (the \<circ> b64_val) (b64_encode ns)) = Some ns"
proof (induction ns rule: b64_encode.induct)
  case (2 a)
  then show ?case using b64_bytes(1) [of a 0 0] by (simp only: b64_encode.simps list.map comp_apply b64_val_char option.sel b64_groups.simps) simp
next
  case (3 a b)
  then show ?case using b64_bytes(2,3) [of a b 0] by (simp add: b64_val_char)
next
  case (4 a b c rest)
  then show ?case using b64_bytes(2,4,5) [of a b c] by (simp add: b64_val_char)
qed simp

lemma b64_roundtrip [simp]: "b64_DecodeString (b64_EncodeToString bs) = Some bs"
proof -
  let ?e = "b64_encode (map unat bs)"
  have "filter (\<lambda>c. c \<noteq> CHR 0x0A \<and> c \<noteq> CHR 0x0D) ?e = ?e"
    using b64_encode_plain [of "map unat bs"] b64_alphabet_plain by (intro filter_True) auto
  moreover have "b64_groups (map (the \<circ> b64_val) ?e) = Some (map unat bs)"
    by (rule b64_groups_encode) (auto simp: unat_byte_less)
  moreover have "None \<notin> set (map b64_val ?e)" by (subst b64_vals) auto
  ultimately show ?thesis by (simp add: b64_DecodeString_def b64_EncodeToString_def Let_def comp_def)
qed

lemma b64_no_dot [simp]: "CHR ''.'' \<notin> set (b64_EncodeToString bs)"
  using b64_encode_plain [of "map unat bs"] b64_alphabet_plain(1) by (auto simp: b64_EncodeToString_def)

section \<open>Text and markup\<close>

text \<open>\<open>strings.EqualFold\<close>, with \<open>U\<close> choosing one rune of every folding orbit beyond ASCII.\<close>

definition EqualFold :: "(rune \<Rightarrow> rune) \<Rightarrow> runes \<Rightarrow> runes \<Rightarrow> bool" where
  "EqualFold U s t \<longleftrightarrow> map (rune_lower U) s = map (rune_lower U) t"

text \<open>\<open>template.HTMLEscapeString\<close> and \<open>bytes.ReplaceAll\<close> of a non-empty pattern.\<close>

definition html_char :: "char \<Rightarrow> bytes" where
  "html_char c =
     (if c = CHR 0x00 then [0xEF, 0xBF, 0xBD]
      else if c = CHR 0x22 then str_bytes ''&#34;''
      else if c = CHR 0x27 then str_bytes ''&#39;''
      else if c = CHR ''&'' then str_bytes ''&amp;''
      else if c = CHR ''<'' then str_bytes ''&lt;''
      else if c = CHR ''>'' then str_bytes ''&gt;''
      else str_bytes [c])"

definition HTMLEscapeString :: "string \<Rightarrow> bytes" where
  "HTMLEscapeString s = concat (map html_char s)"

function ReplaceAll :: "'a list \<Rightarrow> 'a list \<Rightarrow> 'a list \<Rightarrow> 'a list" where
  "ReplaceAll old new [] = []"
| "ReplaceAll old new (x # xs) =
     (if old \<noteq> [] \<and> take (length old) (x # xs) = old then new @ ReplaceAll old new (drop (length old) (x # xs))
      else x # ReplaceAll old new xs)"
  by pat_completeness auto
termination by (relation "measure (\<lambda>(_, _, xs). length xs)") auto

text \<open>The characters of a token in a header, as a cookie's name must be one.\<close>

definition token_char :: "char \<Rightarrow> bool" where
  "token_char c \<longleftrightarrow> is_digit c \<or> (65 \<le> (of_char c :: nat) \<and> (of_char c :: nat) \<le> 90) \<or>
     (97 \<le> (of_char c :: nat) \<and> (of_char c :: nat) \<le> 122) \<or>
     c \<in> {CHR ''!'', CHR ''#'', CHR ''$'', CHR ''%'', CHR ''&'', CHR 0x27, CHR ''*'', CHR ''+'', CHR ''-'', CHR ''.'',
        CHR ''^'', CHR ''_'', CHR 0x60, CHR ''|'', CHR ''~''}"

definition is_token :: "string \<Rightarrow> bool" where
  "is_token s \<longleftrightarrow> s \<noteq> [] \<and> list_all token_char s"

end
