(* ===== verification/NetURL.thy ===== *)
theory NetURL
  imports GoWeb "HOL-Library.List_Lexorder" "HOL-Library.Char_ord"
begin

text \<open>
  The part of Go's \<open>net/url\<close> that building the relay's URL uses: splitting a URL, escaping and
  unescaping its components, reading and writing the query, and putting the URL together again. A
  string is its bytes. The syntax of a host is the parameter \<open>parseHost\<close>, because what the library
  accepts there differs between its releases. \<open>Values\<close>, a map from keys to lists of values, is the
  list of its pairs, in which the pairs of one key are in the order of their values.
\<close>

section \<open>Escaping\<close>

datatype encoding = encodePath | encodeHost | encodeUserPassword | encodeQueryComponent | encodeFragment

definition is_alnum :: "char \<Rightarrow> bool" where
  "is_alnum c \<longleftrightarrow> (let n = of_char c :: nat in (97 \<le> n \<and> n \<le> 122) \<or> (65 \<le> n \<and> n \<le> 90) \<or> (48 \<le> n \<and> n \<le> 57))"

definition shouldEscape :: "encoding \<Rightarrow> char \<Rightarrow> bool" where
  "shouldEscape mode c =
     (if is_alnum c then False
      else if mode = encodeHost \<and> c \<in> set ''!$&()*+,;=:[]<>'' \<union> {CHR 0x27, CHR 0x22} then False
      else if c \<in> set ''-_.~'' then False
      else if c \<in> set ''$&+,/:;=?@'' \<and> mode \<noteq> encodeHost
      then (case mode of
              encodePath \<Rightarrow> c = CHR ''?''
            | encodeUserPassword \<Rightarrow> c \<in> set ''@/?:''
            | encodeQueryComponent \<Rightarrow> True
            | _ \<Rightarrow> False)
      else if mode = encodeFragment \<and> c \<in> set ''!()*'' then False
      else True)"

definition upper_hex :: "nat \<Rightarrow> char" where
  "upper_hex n = ''0123456789ABCDEF'' ! n"

definition escape_char :: "encoding \<Rightarrow> char \<Rightarrow> string" where
  "escape_char mode c =
     (if c = CHR '' '' \<and> mode = encodeQueryComponent then ''+''
      else if shouldEscape mode c then [CHR ''%'', upper_hex (of_char c div 16), upper_hex (of_char c mod 16)]
      else [c])"

definition escape :: "encoding \<Rightarrow> string \<Rightarrow> string" where
  "escape mode s = concat (map (escape_char mode) s)"

text \<open>Unescaping fails at a percent sign that is not followed by two hexadecimal digits.\<close>

fun unescape :: "encoding \<Rightarrow> string \<Rightarrow> string option" where
  "unescape mode [] = Some []"
| "unescape mode (c # s) =
     (if c = CHR ''%'' then
        (case s of
           p # q # rest \<Rightarrow>
             (case (from_hex_char p, from_hex_char q) of
                (Some a, Some b) \<Rightarrow> map_option (\<lambda>t. char_of (16 * a + b) # t) (unescape mode rest)
              | _ \<Rightarrow> None)
         | _ \<Rightarrow> None)
      else if c = CHR ''+'' \<and> mode = encodeQueryComponent then map_option (\<lambda>t. CHR '' '' # t) (unescape mode s)
      else map_option (\<lambda>t. c # t) (unescape mode s))"

lemma upper_hex_digits: "n < 16 \<Longrightarrow> from_hex_char (upper_hex n) = Some n \<and> is_alnum (upper_hex n)"
proof -
  have "list_all (\<lambda>n. from_hex_char (upper_hex n) = Some n \<and> is_alnum (upper_hex n)) [0..<16]" by code_simp
  then show "n < 16 \<Longrightarrow> ?thesis" by (simp add: list_all_iff)
qed

lemma of_char_parts: "(of_char c :: nat) div 16 < 16" "16 * (of_char c div 16) + of_char c mod 16 = (of_char c :: nat)"
proof -
  have "(of_char c :: nat) < 256" by simp
  then show "(of_char c :: nat) div 16 < 16" by (simp add: less_mult_imp_div_less)
qed simp

lemma shouldEscape_reserved: "shouldEscape encodeQueryComponent (CHR ''%'')" "shouldEscape encodeQueryComponent (CHR ''+'')"
  "shouldEscape mode (CHR ''%'')"
  by (cases mode) (simp_all add: shouldEscape_def is_alnum_def)

lemma unescape_escape_char:
  "unescape encodeQueryComponent (escape_char encodeQueryComponent c @ t) =
     map_option (\<lambda>u. c # u) (unescape encodeQueryComponent t)"
proof -
  note parts = of_char_parts [of c]
  have hex: "from_hex_char (upper_hex (of_char c div 16)) = Some (of_char c div 16)"
    "from_hex_char (upper_hex (of_char c mod 16)) = Some (of_char c mod 16)"
    using upper_hex_digits parts(1) by simp_all
  have plain: "c \<noteq> CHR ''%'' \<and> c \<noteq> CHR ''+''" if "\<not> shouldEscape encodeQueryComponent c"
    using that shouldEscape_reserved(1,2) by auto
  have again: "char_of (16 * (of_char c div 16) + of_char c mod 16 :: nat) = c" unfolding parts(2) by simp
  show ?thesis
  proof (cases "shouldEscape encodeQueryComponent c \<and> c \<noteq> CHR '' ''")
    case True
    then show ?thesis by (simp add: escape_char_def hex again)
  next
    case False
    with plain show ?thesis by (auto simp: escape_char_def)
  qed
qed

lemma unescape_escape: "unescape encodeQueryComponent (escape encodeQueryComponent s) = Some s"
  by (induction s) (simp_all add: escape_def unescape_escape_char)

text \<open>The characters an escaped component can contain.\<close>

lemma escape_chars:
  assumes "d \<in> set (escape mode s)"
  shows "\<not> shouldEscape mode d \<or> d = CHR ''%'' \<or> (d = CHR ''+'' \<and> mode = encodeQueryComponent)"
proof -
  have alnum: "\<not> shouldEscape mode (upper_hex n)" if "n < 16" for n
    using upper_hex_digits [OF that] by (simp add: shouldEscape_def)
  from assms obtain c where "d \<in> set (escape_char mode c)" by (auto simp: escape_def)
  with alnum [of "of_char c div 16"] alnum [of "of_char c mod 16"] of_char_parts(1) [of c] show ?thesis
    by (auto simp: escape_char_def split: if_splits)
qed

lemma escape_excludes:
  "shouldEscape mode d \<Longrightarrow> d \<noteq> CHR ''%'' \<Longrightarrow> d \<noteq> CHR ''+'' \<Longrightarrow> d \<notin> set (escape mode s)"
  using escape_chars by blast

section \<open>Queries\<close>

type_synonym Values = "(string \<times> string) list"

definition Values_Get :: "string \<Rightarrow> Values \<Rightarrow> string" where
  "Values_Get k v = (case map_of v k of Some x \<Rightarrow> x | None \<Rightarrow> [])"

definition Values_Set :: "string \<Rightarrow> string \<Rightarrow> Values \<Rightarrow> Values" where
  "Values_Set k x v = filter (\<lambda>(k', _). k' \<noteq> k) v @ [(k, x)]"

definition Cut_or :: "char \<Rightarrow> string \<Rightarrow> string \<times> string" where
  "Cut_or c s = (case Cut c s of Some p \<Rightarrow> p | None \<Rightarrow> (s, []))"

definition parse_pair :: "string \<Rightarrow> (string \<times> string) option" where
  "parse_pair seg =
     (if CHR '';'' \<in> set seg \<or> seg = [] then None
      else (case Cut_or (CHR ''='') seg of (k, v) \<Rightarrow>
              (case (unescape encodeQueryComponent k, unescape encodeQueryComponent v) of
                 (Some k', Some v') \<Rightarrow> Some (k', v')
               | _ \<Rightarrow> None)))"

lemma Cut_or_shorter: "s \<noteq> [] \<Longrightarrow> Cut_or c s = (a, b) \<Longrightarrow> length b < length s"
  by (auto simp: Cut_or_def split: option.splits dest!: Cut_SomeD)

function parseQuery :: "string \<Rightarrow> Values" where
  "parseQuery query =
     (if query = [] then []
      else (case Cut_or (CHR ''&'') query of (seg, rest) \<Rightarrow>
              (case parse_pair seg of Some p \<Rightarrow> p # parseQuery rest | None \<Rightarrow> parseQuery rest)))"
  by pat_completeness auto

termination
  by (relation "measure length") (auto dest: Cut_or_shorter [OF _ sym])

declare parseQuery.simps [simp del]

definition encode_pair :: "string \<times> string \<Rightarrow> string" where
  "encode_pair = (\<lambda>(k, v). escape encodeQueryComponent k @ ''='' @ escape encodeQueryComponent v)"

fun join_pairs :: "Values \<Rightarrow> string" where
  "join_pairs [] = []"
| "join_pairs [p] = encode_pair p"
| "join_pairs (p # q # ps) = encode_pair p @ ''&'' @ join_pairs (q # ps)"

definition Values_Encode :: "Values \<Rightarrow> string" where
  "Values_Encode v = join_pairs (sort_key fst v)"

text \<open>No separator occurs inside an escaped key or value.\<close>

lemma query_escapes:
  assumes "c \<in> set ''&;=#?''"
  shows "c \<notin> set (escape encodeQueryComponent s)"
proof -
  have "\<forall>c \<in> set ''&;=#?''. shouldEscape encodeQueryComponent c \<and> c \<noteq> CHR ''%'' \<and> c \<noteq> CHR ''+''" by code_simp
  with assms escape_excludes show ?thesis by blast
qed

lemma encode_pair_chars:
  assumes "c \<in> set ''&;#''"
  shows "c \<notin> set (encode_pair p)"
proof -
  have "\<forall>c \<in> set ''&;#''. c \<in> set ''&;=#?'' \<and> c \<noteq> CHR ''=''" by code_simp
  with assms query_escapes [of c "fst p"] query_escapes [of c "snd p"] show ?thesis
    by (simp only: encode_pair_def case_prod_beta set_append list.set Un_iff) blast
qed

lemma parse_encode_pair: "parse_pair (encode_pair p) = Some p"
proof (cases p)
  case (Pair k v)
  have "Cut_or (CHR ''='') (encode_pair p) = (escape encodeQueryComponent k, escape encodeQueryComponent v)"
    using query_escapes [of "CHR ''=''" k] by (simp add: Pair encode_pair_def Cut_or_def)
  moreover have "CHR '';'' \<notin> set (encode_pair p)" by (rule encode_pair_chars) simp
  moreover have "encode_pair p \<noteq> []" by (simp add: Pair encode_pair_def)
  ultimately show ?thesis by (simp add: parse_pair_def unescape_escape Pair)
qed

lemma Cut_or_absent: "c \<notin> set s \<Longrightarrow> Cut_or c s = (s, [])"
  by (auto simp: Cut_or_def split: option.splits dest!: Cut_SomeD)

lemma encode_pair_nonempty [simp]: "encode_pair p \<noteq> []"
  by (simp add: encode_pair_def split: prod.splits)

lemma parse_join: "parseQuery (join_pairs v) = v"
proof (induction v rule: join_pairs.induct)
  case 1
  show ?case by (simp add: parseQuery.simps)
next
  case (2 p)
  have "CHR ''&'' \<notin> set (encode_pair p)" by (rule encode_pair_chars) simp
  then show ?case by (simp add: parseQuery.simps Cut_or_absent parse_encode_pair)
next
  case (3 p q ps)
  have "CHR ''&'' \<notin> set (encode_pair p)" by (rule encode_pair_chars) simp
  then have "Cut_or (CHR ''&'') (join_pairs (p # q # ps)) = (encode_pair p, join_pairs (q # ps))" by (simp add: Cut_or_def)
  with 3 show ?case by (subst parseQuery.simps) (simp add: parse_encode_pair)
qed

lemma parse_Encode: "parseQuery (Values_Encode v) = sort_key fst v"
  by (simp add: Values_Encode_def parse_join)

lemma join_pairs_no_hash: "CHR ''#'' \<notin> set (join_pairs v)"
proof (induction v rule: join_pairs.induct)
  case (3 p q ps)
  then show ?case using encode_pair_chars [of "CHR ''#''" p] by simp
qed (simp_all add: encode_pair_chars)

lemma Encode_no_hash: "CHR ''#'' \<notin> set (Values_Encode v)"
  by (simp add: Values_Encode_def join_pairs_no_hash)

text \<open>Sorting by key keeps the values of each key in their order.\<close>

lemma values_sort: "filter (\<lambda>(k', _). k' = k) (sort_key fst v) = filter (\<lambda>(k', _). k' = k) v"
proof -
  have "filter (\<lambda>x. fst x = k) (sort_key fst v) = filter (\<lambda>x. fst x = k) v"
    by (rule sort_key_stable)
  then show ?thesis by (simp add: case_prod_beta')
qed

lemma map_of_filter_key: "map_of v k = map_of (filter (\<lambda>(k', _). k' = k) v) k"
  by (induction v) auto

lemma Get_sort [simp]: "Values_Get k (sort_key fst v) = Values_Get k v"
  using map_of_filter_key [of v k] map_of_filter_key [of "sort_key fst v" k] by (simp add: Values_Get_def values_sort)

section \<open>URLs\<close>

record URL =
  u_Scheme :: string
  u_Opaque :: string
  u_User :: "(string \<times> string option) option"
  u_Host :: string
  u_Path :: string
  u_RawPath :: string
  u_OmitHost :: bool
  u_ForceQuery :: bool
  u_RawQuery :: string
  u_Fragment :: string
  u_RawFragment :: string

definition zero_URL :: URL where
  "zero_URL = \<lparr>u_Scheme = [], u_Opaque = [], u_User = None, u_Host = [], u_Path = [], u_RawPath = [],
     u_OmitHost = False, u_ForceQuery = False, u_RawQuery = [], u_Fragment = [], u_RawFragment = []\<rparr>"

definition is_letter :: "char \<Rightarrow> bool" where
  "is_letter c \<longleftrightarrow> is_alnum c \<and> \<not> is_digit c"

text \<open>The scheme up to a colon, if everything before it can belong to one.\<close>

fun scheme_from :: "string \<Rightarrow> string \<Rightarrow> (string \<times> string) option" where
  "scheme_from pre [] = Some ([], pre)"
| "scheme_from pre (c # s) =
     (if is_letter c then scheme_from (pre @ [c]) s
      else if is_digit c \<or> c \<in> set ''+-.'' then (if pre = [] then Some ([], c # s) else scheme_from (pre @ [c]) s)
      else if c = CHR '':'' then (if pre = [] then None else Some (pre, s))
      else Some ([], pre @ c # s))"

definition getScheme :: "string \<Rightarrow> (string \<times> string) option" where
  "getScheme rawURL = scheme_from [] rawURL"

definition setPath :: "string \<Rightarrow> URL \<Rightarrow> URL option" where
  "setPath p u =
     map_option (\<lambda>path. u\<lparr>u_Path := path, u_RawPath := (if p = escape encodePath path then [] else p)\<rparr>)
       (unescape encodePath p)"

definition setFragment :: "string \<Rightarrow> URL \<Rightarrow> URL option" where
  "setFragment f u =
     map_option (\<lambda>frag. u\<lparr>u_Fragment := frag, u_RawFragment := (if f = escape encodeFragment frag then [] else f)\<rparr>)
       (unescape encodeFragment f)"

definition validUserinfo :: "string \<Rightarrow> bool" where
  "validUserinfo s \<longleftrightarrow> list_all (\<lambda>c. is_alnum c \<or> c \<in> set ''-._:~!$&()*+,;=%@'' \<union> {CHR 0x27}) s"

definition last_at :: "string \<Rightarrow> (string \<times> string) option" where
  "last_at s = map_option (\<lambda>(a, b). (rev b, rev a)) (Cut (CHR ''@'') (rev s))"

definition parseUser :: "string \<Rightarrow> (string \<times> string option) option" where
  "parseUser info =
     (if \<not> validUserinfo info then None
      else case Cut (CHR '':'') info of
             None \<Rightarrow> map_option (\<lambda>u. (u, None)) (unescape encodeUserPassword info)
           | Some (u, p) \<Rightarrow>
               (case (unescape encodeUserPassword u, unescape encodeUserPassword p) of
                  (Some u', Some p') \<Rightarrow> Some (u', Some p')
                | _ \<Rightarrow> None))"

definition parseAuthority :: "(string \<Rightarrow> string option) \<Rightarrow> string \<Rightarrow> URL \<Rightarrow> URL option" where
  "parseAuthority parseHost authority u =
     (case last_at authority of
        None \<Rightarrow> map_option (\<lambda>h. u\<lparr>u_Host := h\<rparr>) (parseHost authority)
      | Some (info, host) \<Rightarrow>
          (case (parseHost host, parseUser info) of
             (Some h, Some user) \<Rightarrow> Some (u\<lparr>u_Host := h, u_User := Some user\<rparr>)
           | _ \<Rightarrow> None))"

definition is_ctl :: "char \<Rightarrow> bool" where
  "is_ctl c \<longleftrightarrow> (of_char c :: nat) < 0x20 \<or> (of_char c :: nat) = 0x7f"

definition split_query :: "string \<Rightarrow> URL \<Rightarrow> string \<times> URL" where
  "split_query rest u =
     (if rest \<noteq> [] \<and> last rest = CHR ''?'' \<and> CHR ''?'' \<notin> set (butlast rest)
      then (butlast rest, u\<lparr>u_ForceQuery := True\<rparr>)
      else case Cut_or (CHR ''?'') rest of (a, q) \<Rightarrow> (a, u\<lparr>u_RawQuery := q\<rparr>))"

definition has_prefix :: "string \<Rightarrow> string \<Rightarrow> bool" where
  "has_prefix p s \<longleftrightarrow> take (length p) s = p"

definition parse_hier :: "(string \<Rightarrow> string option) \<Rightarrow> string \<Rightarrow> URL \<Rightarrow> URL option" where
  "parse_hier parseHost rest u =
     (if (u_Scheme u \<noteq> [] \<or> \<not> has_prefix ''///'' rest) \<and> has_prefix ''//'' rest
      then (let auth = takeWhile (\<lambda>c. c \<noteq> CHR ''/'') (drop 2 rest); path = dropWhile (\<lambda>c. c \<noteq> CHR ''/'') (drop 2 rest)
            in case parseAuthority parseHost auth u of None \<Rightarrow> None | Some u1 \<Rightarrow> setPath path u1)
      else setPath rest (if u_Scheme u \<noteq> [] \<and> has_prefix ''/'' rest then u\<lparr>u_OmitHost := True\<rparr> else u))"

definition parse_url :: "(string \<Rightarrow> string option) \<Rightarrow> string \<Rightarrow> URL option" where
  "parse_url parseHost rawURL =
     (if list_ex is_ctl rawURL then None
      else if rawURL = ''*'' then Some (zero_URL\<lparr>u_Path := ''*''\<rparr>)
      else case getScheme rawURL of
             None \<Rightarrow> None
           | Some (scheme, rest0) \<Rightarrow>
               (case split_query rest0 (zero_URL\<lparr>u_Scheme := map ascii_lower scheme\<rparr>) of (rest, u) \<Rightarrow>
                  if \<not> has_prefix ''/'' rest \<and> scheme \<noteq> [] then Some (u\<lparr>u_Opaque := rest\<rparr>)
                  else if \<not> has_prefix ''/'' rest \<and> CHR '':'' \<in> set (fst (Cut_or (CHR ''/'') rest)) then None
                  else parse_hier parseHost rest u))"

definition URL_Parse :: "(string \<Rightarrow> string option) \<Rightarrow> string \<Rightarrow> URL option" where
  "URL_Parse parseHost rawURL =
     (case Cut_or (CHR ''#'') rawURL of (s, frag) \<Rightarrow>
        (case parse_url parseHost s of
           None \<Rightarrow> None
         | Some u \<Rightarrow> if frag = [] then Some u else setFragment frag u))"

definition validEncoded :: "encoding \<Rightarrow> string \<Rightarrow> bool" where
  "validEncoded mode s \<longleftrightarrow> list_all (\<lambda>c. c \<in> set ''!$&()*+,;=:@[]%'' \<union> {CHR 0x27} \<or> \<not> shouldEscape mode c) s"

definition EscapedPath :: "URL \<Rightarrow> string" where
  "EscapedPath u =
     (if u_RawPath u \<noteq> [] \<and> validEncoded encodePath (u_RawPath u) \<and> unescape encodePath (u_RawPath u) = Some (u_Path u)
      then u_RawPath u
      else if u_Path u = ''*'' then ''*''
      else escape encodePath (u_Path u))"

definition EscapedFragment :: "URL \<Rightarrow> string" where
  "EscapedFragment u =
     (if u_RawFragment u \<noteq> [] \<and> validEncoded encodeFragment (u_RawFragment u) \<and>
         unescape encodeFragment (u_RawFragment u) = Some (u_Fragment u)
      then u_RawFragment u
      else escape encodeFragment (u_Fragment u))"

definition Userinfo_String :: "string \<times> string option \<Rightarrow> string" where
  "Userinfo_String = (\<lambda>(name, pw). escape encodeUserPassword name @
     (case pw of None \<Rightarrow> [] | Some p \<Rightarrow> CHR '':'' # escape encodeUserPassword p))"

text \<open>The URL up to its query, and all of it.\<close>

definition URL_authority :: "URL \<Rightarrow> string" where
  "URL_authority u =
     (if (u_Scheme u = [] \<and> u_Host u = [] \<and> u_User u = None) \<or> (u_OmitHost u \<and> u_Host u = [] \<and> u_User u = None) then []
      else (if u_Host u \<noteq> [] \<or> u_Path u \<noteq> [] \<or> u_User u \<noteq> None then ''//'' else []) @
        (case u_User u of None \<Rightarrow> [] | Some ui \<Rightarrow> Userinfo_String ui @ ''@'') @ escape encodeHost (u_Host u))"

definition URL_front :: "URL \<Rightarrow> string" where
  "URL_front u =
     (let pre = (if u_Scheme u = [] then [] else u_Scheme u @ '':'')
      in if u_Opaque u \<noteq> [] then pre @ u_Opaque u
         else (let buf = pre @ URL_authority u;
                   path = EscapedPath u;
                   slash = (if path \<noteq> [] \<and> hd path \<noteq> CHR ''/'' \<and> u_Host u \<noteq> [] then ''/'' else []);
                   dot = (if buf @ slash = [] \<and> CHR '':'' \<in> set (fst (Cut_or (CHR ''/'') path)) then ''./'' else [])
               in buf @ slash @ dot @ path))"

definition URL_String :: "URL \<Rightarrow> string" where
  "URL_String u =
     URL_front u @ (if u_ForceQuery u \<or> u_RawQuery u \<noteq> [] then CHR ''?'' # u_RawQuery u else []) @
     (if u_Fragment u \<noteq> [] then CHR ''#'' # EscapedFragment u else [])"

definition URL_Query :: "URL \<Rightarrow> Values" where
  "URL_Query u = parseQuery (u_RawQuery u)"

subsection \<open>Where the query of a URL is\<close>

text \<open>The query of a URL as a server reads it: between the first question mark and the fragment.\<close>

definition raw_query :: "string \<Rightarrow> string" where
  "raw_query s = snd (Cut_or (CHR ''?'') (fst (Cut_or (CHR ''#'') s)))"

definition query_free :: "string \<Rightarrow> bool" where
  "query_free s \<longleftrightarrow> CHR ''?'' \<notin> set s \<and> CHR ''#'' \<notin> set s"

lemma query_free_simps [simp]:
  "query_free []" "query_free (a @ b) \<longleftrightarrow> query_free a \<and> query_free b"
  "query_free (c # s) \<longleftrightarrow> c \<noteq> CHR ''?'' \<and> c \<noteq> CHR ''#'' \<and> query_free s"
  by (auto simp: query_free_def)

lemma query_free_escape:
  assumes "mode \<in> {encodePath, encodeHost, encodeUserPassword}"
  shows "query_free (escape mode s)"
proof -
  have "\<forall>m \<in> {encodePath, encodeHost, encodeUserPassword}. \<forall>c \<in> set ''?#''. shouldEscape m c \<and> c \<noteq> CHR ''%'' \<and> c \<noteq> CHR ''+''"
    by code_simp
  with assms have "CHR ''?'' \<notin> set (escape mode s)" "CHR ''#'' \<notin> set (escape mode s)"
    by - (rule escape_excludes; auto)+
  then show ?thesis by (simp add: query_free_def)
qed

lemma query_free_valid:
  assumes "validEncoded encodePath s"
  shows "query_free s"
proof -
  let ?ok = "\<lambda>c. c \<in> set ''!$&()*+,;=:@[]%'' \<union> {CHR 0x27} \<or> \<not> shouldEscape encodePath c"
  have no: "\<not> ?ok (CHR ''?'')" "\<not> ?ok (CHR ''#'')" by code_simp+
  have "\<forall>c \<in> set s. ?ok c" using assms unfolding validEncoded_def list_all_iff .
  with no show ?thesis unfolding query_free_def by metis
qed

lemma query_free_path: "query_free (EscapedPath u)"
  by (simp add: EscapedPath_def query_free_valid query_free_escape)

lemma query_free_authority: "query_free (URL_authority u)"
  by (simp add: URL_authority_def Userinfo_String_def query_free_escape split: option.split prod.split)

lemma raw_query_String:
  assumes "query_free (URL_front u)" and "CHR ''#'' \<notin> set (u_RawQuery u)"
  shows "raw_query (URL_String u) = u_RawQuery u"
proof -
  let ?q = "if u_ForceQuery u \<or> u_RawQuery u \<noteq> [] then CHR ''?'' # u_RawQuery u else []"
  have h: "CHR ''#'' \<notin> set (URL_front u @ ?q)" using assms by (simp add: query_free_def)
  have "fst (Cut_or (CHR ''#'') (URL_String u)) = URL_front u @ ?q"
  proof (cases "u_Fragment u = []")
    case True
    with h show ?thesis by (simp add: URL_String_def Cut_or_absent del: set_append)
  next
    case False
    with h Cut_append [OF h, of "EscapedFragment u"] show ?thesis by (simp add: URL_String_def Cut_or_def)
  qed
  moreover have "CHR ''?'' \<notin> set (URL_front u)" using assms(1) by (simp add: query_free_def)
  ultimately show ?thesis by (simp add: raw_query_def Cut_or_absent) (simp add: Cut_or_def)
qed

subsection \<open>Parsed URLs\<close>

lemma scheme_from_chars:
  "scheme_from pre s = Some (sch, rest) \<Longrightarrow> list_all (\<lambda>c. is_alnum c \<or> c \<in> set ''+-.'') pre \<Longrightarrow>
     list_all (\<lambda>c. is_alnum c \<or> c \<in> set ''+-.'') sch \<and> set rest \<subseteq> set pre \<union> set s"
proof (induction pre s rule: scheme_from.induct)
  case (2 pre c s)
  have "is_alnum c \<or> c \<in> set ''+-.''" if "is_letter c \<or> is_digit c \<or> c \<in> set ''+-.''"
    using that by (auto simp: is_letter_def is_digit_def is_alnum_def Let_def)
  with 2 show ?case by (auto split: if_splits)
qed auto

lemma ascii_lower_free:
  assumes "is_alnum c \<or> c \<in> set ''+-.''"
  shows "ascii_lower c \<noteq> CHR ''?'' \<and> ascii_lower c \<noteq> CHR ''#''"
proof -
  have "\<forall>c \<in> set (map char_of [0..<256 :: nat]). is_alnum c \<or> c \<in> set ''+-.'' \<longrightarrow>
      ascii_lower c \<noteq> CHR ''?'' \<and> ascii_lower c \<noteq> CHR ''#''" by code_simp
  moreover have "c \<in> set (map char_of [0..<256 :: nat])"
  proof -
    have "c = char_of (of_char c :: nat)" "(of_char c :: nat) < 256" by simp_all
    then show ?thesis by (metis atLeastLessThan_upt atLeastLessThan_iff image_eqI list.set_map zero_le)
  qed
  ultimately show ?thesis using assms by blast
qed

lemma query_free_scheme: "getScheme s = Some (sch, rest) \<Longrightarrow> query_free (map ascii_lower sch)"
  using scheme_from_chars [of "[]" s sch rest] ascii_lower_free
  by (fastforce simp: getScheme_def query_free_def list_all_iff)

lemma split_query_fields:
  assumes "split_query rest0 u = (rest, u')" and "CHR ''#'' \<notin> set rest0"
  shows "query_free rest \<and> u_Scheme u' = u_Scheme u \<and> u_Opaque u' = u_Opaque u"
proof (cases "rest0 \<noteq> [] \<and> last rest0 = CHR ''?'' \<and> CHR ''?'' \<notin> set (butlast rest0)")
  case True
  with assms show ?thesis by (auto simp: split_query_def query_free_def dest: in_set_butlastD)
next
  case False
  then obtain q where q: "Cut_or (CHR ''?'') rest0 = (rest, q)" "u' = u\<lparr>u_RawQuery := q\<rparr>"
    using assms(1) by (auto simp: split_query_def split: prod.splits)
  have "query_free rest"
  proof (cases "Cut (CHR ''?'') rest0")
    case None
    then have "CHR ''?'' \<notin> set rest0" by (force simp: Cut_def split: list.splits dest: set_dropWhileD)
    with None q assms(2) show ?thesis by (simp add: Cut_or_def query_free_def)
  next
    case (Some p)
    with q Cut_SomeD [of "CHR ''?''" rest0 rest q] assms(2) show ?thesis by (auto simp: Cut_or_def query_free_def)
  qed
  with q show ?thesis by simp
qed

lemma setPath_fields: "setPath p u = Some u' \<Longrightarrow> u_Scheme u' = u_Scheme u \<and> u_Opaque u' = u_Opaque u"
  by (auto simp: setPath_def)

lemma parse_hier_fields: "parse_hier ph rest u = Some u' \<Longrightarrow> u_Scheme u' = u_Scheme u \<and> u_Opaque u' = u_Opaque u"
  by (auto simp: parse_hier_def parseAuthority_def Let_def split: if_splits option.splits prod.splits dest!: setPath_fields)

lemma parse_url_free:
  assumes "parse_url ph s = Some u" and "CHR ''#'' \<notin> set s"
  shows "query_free (u_Scheme u) \<and> query_free (u_Opaque u)"
proof (cases "s = ''*''")
  case True
  with assms show ?thesis by (auto simp: parse_url_def zero_URL_def split: if_splits)
next
  case False
  with assms obtain sch rest0 where g: "getScheme s = Some (sch, rest0)" by (auto simp: parse_url_def split: if_splits option.splits)
  obtain rest v where v: "split_query rest0 (zero_URL\<lparr>u_Scheme := map ascii_lower sch\<rparr>) = (rest, v)" by fastforce
  have "set rest0 \<subseteq> set s" using scheme_from_chars [of "[]" s sch rest0] g by (simp add: getScheme_def)
  then have f: "query_free rest" "u_Scheme v = map ascii_lower sch" "u_Opaque v = []"
    using split_query_fields [OF v] assms(2) by (auto simp: zero_URL_def)
  have "u = v\<lparr>u_Opaque := rest\<rparr> \<or> parse_hier ph rest v = Some u"
    using assms(1) g v False by (auto simp: parse_url_def split: if_splits)
  with f query_free_scheme [OF g] show ?thesis by (auto dest: parse_hier_fields)
qed

lemma URL_Parse_free: "URL_Parse ph s = Some u \<Longrightarrow> query_free (URL_front u)"
proof -
  assume p: "URL_Parse ph s = Some u"
  obtain t frag where t: "Cut_or (CHR ''#'') s = (t, frag)" by fastforce
  have h: "CHR ''#'' \<notin> set t"
    using t by (force simp: Cut_or_def Cut_def split: option.splits list.splits dest: set_takeWhileD set_dropWhileD)
  from p t obtain v where v: "parse_url ph t = Some v" "u_Scheme u = u_Scheme v" "u_Opaque u = u_Opaque v"
    by (auto simp: URL_Parse_def setFragment_def split: option.splits if_splits)
  with parse_url_free [OF v(1) h] show ?thesis
    by (simp add: URL_front_def Let_def query_free_path query_free_authority)
qed

text \<open>
  The query of a parsed URL is the text between its first question mark and its fragment, and
  setting one key of a query leaves the values of every other key as they were.
\<close>

lemma snd_Cut_or: "snd (Cut_or c s) = tl (dropWhile (\<lambda>d. d \<noteq> c) s)"
  by (cases "dropWhile (\<lambda>d. d \<noteq> c) s") (simp_all add: Cut_or_def Cut_def del: dropWhile_eq_Nil_conv)

lemma snd_Cut_or_append: "c \<notin> set a \<Longrightarrow> snd (Cut_or c (a @ s)) = snd (Cut_or c s)"
  unfolding snd_Cut_or by (subst dropWhile_append2) auto

lemma scheme_from_split:
  "scheme_from pre s = Some (sch, rest) \<Longrightarrow> pre @ s = (if sch = [] then rest else sch @ CHR '':'' # rest)"
  by (induction pre s rule: scheme_from.induct) (auto split: if_splits)

lemma split_query_raw:
  "split_query rest0 u = (rest, u') \<Longrightarrow> u_RawQuery u = [] \<Longrightarrow> u_RawQuery u' = snd (Cut_or (CHR ''?'') rest0)"
proof (cases "rest0 \<noteq> [] \<and> last rest0 = CHR ''?'' \<and> CHR ''?'' \<notin> set (butlast rest0)")
  case True
  assume "split_query rest0 u = (rest, u')" "u_RawQuery u = []"
  moreover have "rest0 = butlast rest0 @ [CHR ''?'']" using True append_butlast_last_id [of rest0] by simp
  then have "Cut (CHR ''?'') rest0 = Some (butlast rest0, [])" using Cut_append [of "CHR ''?''" "butlast rest0" "[]"] True by simp
  ultimately show ?thesis using True by (auto simp: split_query_def Cut_or_def)
qed (auto simp: split_query_def split: prod.splits)

lemma parse_hier_raw: "parse_hier ph rest u = Some u' \<Longrightarrow> u_RawQuery u' = u_RawQuery u"
  by (auto simp: parse_hier_def parseAuthority_def setPath_def Let_def split: if_splits option.splits prod.splits)

lemma parse_url_raw:
  assumes "parse_url ph s = Some u"
  shows "u_RawQuery u = snd (Cut_or (CHR ''?'') s)"
proof (cases "s = ''*''")
  case True
  with assms show ?thesis by (auto simp: parse_url_def zero_URL_def Cut_or_def Cut_def split: if_splits)
next
  case False
  with assms obtain sch rest0 where g: "getScheme s = Some (sch, rest0)" by (auto simp: parse_url_def split: if_splits option.splits)
  obtain rest v where v: "split_query rest0 (zero_URL\<lparr>u_Scheme := map ascii_lower sch\<rparr>) = (rest, v)" by fastforce
  have sp: "s = (if sch = [] then rest0 else sch @ CHR '':'' # rest0)"
    using scheme_from_split [of "[]" s sch rest0] g by (simp add: getScheme_def)
  have "CHR ''?'' \<notin> set sch"
    using scheme_from_chars [of "[]" s sch rest0] g by (force simp: getScheme_def list_all_iff is_alnum_def Let_def)
  then have "snd (Cut_or (CHR ''?'') s) = snd (Cut_or (CHR ''?'') rest0)"
    using snd_Cut_or_append [of "CHR ''?''" "sch @ '':''" rest0] sp by simp
  moreover have "u = v\<lparr>u_Opaque := rest\<rparr> \<or> parse_hier ph rest v = Some u"
    using assms g v False by (auto simp: parse_url_def split: if_splits)
  ultimately show ?thesis using split_query_raw [OF v] by (auto simp: zero_URL_def dest: parse_hier_raw)
qed

lemma URL_Parse_raw: "URL_Parse ph s = Some u \<Longrightarrow> u_RawQuery u = raw_query s"
  by (auto simp: URL_Parse_def setFragment_def raw_query_def dest!: parse_url_raw split: prod.splits option.splits if_splits)

lemma filter_Set: "filter (\<lambda>(k', _). k' = k) (Values_Set k0 x v) =
   (if k = k0 then [(k, x)] else filter (\<lambda>(k', _). k' = k) v)"
  by (induction v) (auto simp: Values_Set_def)

lemma Get_Set: "Values_Get k (Values_Set k x v) = x"
proof -
  have "map_of (Values_Set k x v) k = Some x" by (induction v) (auto simp: Values_Set_def)
  then show ?thesis by (simp add: Values_Get_def)
qed

end
