(* ===== verification/Session.thy ===== *)
theory Session
  imports Crypto NetURL
begin

text \<open>
  One end of a live session (src/session/client.go, handshake.go and relayerror.go). A client is
  a record of its fields; handlers map it to its new state. What it does to the outside is kept
  in logs: \<open>c_sent\<close> (frames written to the connection) and \<open>c_events\<close> (the event channel).
  \<open>c_wok\<close> holds the outcomes of the next writes, so that a write can fail at any point; once it
  is used up, writes succeed. Random bytes are arguments. A loop that reads from the connection
  takes the list of what is read (\<open>None\<close> for a failed read) and returns \<open>None\<close> if it is still
  waiting at the end of the list.
\<close>

section \<open>Roles and events\<close>

type_synonym Role = uint8

abbreviation RoleNone :: Role where "RoleNone \<equiv> 0"
abbreviation RoleHost :: Role where "RoleHost \<equiv> 1"
abbreviation RoleMember :: Role where "RoleMember \<equiv> 2"
abbreviation RoleObserver :: Role where "RoleObserver \<equiv> 3"

datatype Event =
    MemberJoined ParticipantID
  | MemberKeyed ParticipantID Role
  | MemberLeft ParticipantID
  | Frame ParticipantID Envelope
  | Closed string

type_synonym RolePolicy = "ParticipantID \<Rightarrow> bool \<Rightarrow> (ParticipantID \<times> Role) list \<Rightarrow> Role"

definition DefaultRolePolicy :: RolePolicy where
  "DefaultRolePolicy joiner observer assigned = (if observer then RoleObserver else RoleMember)"

section \<open>Errors\<close>

datatype session_error =
    EmptyPhrase
  | BadURL
  | DialFailed
  | NotKeyed
  | WireFailed wire_error
  | CryptoFailed crypto_error
  | ConnReadFailed
  | ConnWriteFailed
  | RelayRefused uint16 string
  | RelayErrorUnreadable
  | UnexpectedReply MsgType MsgType
  | JoinRefused string
  | ResumeRefused string
  | ClosedDuringHandshake
  | GroupKeyBeforePake
  | MarshalFailed

datatype sentinel = ErrSessionNotFound | ErrSessionExists | ErrSessionFull | ErrRateLimited

definition RelayError_Is :: "uint16 \<Rightarrow> sentinel \<Rightarrow> bool" where
  "RelayError_Is code target =
     (case target of
        ErrSessionNotFound \<Rightarrow> code = ErrCodeSessionNotFound
      | ErrSessionExists \<Rightarrow> code = ErrCodeSessionExists
      | ErrSessionFull \<Rightarrow> code = ErrCodeSessionFull
      | ErrRateLimited \<Rightarrow> code = ErrCodeRateLimited)"

definition RelayError_Error :: "uint16 \<Rightarrow> string \<Rightarrow> string" where
  "RelayError_Error code msg = ''session: relay error '' @ dec (unat code) @ '': '' @ msg"

definition relayError :: "codecs \<Rightarrow> bytes \<Rightarrow> session_error" where
  "relayError cb raw =
     (case Body (cError cb) raw of Inl _ \<Rightarrow> RelayErrorUnreadable | Inr e \<Rightarrow> RelayRefused (e_Code e) (e_Msg e))"

definition errors_Is :: "session_error \<Rightarrow> sentinel \<Rightarrow> bool" where
  "errors_Is e target = (case e of RelayRefused code _ \<Rightarrow> RelayError_Is code target | _ \<Rightarrow> False)"

section \<open>The client\<close>

record 'p Client =
  c_relayURL :: string
  c_proto :: runes
  c_sid :: SessionID
  c_phraseC :: runes
  c_self :: ParticipantID
  c_hostID :: ParticipantID
  c_role :: Role
  c_resumeToken :: bytes
  c_observer :: bool
  c_rolePolicy :: RolePolicy
  c_groupKey :: Key
  c_keyed :: bool
  c_prevKeys :: "Key list"
  c_pairwise :: "(ParticipantID \<times> Key) list"
  c_hostPairwise :: Key
  c_haveHostPairwise :: bool
  c_rekeyJoiner :: "'p Joiner option"
  c_seqs :: "string \<Rightarrow> uint64"
  c_joiners :: "(ParticipantID \<times> Role) list"
  c_sent :: "bytes list"
  c_events :: "Event list"
  c_wok :: "bool list"

record rand =
  r_key :: bytes
  r_pake :: bytes
  r_nonce :: "ParticipantID \<Rightarrow> bytes"

definition prevKeyRing :: nat where "prevKeyRing = 8"

definition zeroKey :: Key where "zeroKey = replicate KeySize 0"

section \<open>Configuration and dialling\<close>

record config =
  cfg_protocol :: runes
  cfg_rolePolicy :: RolePolicy
  cfg_observer :: bool

definition DefaultProtocol :: runes where "DefaultProtocol = runes_of ''parley/v1''"

definition WithProtocol :: "runes \<Rightarrow> config \<Rightarrow> config" where
  "WithProtocol label c = c\<lparr>cfg_protocol := label\<rparr>"

definition WithRolePolicy :: "RolePolicy \<Rightarrow> config \<Rightarrow> config" where
  "WithRolePolicy p c = c\<lparr>cfg_rolePolicy := p\<rparr>"

definition WithObserver :: "config \<Rightarrow> config" where
  "WithObserver c = c\<lparr>cfg_observer := True\<rparr>"

definition buildConfig :: "(config \<Rightarrow> config) list \<Rightarrow> config" where
  "buildConfig opts =
     fold (\<lambda>opt cfg. opt cfg) opts
       \<lparr>cfg_protocol = DefaultProtocol, cfg_rolePolicy = DefaultRolePolicy, cfg_observer = False\<rparr>"

text \<open>
  The network a client dials on: the host syntax of \<open>net/url\<close>, and which URLs lead to a relay.
\<close>

record network =
  nw_parseHost :: "string \<Rightarrow> string option"
  nw_reaches :: "string \<Rightarrow> bool"

definition sessionURL :: "(string \<Rightarrow> string option) \<Rightarrow> string \<Rightarrow> SessionID \<Rightarrow> string option" where
  "sessionURL parseHost relayURL sid =
     (case URL_Parse parseHost relayURL of
        None \<Rightarrow> None
      | Some u \<Rightarrow>
          (let q = Values_Set SessionParam (Hex sid) (URL_Query u)
           in Some (URL_String (u\<lparr>u_RawQuery := Values_Encode q\<rparr>))))"

definition dial_url :: "network \<Rightarrow> string \<Rightarrow> SessionID \<Rightarrow> session_error option" where
  "dial_url net relayURL sid =
     (case sessionURL (nw_parseHost net) relayURL sid of
        None \<Rightarrow> Some BadURL
      | Some dialURL \<Rightarrow> if nw_reaches net dialURL then None else Some DialFailed)"

definition dial :: "(rune \<Rightarrow> rune) \<Rightarrow> network \<Rightarrow> string \<Rightarrow> runes \<Rightarrow> config \<Rightarrow> session_error + 'p Client" where
  "dial U net relayURL phraseText cfg =
     (let canonical = Canonical U phraseText;
          sid = SessionID_of U (cfg_protocol cfg) canonical
      in case dial_url net relayURL sid of
           Some e \<Rightarrow> Inl e
         | None \<Rightarrow> Inr \<lparr>c_relayURL = relayURL, c_proto = cfg_protocol cfg, c_sid = sid, c_phraseC = canonical,
           c_self = 0, c_hostID = 0, c_role = RoleNone, c_resumeToken = [], c_observer = False,
           c_rolePolicy = cfg_rolePolicy cfg, c_groupKey = zeroKey, c_keyed = False, c_prevKeys = [],
           c_pairwise = [], c_hostPairwise = zeroKey, c_haveHostPairwise = False, c_rekeyJoiner = None,
           c_seqs = (\<lambda>_. 0), c_joiners = [], c_sent = [], c_events = [], c_wok = []\<rparr>)"

section \<open>Writing and reading\<close>

definition conn_write :: "bytes \<Rightarrow> 'p Client \<Rightarrow> 'p Client \<times> bool" where
  "conn_write frame c =
     (case c_wok c of
        [] \<Rightarrow> (c\<lparr>c_sent := c_sent c @ [frame]\<rparr>, True)
      | ok # rest \<Rightarrow>
          if ok then (c\<lparr>c_sent := c_sent c @ [frame], c_wok := rest\<rparr>, True)
          else (c\<lparr>c_wok := rest\<rparr>, False))"

definition writeFrame_c :: "'a cbor \<Rightarrow> MsgType \<Rightarrow> 'a \<Rightarrow> 'p Client \<Rightarrow> 'p Client \<times> session_error option" where
  "writeFrame_c cd t body c =
     (case Encode cd t body of
        Inl e \<Rightarrow> (c, Some (WireFailed e))
      | Inr frame \<Rightarrow>
          (case conn_write frame c of (c', ok) \<Rightarrow> (c', if ok then None else Some ConnWriteFailed)))"

definition emit :: "Event \<Rightarrow> 'p Client \<Rightarrow> 'p Client" where
  "emit e c = c\<lparr>c_events := c_events c @ [e]\<rparr>"

type_synonym reads = "bytes option list"

definition readFrame_c :: "bytes option \<Rightarrow> session_error + (MsgType \<times> bytes)" where
  "readFrame_c r =
     (case r of
        None \<Rightarrow> Inl ConnReadFailed
      | Some data \<Rightarrow> (case Decode data of Inl e \<Rightarrow> Inl (WireFailed e) | Inr f \<Rightarrow> Inr f))"

fun awaitReply :: "codecs \<Rightarrow> MsgType \<Rightarrow> reads \<Rightarrow> ((session_error + bytes) \<times> reads) option" where
  "awaitReply cb want [] = None"
| "awaitReply cb want (r # rs) =
     (case readFrame_c r of
        Inl e \<Rightarrow> Some (Inl e, rs)
      | Inr (ty, raw) \<Rightarrow>
          if ty = want then Some (Inr raw, rs)
          else if ty = MsgError then Some (Inl (relayError cb raw), rs)
          else if ty = MsgBroadcast \<or> ty = MsgDirect \<or> ty = MsgParticipantJoined \<or> ty = MsgParticipantLeft
          then awaitReply cb want rs
          else Some (Inl (UnexpectedReply ty want), rs))"

section \<open>Keys\<close>

definition pushPrevKey :: "Key \<Rightarrow> 'p Client \<Rightarrow> 'p Client" where
  "pushPrevKey old c = c\<lparr>c_prevKeys := take prevKeyRing (old # c_prevKeys c)\<rparr>"

definition seal :: "'p cryptolib \<Rightarrow> codecs \<Rightarrow> bytes \<Rightarrow> string \<Rightarrow> bytes \<Rightarrow> 'p Client \<Rightarrow>
    'p Client \<times> (session_error + bytes)" where
  "seal L cb nonce serviceID body c =
     (if \<not> c_keyed c then (c, Inl NotKeyed)
      else
        (let n = c_seqs c serviceID + 1;
             c' = c\<lparr>c_seqs := (c_seqs c)(serviceID := n)\<rparr>;
             env = \<lparr>env_ServiceID = serviceID, env_Seq = n, env_Body = body\<rparr>
         in case Marshal (cEnvelope cb) env of
              None \<Rightarrow> (c', Inl MarshalFailed)
            | Some plain \<Rightarrow>
                (case Seal L nonce (c_groupKey c) plain (c_sid c) (c_self c) of
                   Inl e \<Rightarrow> (c', Inl (CryptoFailed e))
                 | Inr sf \<Rightarrow>
                     (case EncodePayload (cSealedFrame cb) KindSealed sf of
                        Inl e \<Rightarrow> (c', Inl (WireFailed e))
                      | Inr payload \<Rightarrow> (c', Inr payload)))))"

definition Broadcast_c :: "'p cryptolib \<Rightarrow> codecs \<Rightarrow> bytes \<Rightarrow> string \<Rightarrow> bytes \<Rightarrow> 'p Client \<Rightarrow>
    'p Client \<times> session_error option" where
  "Broadcast_c L cb nonce serviceID body c =
     (case seal L cb nonce serviceID body c of
        (c', Inl e) \<Rightarrow> (c', Some e)
      | (c', Inr payload) \<Rightarrow>
          writeFrame_c (cBroadcast cb) MsgBroadcast \<lparr>b_From = 0, b_Payload = payload\<rparr> c')"

definition SendTo :: "'p cryptolib \<Rightarrow> codecs \<Rightarrow> bytes \<Rightarrow> ParticipantID \<Rightarrow> string \<Rightarrow> bytes \<Rightarrow> 'p Client \<Rightarrow>
    'p Client \<times> session_error option" where
  "SendTo L cb nonce to serviceID body c =
     (case seal L cb nonce serviceID body c of
        (c', Inl e) \<Rightarrow> (c', Some e)
      | (c', Inr payload) \<Rightarrow>
          writeFrame_c (cDirect cb) MsgDirect \<lparr>d_To = to, d_From = 0, d_Payload = payload\<rparr> c')"

fun try_keys :: "'p cryptolib \<Rightarrow> Key list \<Rightarrow> SealedFrame \<Rightarrow> SessionID \<Rightarrow> ParticipantID \<Rightarrow> bytes option" where
  "try_keys L [] sf sid sender = None"
| "try_keys L (k # ks) sf sid sender =
     (case Open L k sf sid sender of Inr plain \<Rightarrow> Some plain | Inl _ \<Rightarrow> try_keys L ks sf sid sender)"

definition openFrame :: "'p cryptolib \<Rightarrow> SealedFrame \<Rightarrow> ParticipantID \<Rightarrow> 'p Client \<Rightarrow> bytes option" where
  "openFrame L sf sender c =
     (if \<not> c_keyed c then None
      else try_keys L (c_groupKey c # c_prevKeys c) sf (c_sid c) sender)"

fun wrap_all :: "'p cryptolib \<Rightarrow> (ParticipantID \<Rightarrow> bytes) \<Rightarrow> Key \<Rightarrow> SessionID \<Rightarrow> (ParticipantID \<times> Key) list \<Rightarrow>
    (ParticipantID \<times> GroupKey) list option" where
  "wrap_all L nonce newKey sid [] = Some []"
| "wrap_all L nonce newKey sid ((pid, pw) # rest) =
     (case WrapGroupKey L (nonce pid) pw newKey RoleNone sid pid of
        Inl _ \<Rightarrow> None
      | Inr gk \<Rightarrow> map_option (Cons (pid, gk)) (wrap_all L nonce newKey sid rest))"

definition send_rekey :: "codecs \<Rightarrow> ParticipantID \<times> GroupKey \<Rightarrow> 'p Client \<Rightarrow> 'p Client" where
  "send_rekey cb = (\<lambda>(to, gk) c.
     case EncodePayload (cGroupKey cb) KindRekey gk of
       Inl _ \<Rightarrow> c
     | Inr payload \<Rightarrow> fst (writeFrame_c (cDirect cb) MsgDirect \<lparr>d_To = to, d_From = 0, d_Payload = payload\<rparr> c))"

definition rekeyAfterLeave :: "'p cryptolib \<Rightarrow> codecs \<Rightarrow> rand \<Rightarrow> 'p Client \<Rightarrow> 'p Client" where
  "rekeyAfterLeave L cb r c =
     (if c_role c \<noteq> RoleHost \<or> c_hostID c \<noteq> c_self c \<or> c_pairwise c = [] then c
      else
        (let newKey = NewGroupKey (r_key r)
         in case wrap_all L (r_nonce r) newKey (c_sid c) (c_pairwise c) of
              None \<Rightarrow> c
            | Some outs \<Rightarrow>
                (let c1 = fold (send_rekey cb) outs c
                 in (pushPrevKey (c_groupKey c1) c1)\<lparr>c_groupKey := newKey\<rparr>)))"

definition handleRekey :: "'p cryptolib \<Rightarrow> codecs \<Rightarrow> ParticipantID \<Rightarrow> bytes \<Rightarrow> 'p Client \<Rightarrow> 'p Client" where
  "handleRekey L cb frm praw c =
     (if \<not> (c_haveHostPairwise c \<and> frm = c_hostID c) then c
      else case Body (cGroupKey cb) praw of
             Inl _ \<Rightarrow> c
           | Inr gk \<Rightarrow>
               (case UnwrapGroupKey L (c_hostPairwise c) gk (c_sid c) (c_self c) of
                  Inl _ \<Rightarrow> c
                | Inr (key, role) \<Rightarrow>
                    (let c1 = (pushPrevKey (c_groupKey c) c)\<lparr>c_groupKey := key\<rparr>
                     in if role \<noteq> RoleNone then c1\<lparr>c_role := role\<rparr> else c1)))"

section \<open>Host migration\<close>

definition BecomeHost :: "'p Client \<Rightarrow> 'p Client" where
  "BecomeHost c = c\<lparr>c_role := RoleHost, c_hostID := c_self c\<rparr>"

definition SetHostID :: "ParticipantID \<Rightarrow> 'p Client \<Rightarrow> 'p Client" where
  "SetHostID pid c = c\<lparr>c_hostID := pid\<rparr>"

definition ClaimHost :: "codecs \<Rightarrow> 'p Client \<Rightarrow> 'p Client \<times> session_error option" where
  "ClaimHost cb c = writeFrame_c (cClaimHost cb) MsgClaimHost () c"

definition RotateForMigration :: "rand \<Rightarrow> 'p Client \<Rightarrow> 'p Client" where
  "RotateForMigration r c =
     (if c_role c \<noteq> RoleHost \<or> c_hostID c \<noteq> c_self c then c
      else (pushPrevKey (c_groupKey c) c)\<lparr>c_groupKey := NewGroupKey (r_key r), c_pairwise := []\<rparr>)"

definition RekeyWithNewHost :: "'p cryptolib \<Rightarrow> codecs \<Rightarrow> rand \<Rightarrow> 'p Client \<Rightarrow> 'p Client \<times> session_error option" where
  "RekeyWithNewHost L cb r c =
     (if c_role c = RoleHost \<or> c_hostID c = c_self c \<or> \<not> c_keyed c then (c, None)
      else case NewJoiner L (r_pake r) (c_proto c) (c_phraseC c) of
             Inl e \<Rightarrow> (c, Some (CryptoFailed e))
           | Inr j \<Rightarrow>
               (let c1 = c\<lparr>c_rekeyJoiner := Some j\<rparr>
                in case EncodePayload (cPake cb) KindRekeyPake1 \<lparr>p_Data = j_Flight1 j, p_Spectate = False\<rparr> of
                     Inl e \<Rightarrow> (c1, Some (WireFailed e))
                   | Inr payload \<Rightarrow>
                       writeFrame_c (cDirect cb) MsgDirect
                         \<lparr>d_To = c_hostID c, d_From = 0, d_Payload = payload\<rparr> c1))"

section \<open>The joiner's handshake\<close>

definition sendPake1 :: "'p cryptolib \<Rightarrow> codecs \<Rightarrow> rand \<Rightarrow> 'p Client \<Rightarrow> 'p Client \<times> (session_error + 'p Joiner)" where
  "sendPake1 L cb r c =
     (case NewJoiner L (r_pake r) (c_proto c) (c_phraseC c) of
        Inl e \<Rightarrow> (c, Inl (CryptoFailed e))
      | Inr j \<Rightarrow>
          (case EncodePayload (cPake cb) KindPake1 \<lparr>p_Data = j_Flight1 j, p_Spectate = c_observer c\<rparr> of
             Inl e \<Rightarrow> (c, Inl (WireFailed e))
           | Inr payload \<Rightarrow>
               (case writeFrame_c (cDirect cb) MsgDirect
                       \<lparr>d_To = c_hostID c, d_From = 0, d_Payload = payload\<rparr> c of
                  (c', Some e) \<Rightarrow> (c', Inl e)
                | (c', None) \<Rightarrow> (c', Inr j))))"

text \<open>The pairwise key is an option: the source keeps it next to a flag that it is set.\<close>

definition joinHandleDirect :: "'p cryptolib \<Rightarrow> codecs \<Rightarrow> 'p Joiner \<Rightarrow> PayloadKind \<Rightarrow> bytes \<Rightarrow> Key option \<Rightarrow>
    'p Client \<Rightarrow> session_error + (Key option \<times> 'p Client)" where
  "joinHandleDirect L cb j kind praw pw c =
     (if kind = KindPake2 then
        (case Body (cPake cb) praw of
           Inl e \<Rightarrow> Inl (WireFailed e)
         | Inr p \<Rightarrow>
             (case Finish L j (p_Data p) (c_sid c) (c_self c) (c_hostID c) of
                Inl e \<Rightarrow> Inl (CryptoFailed e)
              | Inr key \<Rightarrow> Inr (Some key, c)))
      else if kind = KindGroupKey then
        (case pw of
           None \<Rightarrow> Inl GroupKeyBeforePake
         | Some pwk \<Rightarrow>
             (case Body (cGroupKey cb) praw of
                Inl e \<Rightarrow> Inl (WireFailed e)
              | Inr gk \<Rightarrow>
                  (case UnwrapGroupKey L pwk gk (c_sid c) (c_self c) of
                     Inl e \<Rightarrow> Inl (CryptoFailed e)
                   | Inr (key, role) \<Rightarrow>
                       Inr (pw, c\<lparr>c_groupKey := key, c_role := role, c_keyed := True,
                                  c_hostPairwise := pwk, c_haveHostPairwise := True\<rparr>))))
      else Inr (pw, c))"

fun joinDriveHandshake :: "'p cryptolib \<Rightarrow> codecs \<Rightarrow> 'p Joiner \<Rightarrow> Key option \<Rightarrow> reads \<Rightarrow> 'p Client \<Rightarrow>
    ((session_error + 'p Client) \<times> reads) option" where
  "joinDriveHandshake L cb j pw [] c = (if c_keyed c then Some (Inr c, []) else None)"
| "joinDriveHandshake L cb j pw (rd # rds) c =
     (if c_keyed c then Some (Inr c, rd # rds)
      else case readFrame_c rd of
             Inl e \<Rightarrow> Some (Inl e, rds)
           | Inr (ty, raw) \<Rightarrow>
               if ty = MsgSessionClosed then Some (Inl ClosedDuringHandshake, rds)
               else if ty \<noteq> MsgDirect then joinDriveHandshake L cb j pw rds c
               else case Body (cDirect cb) raw of
                      Inl _ \<Rightarrow> joinDriveHandshake L cb j pw rds c
                    | Inr d \<Rightarrow>
                        if d_From d \<noteq> c_hostID c then joinDriveHandshake L cb j pw rds c
                        else case DecodePayload (d_Payload d) of
                               Inl _ \<Rightarrow> joinDriveHandshake L cb j pw rds c
                             | Inr (kind, praw) \<Rightarrow>
                                 (case joinHandleDirect L cb j kind praw pw c of
                                    Inl e \<Rightarrow> Some (Inl e, rds)
                                  | Inr (pw', c') \<Rightarrow> joinDriveHandshake L cb j pw' rds c'))"

definition joinRequest :: "codecs \<Rightarrow> reads \<Rightarrow> 'p Client \<Rightarrow> ((session_error + 'p Client) \<times> reads) option" where
  "joinRequest cb rds c =
     (case writeFrame_c (cJoinSession cb) MsgJoinSession \<lparr>js_SessionID = c_sid c\<rparr> c of
        (c', Some e) \<Rightarrow> Some (Inl e, rds)
      | (c', None) \<Rightarrow>
          (case awaitReply cb MsgJoinResult rds of
             None \<Rightarrow> None
           | Some (Inl e, rest) \<Rightarrow> Some (Inl e, rest)
           | Some (Inr raw, rest) \<Rightarrow>
               (case Body (cJoinResult cb) raw of
                  Inl e \<Rightarrow> Some (Inl (WireFailed e), rest)
                | Inr jr \<Rightarrow>
                    if \<not> jr_OK jr then Some (Inl (JoinRefused (jr_Err jr)), rest)
                    else Some (Inr (c'\<lparr>c_self := jr_ParticipantID jr, c_hostID := jr_HostID jr,
                                       c_resumeToken := jr_ResumeToken jr\<rparr>), rest))))"

definition joinHello :: "'p cryptolib \<Rightarrow> codecs \<Rightarrow> rand \<Rightarrow> reads \<Rightarrow> 'p Client \<Rightarrow>
    ((session_error + 'p Client) \<times> reads) option" where
  "joinHello L cb r rds c =
     (case joinRequest cb rds c of
        None \<Rightarrow> None
      | Some (Inl e, rest) \<Rightarrow> Some (Inl e, rest)
      | Some (Inr c1, rest) \<Rightarrow>
          (case sendPake1 L cb r c1 of
             (c2, Inl e) \<Rightarrow> Some (Inl e, rest)
           | (c2, Inr j) \<Rightarrow> joinDriveHandshake L cb j None rest c2))"

definition hostHello :: "codecs \<Rightarrow> rand \<Rightarrow> reads \<Rightarrow> 'p Client \<Rightarrow> ((session_error + 'p Client) \<times> reads) option" where
  "hostHello cb r rds c =
     (case writeFrame_c (cCreateSession cb) MsgCreateSession
             \<lparr>cs_SessionID = c_sid c, cs_MaxParticipants = 0\<rparr> c of
        (c', Some e) \<Rightarrow> Some (Inl e, rds)
      | (c', None) \<Rightarrow>
          (case awaitReply cb MsgSessionCreated rds of
             None \<Rightarrow> None
           | Some (Inl e, rest) \<Rightarrow> Some (Inl e, rest)
           | Some (Inr raw, rest) \<Rightarrow>
               (case Body (cSessionCreated cb) raw of
                  Inl e \<Rightarrow> Some (Inl (WireFailed e), rest)
                | Inr sc \<Rightarrow>
                    Some (Inr (c'\<lparr>c_self := sc_ParticipantID sc, c_hostID := sc_ParticipantID sc,
                                  c_resumeToken := sc_ResumeToken sc, c_groupKey := NewGroupKey (r_key r),
                                  c_keyed := True, c_role := RoleHost\<rparr>), rest))))"

definition HostWithPhrase :: "codecs \<Rightarrow> (rune \<Rightarrow> rune) \<Rightarrow> rand \<Rightarrow> network \<Rightarrow> string \<Rightarrow> runes \<Rightarrow> (config \<Rightarrow> config) list \<Rightarrow>
    reads \<Rightarrow> ((session_error + 'p Client) \<times> reads) option" where
  "HostWithPhrase cb U r net relayURL phraseText opts rds =
     (if Canonical U phraseText = [] then Some (Inl EmptyPhrase, rds)
      else case dial U net relayURL phraseText (buildConfig opts) of
             Inl e \<Rightarrow> Some (Inl e, rds)
           | Inr c \<Rightarrow> hostHello cb r rds c)"

definition Host :: "codecs \<Rightarrow> (rune \<Rightarrow> rune) \<Rightarrow> rand \<Rightarrow> network \<Rightarrow> string \<Rightarrow> runes \<Rightarrow> nat \<Rightarrow> nat \<Rightarrow> nat \<Rightarrow>
    (config \<Rightarrow> config) list \<Rightarrow> reads \<Rightarrow> ((session_error + 'p Client \<times> runes) \<times> reads) option" where
  "Host cb U r net relayURL wordsFile v1 v2 v3 opts rds =
     (case phrase_New wordsFile v1 v2 v3 of
        None \<Rightarrow> None
      | Some p \<Rightarrow>
          (case HostWithPhrase cb U r net relayURL p opts rds of
             None \<Rightarrow> None
           | Some (Inl e, rest) \<Rightarrow> Some (Inl e, rest)
           | Some (Inr c, rest) \<Rightarrow> Some (Inr (c, p), rest)))"

definition Join :: "'p cryptolib \<Rightarrow> codecs \<Rightarrow> (rune \<Rightarrow> rune) \<Rightarrow> rand \<Rightarrow> network \<Rightarrow> string \<Rightarrow> runes \<Rightarrow>
    (config \<Rightarrow> config) list \<Rightarrow> reads \<Rightarrow> ((session_error + 'p Client) \<times> reads) option" where
  "Join L cb U r net relayURL phraseText opts rds =
     (let cfg = buildConfig opts
      in case dial U net relayURL phraseText cfg of
           Inl e \<Rightarrow> Some (Inl e, rds)
         | Inr c \<Rightarrow> joinHello L cb r rds (c\<lparr>c_observer := cfg_observer cfg\<rparr>))"

definition Reconnect :: "codecs \<Rightarrow> network \<Rightarrow> bool list \<Rightarrow> reads \<Rightarrow> 'p Client \<Rightarrow>
    ((session_error + 'p Client) \<times> reads) option" where
  "Reconnect cb net wok rds c =
     (case dial_url net (c_relayURL c) (c_sid c) of
        Some e \<Rightarrow> Some (Inl e, rds)
      | None \<Rightarrow>
           case writeFrame_c (cResumeSession cb) MsgResumeSession
                  \<lparr>rs_SessionID = c_sid c, rs_ParticipantID = c_self c, rs_Token = c_resumeToken c\<rparr>
                  (c\<lparr>c_wok := wok\<rparr>) of
             (c', Some e) \<Rightarrow> Some (Inl e, rds)
           | (c', None) \<Rightarrow>
               (case awaitReply cb MsgJoinResult rds of
                  None \<Rightarrow> None
                | Some (Inl e, rest) \<Rightarrow> Some (Inl e, rest)
                | Some (Inr raw, rest) \<Rightarrow>
                    (case Body (cJoinResult cb) raw of
                       Inl e \<Rightarrow> Some (Inl (WireFailed e), rest)
                     | Inr jr \<Rightarrow>
                         if \<not> jr_OK jr then Some (Inl (ResumeRefused (jr_Err jr)), rest)
                         else Some (Inr (c'\<lparr>c_resumeToken := (if jr_ResumeToken jr \<noteq> [] then jr_ResumeToken jr
                                                              else c_resumeToken c'),
                                            c_events := []\<rparr>), rest))))"

section \<open>The host's handshake\<close>

text \<open>
  \<open>reply_with_key\<close> is the end of both responders: the PAKE flight, then the wrapped group key;
  the flag tells whether both were written.
\<close>

definition reply_with_key :: "'p cryptolib \<Rightarrow> codecs \<Rightarrow> rand \<Rightarrow> PayloadKind \<Rightarrow> PayloadKind \<Rightarrow> ParticipantID \<Rightarrow>
    Key \<Rightarrow> bytes \<Rightarrow> Key \<Rightarrow> Role \<Rightarrow> 'p Client \<Rightarrow> 'p Client \<times> bool" where
  "reply_with_key L cb r kpake kkey frm pwk flight2 key role c =
     (case EncodePayload (cPake cb) kpake \<lparr>p_Data = flight2, p_Spectate = False\<rparr> of
        Inl _ \<Rightarrow> (c, False)
      | Inr rep \<Rightarrow>
          (case writeFrame_c (cDirect cb) MsgDirect \<lparr>d_To = frm, d_From = 0, d_Payload = rep\<rparr> c of
             (c1, Some _) \<Rightarrow> (c1, False)
           | (c1, None) \<Rightarrow>
               (case WrapGroupKey L (r_nonce r frm) pwk key role (c_sid c1) frm of
                  Inl _ \<Rightarrow> (c1, False)
                | Inr wrapped \<Rightarrow>
                    (case EncodePayload (cGroupKey cb) kkey wrapped of
                       Inl _ \<Rightarrow> (c1, False)
                     | Inr gkPayload \<Rightarrow>
                         (case writeFrame_c (cDirect cb) MsgDirect
                                 \<lparr>d_To = frm, d_From = 0, d_Payload = gkPayload\<rparr> c1 of
                            (c2, Some _) \<Rightarrow> (c2, False)
                          | (c2, None) \<Rightarrow> (c2, True))))))"

definition assign_role :: "ParticipantID \<Rightarrow> bool \<Rightarrow> 'p Client \<Rightarrow> Role" where
  "assign_role frm spectate c =
     (let role = c_rolePolicy c frm spectate (c_joiners c)
      in if role = RoleNone \<or> role = RoleHost then RoleMember else role)"

definition handleHandshakeDirect :: "'p cryptolib \<Rightarrow> codecs \<Rightarrow> rand \<Rightarrow> ParticipantID \<Rightarrow> PayloadKind \<Rightarrow> bytes \<Rightarrow>
    'p Client \<Rightarrow> 'p Client" where
  "handleHandshakeDirect L cb r frm kind praw c =
     (if c_role c \<noteq> RoleHost \<or> kind \<noteq> KindPake1 then c
      else case Body (cPake cb) praw of
             Inl _ \<Rightarrow> c
           | Inr p \<Rightarrow>
               (case HostExchange L (r_pake r) (c_proto c) (c_phraseC c) (p_Data p) (c_sid c) frm (c_self c) of
                  Inl _ \<Rightarrow> c
                | Inr (pwk, flight2) \<Rightarrow>
                    (let role = assign_role frm (p_Spectate p) c;
                         c1 = c\<lparr>c_joiners := AList.update frm role (c_joiners c),
                                c_pairwise := AList.update frm pwk (c_pairwise c)\<rparr>
                     in case reply_with_key L cb r KindPake2 KindGroupKey frm pwk flight2 (c_groupKey c1) role c1 of
                          (c2, True) \<Rightarrow> emit (MemberKeyed frm role) c2
                        | (c2, False) \<Rightarrow> c2)))"

definition handleRekeyPake1 :: "'p cryptolib \<Rightarrow> codecs \<Rightarrow> rand \<Rightarrow> ParticipantID \<Rightarrow> bytes \<Rightarrow> 'p Client \<Rightarrow> 'p Client" where
  "handleRekeyPake1 L cb r frm praw c =
     (if \<not> (c_role c = RoleHost \<and> c_hostID c = c_self c) then c
      else case Body (cPake cb) praw of
             Inl _ \<Rightarrow> c
           | Inr p \<Rightarrow>
               (case HostExchange L (r_pake r) (c_proto c) (c_phraseC c) (p_Data p) (c_sid c) frm (c_self c) of
                  Inl _ \<Rightarrow> c
                | Inr (pwk, flight2) \<Rightarrow>
                    (let c1 = c\<lparr>c_pairwise := AList.update frm pwk (c_pairwise c)\<rparr>
                     in fst (reply_with_key L cb r KindRekeyPake2 KindRekey frm pwk flight2
                               (c_groupKey c1) RoleNone c1))))"

definition handleRekeyPake2 :: "'p cryptolib \<Rightarrow> codecs \<Rightarrow> ParticipantID \<Rightarrow> bytes \<Rightarrow> 'p Client \<Rightarrow> 'p Client" where
  "handleRekeyPake2 L cb frm praw c =
     (case c_rekeyJoiner c of
        None \<Rightarrow> c
      | Some j \<Rightarrow>
          if frm \<noteq> c_hostID c then c
          else case Body (cPake cb) praw of
                 Inl _ \<Rightarrow> c
               | Inr p \<Rightarrow>
                   (case Finish L j (p_Data p) (c_sid c) (c_self c) (c_hostID c) of
                      Inl _ \<Rightarrow> c
                    | Inr pwk \<Rightarrow> c\<lparr>c_hostPairwise := pwk, c_haveHostPairwise := True, c_rekeyJoiner := None\<rparr>))"

section \<open>The read loop\<close>

definition handlePayload :: "'p cryptolib \<Rightarrow> codecs \<Rightarrow> rand \<Rightarrow> ParticipantID \<Rightarrow> bytes \<Rightarrow> 'p Client \<Rightarrow> 'p Client" where
  "handlePayload L cb r frm payload c =
     (case DecodePayload payload of
        Inl _ \<Rightarrow> c
      | Inr (kind, praw) \<Rightarrow>
          if kind = KindRekey then handleRekey L cb frm praw c
          else if kind = KindRekeyPake1 then handleRekeyPake1 L cb r frm praw c
          else if kind = KindRekeyPake2 then handleRekeyPake2 L cb frm praw c
          else if kind \<noteq> KindSealed then handleHandshakeDirect L cb r frm kind praw c
          else case Body (cSealedFrame cb) praw of
                 Inl _ \<Rightarrow> c
               | Inr sf \<Rightarrow>
                   (case openFrame L sf frm c of
                      None \<Rightarrow> c
                    | Some plain \<Rightarrow>
                        (case Body (cEnvelope cb) plain of
                           Inl _ \<Rightarrow> c
                         | Inr env \<Rightarrow> emit (Frame frm env) c)))"

definition dispatchFrame :: "'p cryptolib \<Rightarrow> codecs \<Rightarrow> rand \<Rightarrow> MsgType \<Rightarrow> bytes \<Rightarrow> 'p Client \<Rightarrow> 'p Client \<times> bool" where
  "dispatchFrame L cb r ty raw c =
     (if ty = MsgParticipantJoined then
        (case Body (cParticipantJoined cb) raw of
           Inl _ \<Rightarrow> (c, False)
         | Inr pj \<Rightarrow> (emit (MemberJoined (pj_ParticipantID pj)) c, False))
      else if ty = MsgParticipantLeft then
        (case Body (cParticipantLeft cb) raw of
           Inl _ \<Rightarrow> (c, False)
         | Inr pl \<Rightarrow>
             (let p = pl_ParticipantID pl;
                  c1 = c\<lparr>c_joiners := AList.delete p (c_joiners c), c_pairwise := AList.delete p (c_pairwise c)\<rparr>
              in (rekeyAfterLeave L cb r (emit (MemberLeft p) c1), False)))
      else if ty = MsgSessionClosed then
        (emit (Closed (case Body (cSessionClosed cb) raw of Inl _ \<Rightarrow> '''' | Inr sc \<Rightarrow> sc_Reason sc)) c, True)
      else if ty = MsgDirect then
        (case Body (cDirect cb) raw of
           Inl _ \<Rightarrow> (c, False)
         | Inr d \<Rightarrow> (handlePayload L cb r (d_From d) (d_Payload d) c, False))
      else if ty = MsgBroadcast then
        (case Body (cBroadcast cb) raw of
           Inl _ \<Rightarrow> (c, False)
         | Inr b \<Rightarrow> (handlePayload L cb r (b_From b) (b_Payload b) c, False))
      else (c, False))"

text \<open>The flag tells whether the loop has ended (and closed the event channel).\<close>

fun readLoop_c :: "'p cryptolib \<Rightarrow> codecs \<Rightarrow> (rand \<times> bytes option) list \<Rightarrow> 'p Client \<Rightarrow> 'p Client \<times> bool" where
  "readLoop_c L cb [] c = (c, False)"
| "readLoop_c L cb ((r, rd) # rds) c =
     (case readFrame_c rd of
        Inl _ \<Rightarrow> (emit (Closed ''connection lost'') c, True)
      | Inr (ty, raw) \<Rightarrow>
          (case dispatchFrame L cb r ty raw c of
             (c', True) \<Rightarrow> (c', True)
           | (c', False) \<Rightarrow> readLoop_c L cb rds c'))"

text \<open>The frames a heartbeat writes, given the outcomes of its writes.\<close>

fun pingLoop :: "codecs \<Rightarrow> uint32 \<Rightarrow> bool list \<Rightarrow> bytes list" where
  "pingLoop cb nonce [] = []"
| "pingLoop cb nonce (ok # oks) =
     (case Encode (cPing cb) MsgPing \<lparr>ping_Nonce = nonce + 1\<rparr> of
        Inl _ \<Rightarrow> pingLoop cb (nonce + 1) oks
      | Inr frame \<Rightarrow> if ok then frame # pingLoop cb (nonce + 1) oks else [])"

end
