(* ===== verification/SessionInv.thy ===== *)
theory SessionInv
  imports Session
begin

text \<open>
  The invariant of a session end: the sizes of its keys, the bound on the ring of superseded
  keys and the roles it has handed out, shown for every operation and so for every state a
  client can reach.
\<close>

section \<open>Writing only touches the log\<close>

lemma writeFrame_c_None:
  "writeFrame_c cd t b c = (c', None) \<Longrightarrow>
     \<exists>f. Encode cd t b = Inr f \<and> c' = c\<lparr>c_sent := c_sent c @ [f], c_wok := tl (c_wok c)\<rparr>"
  by (auto simp: writeFrame_c_def conn_write_def split: sum.splits list.splits if_splits)

definition only_writes :: "'p Client \<Rightarrow> 'p Client \<Rightarrow> bool" where
  "only_writes c c' \<longleftrightarrow> (\<exists>fs w. c' = c\<lparr>c_sent := c_sent c @ fs, c_wok := w\<rparr>)"

lemma only_writes_refl [simp]: "only_writes c c"
  unfolding only_writes_def by (rule exI [of _ "[]"], rule exI [of _ "c_wok c"]) simp

lemma only_writes_trans [trans]: "only_writes a b \<Longrightarrow> only_writes b c \<Longrightarrow> only_writes a c"
  unfolding only_writes_def by (elim exE, simp) blast

lemma only_writes_writeFrame_c: "writeFrame_c cd t b c = (c', e) \<Longrightarrow> only_writes c c'"
proof -
  assume w: "writeFrame_c cd t b c = (c', e)"
  have "c = c\<lparr>c_sent := c_sent c @ [], c_wok := c_wok c\<rparr>" by simp
  with w have "c' = c\<lparr>c_sent := c_sent c @ [], c_wok := c_wok c\<rparr> \<or>
      (\<exists>f. c' = c\<lparr>c_sent := c_sent c @ [f], c_wok := c_wok c\<rparr>) \<or>
      (\<exists>f. c' = c\<lparr>c_sent := c_sent c @ [f], c_wok := tl (c_wok c)\<rparr>) \<or>
      c' = c\<lparr>c_sent := c_sent c @ [], c_wok := tl (c_wok c)\<rparr>"
    by (auto simp: writeFrame_c_def conn_write_def split: sum.splits list.splits if_splits)
  then show ?thesis unfolding only_writes_def by blast
qed

lemma only_writes_fields:
  assumes "only_writes c c'"
  shows "c_sid c' = c_sid c" "c_self c' = c_self c" "c_hostID c' = c_hostID c" "c_role c' = c_role c"
    "c_groupKey c' = c_groupKey c" "c_keyed c' = c_keyed c" "c_prevKeys c' = c_prevKeys c"
    "c_pairwise c' = c_pairwise c" "c_hostPairwise c' = c_hostPairwise c" "c_joiners c' = c_joiners c"
    "c_events c' = c_events c" "c_haveHostPairwise c' = c_haveHostPairwise c" "c_rekeyJoiner c' = c_rekeyJoiner c"
    "c_proto c' = c_proto c" "c_phraseC c' = c_phraseC c" "c_seqs c' = c_seqs c"
  using assms by (auto simp: only_writes_def)

section \<open>The invariant of a client\<close>

definition role_ok :: "Role \<Rightarrow> bool" where
  "role_ok r \<longleftrightarrow> r \<noteq> RoleNone \<and> r \<noteq> RoleHost"

definition all_values :: "('v \<Rightarrow> bool) \<Rightarrow> ('k \<times> 'v) list \<Rightarrow> bool" where
  "all_values P m \<longleftrightarrow> (\<forall>(k, v) \<in> set m. P v)"

lemma all_values_Nil [simp]: "all_values P []"
  by (simp add: all_values_def)

lemma all_values_update [simp]: "all_values P m \<Longrightarrow> P v \<Longrightarrow> all_values P (AList.update k v m)"
  unfolding all_values_def by (induction m) auto

lemma all_values_delete [simp]: "all_values P m \<Longrightarrow> all_values P (AList.delete k m)"
  by (auto simp: all_values_def AList.delete_eq)

lemma all_values_map_of: "all_values P m \<Longrightarrow> map_of m k = Some v \<Longrightarrow> P v"
  by (auto simp: all_values_def dest: map_of_SomeD)

definition client_inv :: "'p Client \<Rightarrow> bool" where
  "client_inv c \<longleftrightarrow>
     length (c_sid c) = 16 \<and> length (c_groupKey c) = KeySize \<and>
     (\<forall>k \<in> set (c_prevKeys c). length k = KeySize) \<and> length (c_prevKeys c) \<le> prevKeyRing \<and>
     wf_map (c_pairwise c) \<and> all_values (\<lambda>k. length k = KeySize) (c_pairwise c) \<and>
     length (c_hostPairwise c) = KeySize \<and>
     wf_map (c_joiners c) \<and> all_values role_ok (c_joiners c)"

lemma only_writes_inv: "only_writes c c' \<Longrightarrow> client_inv c \<Longrightarrow> client_inv c'"
  by (simp add: client_inv_def only_writes_fields)

lemma client_inv_emit [simp]: "client_inv (emit e c) = client_inv c"
  by (simp add: client_inv_def emit_def)

lemma client_inv_new_key:
  "client_inv c \<Longrightarrow> length k = KeySize \<Longrightarrow> client_inv ((pushPrevKey (c_groupKey c) c)\<lparr>c_groupKey := k\<rparr>)"
  by (auto simp: client_inv_def pushPrevKey_def dest!: in_set_takeD)

lemma UnwrapGroupKey_length: "UnwrapGroupKey L pw gk sid p = Inr (key, role) \<Longrightarrow> length key = KeySize"
  by (auto simp: UnwrapGroupKey_def split: if_splits option.splits)

lemma derivePairwise_length:
  "lib_ok L \<Longrightarrow> derivePairwise L pr raw sid a b = Inr k \<Longrightarrow> length k = KeySize"
  using derivePairwise_delivers [of L pr raw sid a b] by (auto simp: KeySize_def)

lemma Finish_length: "lib_ok L \<Longrightarrow> Finish L j f sid a b = Inr k \<Longrightarrow> length k = KeySize"
  by (auto simp: Finish_def dest: derivePairwise_length split: option.splits)

lemma HostExchange_length: "lib_ok L \<Longrightarrow> HostExchange L r pr ph f sid a b = Inr (k, g) \<Longrightarrow> length k = KeySize"
  by (auto simp: HostExchange_def dest: derivePairwise_length split: option.splits sum.splits)

lemma only_writes_reply:
  "reply_with_key L cb r k1 k2 frm pwk fl key role c = (c', ok) \<Longrightarrow> only_writes c c'"
  by (auto simp: reply_with_key_def split: sum.splits prod.splits option.splits
      dest!: only_writes_writeFrame_c intro: only_writes_trans)

lemma only_writes_send_rekey: "only_writes c (send_rekey cb out c)"
  by (cases out) (auto simp: send_rekey_def split: sum.splits intro: only_writes_writeFrame_c [OF surjective_pairing])

lemma only_writes_fold_send_rekey: "only_writes c (fold (send_rekey cb) outs c)"
  by (induction outs arbitrary: c) (auto intro: only_writes_trans only_writes_send_rekey)

section \<open>Every operation preserves the invariant\<close>

lemma inv_rekeyAfterLeave:
  "client_inv c \<Longrightarrow> length (r_key r) = KeySize \<Longrightarrow> client_inv (rekeyAfterLeave L cb r c)"
  by (auto simp: rekeyAfterLeave_def Let_def NewGroupKey_def split: option.splits
      intro!: client_inv_new_key only_writes_inv [OF only_writes_fold_send_rekey])

lemma inv_handleRekey: "client_inv c \<Longrightarrow> client_inv (handleRekey L cb frm praw c)"
proof -
  assume c: "client_inv c"
  have "client_inv (d\<lparr>c_role := x\<rparr>)" if "client_inv d" for d :: "'a Client" and x
    using that by (simp add: client_inv_def)
  with c show ?thesis
    by (auto simp: handleRekey_def Let_def split: sum.splits dest!: UnwrapGroupKey_length intro: client_inv_new_key)
qed

lemma inv_new_pairwise:
  "client_inv c \<Longrightarrow> length k = KeySize \<Longrightarrow> client_inv (c\<lparr>c_pairwise := AList.update p k (c_pairwise c)\<rparr>)"
  by (simp add: client_inv_def)

lemma inv_new_joiner:
  "client_inv c \<Longrightarrow> role_ok r \<Longrightarrow> client_inv (c\<lparr>c_joiners := AList.update p r (c_joiners c)\<rparr>)"
  by (simp add: client_inv_def)

lemma assign_role_ok: "role_ok (assign_role frm sp c)"
  by (simp add: assign_role_def role_ok_def Let_def)

lemma inv_handleHandshakeDirect:
  assumes "lib_ok L" "client_inv c"
  shows "client_inv (handleHandshakeDirect L cb r frm kind praw c)"
proof -
  have "client_inv (c\<lparr>c_joiners := AList.update frm (assign_role frm sp c) (c_joiners c),
      c_pairwise := AList.update frm k (c_pairwise c)\<rparr>)" if "length k = KeySize" for k sp
    using inv_new_pairwise [OF inv_new_joiner [OF assms(2) assign_role_ok, of frm frm sp c] that, of frm] by simp
  with assms show ?thesis
    by (auto simp: handleHandshakeDirect_def Let_def split: sum.splits prod.splits bool.splits
        dest!: HostExchange_length [OF assms(1)] only_writes_reply intro: only_writes_inv)
qed

lemma inv_handleRekeyPake1:
  "lib_ok L \<Longrightarrow> client_inv c \<Longrightarrow> client_inv (handleRekeyPake1 L cb r frm praw c)"
  by (auto simp: handleRekeyPake1_def Let_def split: sum.splits
      dest!: HostExchange_length intro!: only_writes_inv [OF only_writes_reply [OF surjective_pairing]] inv_new_pairwise)

lemma inv_handleRekeyPake2: "lib_ok L \<Longrightarrow> client_inv c \<Longrightarrow> client_inv (handleRekeyPake2 L cb frm praw c)"
  by (auto simp: handleRekeyPake2_def client_inv_def dest!: Finish_length split: option.splits sum.splits)

lemma inv_handlePayload: "lib_ok L \<Longrightarrow> client_inv c \<Longrightarrow> client_inv (handlePayload L cb r frm payload c)"
  by (auto simp: handlePayload_def inv_handleRekey inv_handleRekeyPake1 inv_handleRekeyPake2
      inv_handleHandshakeDirect split: sum.splits option.splits)

lemma inv_member_left:
  assumes "client_inv c"
  shows "client_inv (c\<lparr>c_joiners := AList.delete p (c_joiners c), c_pairwise := AList.delete p (c_pairwise c)\<rparr>)"
  using assms by (simp add: client_inv_def)

lemma inv_dispatchFrame:
  assumes "lib_ok L" "client_inv c" "length (r_key r) = KeySize"
  shows "client_inv (fst (dispatchFrame L cb r ty raw c))"
  using assms
  by (auto simp: dispatchFrame_def Let_def inv_handlePayload inv_member_left
      intro!: inv_rekeyAfterLeave split: sum.splits)

lemma inv_readLoop_c:
  "lib_ok L \<Longrightarrow> client_inv c \<Longrightarrow> \<forall>(r, rd) \<in> set rds. length (r_key r) = KeySize \<Longrightarrow>
     client_inv (fst (readLoop_c L cb rds c))"
proof (induction rds arbitrary: c)
  case (Cons x rds)
  obtain r rd where [simp]: "x = (r, rd)" by (cases x)
  have d: "client_inv (fst (dispatchFrame L cb r ty raw c))" for ty raw
    using Cons.prems by (intro inv_dispatchFrame) auto
  show ?case
    using Cons.prems Cons.IH d
    by (auto split: sum.splits prod.splits bool.splits) (metis fst_conv)+
qed simp

section \<open>A client over its lifetime\<close>

datatype client_event =
    CRead rand "bytes option"
  | CBroadcast bytes string bytes
  | CSendTo bytes ParticipantID string bytes
  | CBecomeHost
  | CSetHostID ParticipantID
  | CClaimHost
  | CRotate rand
  | CRekey rand
  | CReconnect network "bool list" reads

inductive client_trans :: "'p cryptolib \<Rightarrow> codecs \<Rightarrow> 'p Client \<Rightarrow> client_event \<Rightarrow> 'p Client \<Rightarrow> bool"
  for L :: "'p cryptolib" and cb :: codecs where
  ct_read: "length (r_key r) = KeySize \<Longrightarrow>
     client_trans L cb c (CRead r rd) (fst (readLoop_c L cb [(r, rd)] c))"
| ct_broadcast: "client_trans L cb c (CBroadcast n s b) (fst (Broadcast_c L cb n s b c))"
| ct_send: "client_trans L cb c (CSendTo n to s b) (fst (SendTo L cb n to s b c))"
| ct_become: "client_trans L cb c CBecomeHost (BecomeHost c)"
| ct_sethost: "client_trans L cb c (CSetHostID p) (SetHostID p c)"
| ct_claim: "client_trans L cb c CClaimHost (fst (ClaimHost cb c))"
| ct_rotate: "length (r_key r) = KeySize \<Longrightarrow> client_trans L cb c (CRotate r) (RotateForMigration r c)"
| ct_rekey: "client_trans L cb c (CRekey r) (fst (RekeyWithNewHost L cb r c))"
| ct_reconnect: "Reconnect cb up wok rds c = Some (Inr c', rest) \<Longrightarrow>
     client_trans L cb c (CReconnect up wok rds) c'"

inductive client_initial :: "'p cryptolib \<Rightarrow> codecs \<Rightarrow> 'p Client \<Rightarrow> bool"
  for L :: "'p cryptolib" and cb :: codecs where
  ci_host: "length (r_key r) = KeySize \<Longrightarrow>
     HostWithPhrase cb U r up url ph opts rds = Some (Inr c, rest) \<Longrightarrow> client_initial L cb c"
| ci_join: "Join L cb U r up url ph opts rds = Some (Inr c, rest) \<Longrightarrow> client_initial L cb c"

lemma inv_seal: "seal L cb n s b c = (c', x) \<Longrightarrow> client_inv c \<Longrightarrow> client_inv c'"
  by (auto simp: seal_def client_inv_def Let_def split: if_splits option.splits sum.splits)

lemma inv_writeFrame_c: "client_inv c \<Longrightarrow> client_inv (fst (writeFrame_c cd t b c))"
  by (rule only_writes_inv [OF only_writes_writeFrame_c [OF surjective_pairing]])

lemma inv_Broadcast_c: "client_inv c \<Longrightarrow> client_inv (fst (Broadcast_c L cb n s b c))"
  by (auto simp: Broadcast_c_def split: prod.splits sum.splits dest: inv_seal intro: inv_writeFrame_c)

lemma inv_SendTo: "client_inv c \<Longrightarrow> client_inv (fst (SendTo L cb n to s b c))"
  by (auto simp: SendTo_def split: prod.splits sum.splits dest: inv_seal intro: inv_writeFrame_c)

lemma inv_RotateForMigration:
  "client_inv c \<Longrightarrow> length (r_key r) = KeySize \<Longrightarrow> client_inv (RotateForMigration r c)"
  using client_inv_new_key [of c "NewGroupKey (r_key r)"]
  by (auto simp: RotateForMigration_def client_inv_def NewGroupKey_def)

lemma inv_RekeyWithNewHost: "client_inv c \<Longrightarrow> client_inv (fst (RekeyWithNewHost L cb r c))"
proof -
  assume "client_inv c"
  then have "client_inv (c\<lparr>c_rekeyJoiner := x\<rparr>)" for x by (simp add: client_inv_def)
  with \<open>client_inv c\<close> show ?thesis
    by (auto simp: RekeyWithNewHost_def Let_def inv_writeFrame_c split: sum.splits)
qed

lemma inv_written: "writeFrame_c cd t b c = (c', e) \<Longrightarrow> client_inv c \<Longrightarrow> client_inv c'"
  by (metis inv_writeFrame_c fst_conv)

lemma inv_Reconnect:
  assumes "client_inv c" "Reconnect cb up wok rds c = Some (Inr c', rest)"
  shows "client_inv c'"
proof -
  have w: "client_inv (c\<lparr>c_wok := wok\<rparr>)" using assms(1) by (simp add: client_inv_def)
  from assms(2) obtain d t where "client_inv d"
    "c' = d\<lparr>c_resumeToken := t, c_events := []\<rparr> \<or> c' = d\<lparr>c_events := []\<rparr>"
    by (auto simp: Reconnect_def split: if_splits prod.splits option.splits sum.splits dest!: inv_written [OF _ w])
  then show ?thesis by (auto simp: client_inv_def)
qed

lemma inv_dial: "dial U up url ph cfg = Inr c \<Longrightarrow> client_inv c"
  by (auto simp: dial_def client_inv_def SessionID_of_def zeroKey_def prevKeyRing_def Let_def split: option.splits)

lemma inv_hostHello:
  assumes "client_inv c" "length (r_key r) = KeySize" "hostHello cb r rds c = Some (Inr c', rest)"
  shows "client_inv c'"
proof -
  from assms(3) obtain d p t where "client_inv d" "c' = d\<lparr>c_self := p, c_hostID := p, c_resumeToken := t,
      c_groupKey := r_key r, c_keyed := True, c_role := RoleHost\<rparr>"
    by (auto simp: hostHello_def NewGroupKey_def split: prod.splits option.splits sum.splits
        dest!: inv_written [OF _ assms(1)])
  with assms(2) show ?thesis by (simp add: client_inv_def)
qed

lemma inv_joinHandleDirect:
  assumes "lib_ok L" "client_inv c" "\<forall>k. pw = Some k \<longrightarrow> length k = KeySize"
    "joinHandleDirect L cb j kind praw pw c = Inr (pw', c')"
  shows "client_inv c' \<and> (\<forall>k. pw' = Some k \<longrightarrow> length k = KeySize)"
  using assms
  by (auto simp: joinHandleDirect_def client_inv_def split: if_splits sum.splits option.splits
      dest!: Finish_length UnwrapGroupKey_length)

lemma inv_joinDriveHandshake:
  "lib_ok L \<Longrightarrow> joinDriveHandshake L cb j pw rds c = Some (Inr c', rest) \<Longrightarrow> client_inv c \<Longrightarrow>
     \<forall>k. pw = Some k \<longrightarrow> length k = KeySize \<Longrightarrow> client_inv c'"
proof (induction rds arbitrary: pw c)
  case (Cons rd rds)
  show ?case
  proof (cases "joinDriveHandshake L cb j pw rds c = Some (Inr c', rest)")
    case False
    with Cons.prems(2) have "c' = c \<or> (\<exists>kind praw pw1 c1. joinHandleDirect L cb j kind praw pw c = Inr (pw1, c1) \<and>
        joinDriveHandshake L cb j pw1 rds c1 = Some (Inr c', rest))"
      by (auto split: sum.splits if_splits prod.splits)
    with Cons.prems Cons.IH inv_joinHandleDirect [OF Cons.prems(1,3,4)] show ?thesis by blast
  qed (use Cons in blast)
qed (auto split: if_splits)

lemma inv_joinRequest:
  assumes "client_inv c" "joinRequest cb rds c = Some (Inr c', rest)"
  shows "client_inv c'"
proof -
  from assms(2) obtain d p q t where "client_inv d" "c' = d\<lparr>c_self := p, c_hostID := q, c_resumeToken := t\<rparr>"
    by (auto simp: joinRequest_def split: prod.splits option.splits sum.splits if_splits
        dest!: inv_written [OF _ assms(1)])
  then show ?thesis by (simp add: client_inv_def)
qed

lemma inv_sendPake1: "client_inv c \<Longrightarrow> sendPake1 L cb r c = (c', x) \<Longrightarrow> client_inv c'"
  by (auto simp: sendPake1_def split: prod.splits option.splits sum.splits dest: inv_written)

lemma inv_Join:
  assumes "lib_ok L" "Join L cb U r up url ph opts rds = Some (Inr c, rest)"
  shows "client_inv c"
proof -
  from assms(2) obtain d where d: "dial U up url ph (buildConfig opts) = Inr d"
    "joinHello L cb r rds (d\<lparr>c_observer := cfg_observer (buildConfig opts)\<rparr>) = Some (Inr c, rest)"
    by (auto simp: Join_def Let_def split: sum.splits)
  then have i: "client_inv (d\<lparr>c_observer := cfg_observer (buildConfig opts)\<rparr>)"
    using inv_dial [OF d(1)] by (simp add: client_inv_def)
  from d(2) obtain c1 rds1 c2 j where
    "joinRequest cb rds (d\<lparr>c_observer := cfg_observer (buildConfig opts)\<rparr>) = Some (Inr c1, rds1)"
    "sendPake1 L cb r c1 = (c2, Inr j)" and drive: "joinDriveHandshake L cb j None rds1 c2 = Some (Inr c, rest)"
    unfolding joinHello_def by (auto split: option.splits sum.splits prod.splits)
  then have "client_inv c2" using i inv_joinRequest inv_sendPake1 by blast
  then show ?thesis by (rule inv_joinDriveHandshake [OF assms(1) drive]) simp
qed

lemma inv_initial: "lib_ok L \<Longrightarrow> client_initial L cb c \<Longrightarrow> client_inv c"
  by (erule client_initial.cases)
    (auto simp: HostWithPhrase_def split: if_splits sum.splits dest: inv_dial inv_hostHello inv_Join)

lemma inv_trans:
  assumes "lib_ok L" "client_trans L cb c e c'" "client_inv c"
  shows "client_inv c'"
  using assms(2)
proof cases
  case (ct_read r rd)
  then show ?thesis using inv_readLoop_c [of L c "[(r, rd)]" cb] assms by simp
qed (use assms in \<open>simp_all add: inv_Broadcast_c inv_SendTo inv_RotateForMigration inv_RekeyWithNewHost
  inv_writeFrame_c ClaimHost_def inv_Reconnect, simp_all add: client_inv_def BecomeHost_def SetHostID_def\<close>)

interpretation session_end: transition_system "client_initial L cb" "client_trans L cb"
  "\<lambda>c. lib_ok L \<longrightarrow> client_inv c" for L :: "'p cryptolib" and cb :: codecs
  by unfold_locales (auto intro: inv_initial inv_trans)

end
