(* ===== verification/SessionProps.thy ===== *)
theory SessionProps
  imports SessionInv HubDelivery
begin

text \<open>
  Two session ends and the relay between them: sealed traffic, the joining handshake, the
  rotation of the group key on departures, and host migration, each from the frame one end
  writes to the state of the end that reads what the relay makes of it.
\<close>

declare readLoop_c.simps(2) [simp del]

section \<open>Every reachable client\<close>

text \<open>
  C9. Key hygiene of a session end, over its whole lifetime: in every state that Host or Join
  followed by any sequence of received frames, sends, reconnects and host migrations can reach,
  the group key, every retained old key and every pairwise key has 32 bytes, at most eight
  superseded keys are kept, and no joiner was ever given the reserved roles (none or host).
\<close>

theorem client_invariant:
  assumes "lib_ok L" and "reachable_from (client_initial L cb) (client_trans L cb) c"
  shows "length (c_sid c) = 16 \<and> length (c_groupKey c) = 32 \<and>
     (\<forall>k \<in> set (c_prevKeys c). length k = 32) \<and> length (c_prevKeys c) \<le> 8 \<and>
     (\<forall>p k. map_of (c_pairwise c) p = Some k \<longrightarrow> length k = 32) \<and>
     (\<forall>p r. map_of (c_joiners c) p = Some r \<longrightarrow> r \<noteq> RoleNone \<and> r \<noteq> RoleHost)"
proof -
  have "client_inv c" using session_end.reachable_invariant [OF assms(2)] assms(1) by simp
  then show ?thesis
    unfolding client_inv_def KeySize_def prevKeyRing_def
    by (auto dest: all_values_map_of simp: role_ok_def)
qed

section \<open>From one end to the other\<close>

text \<open>
  \<open>delivers cb frm to f data\<close>: the relay may turn the frame \<open>f\<close> that participant \<open>frm\<close> wrote
  into the frame \<open>data\<close> that participant \<open>to\<close> reads (\<open>forwarded\<close> is what the hub is shown to
  put on a queue).
\<close>

definition delivers :: "codecs \<Rightarrow> ParticipantID \<Rightarrow> ParticipantID \<Rightarrow> bytes \<Rightarrow> bytes \<Rightarrow> bool" where
  "delivers cb frm to f data \<longleftrightarrow> (\<exists>ty raw. Decode f = Inr (ty, raw) \<and> forwarded cb frm to ty raw data)"

lemma delivers_Direct:
  assumes "codecs_ok cb" "Encode (cDirect cb) MsgDirect d = Inr f" "delivers cb frm to f data" "to \<noteq> frm"
  shows "d_To d = to" "\<exists>raw. Decode data = Inr (MsgDirect, raw) \<and> Body (cDirect cb) raw = Inr (d\<lparr>d_From := frm\<rparr>)"
proof -
  have "cbor_roundtrip (cDirect cb)" using assms(1) by (simp add: codecs_ok_def)
  from Encode_decodes [OF this assms(2)] assms(3,4)
  have "d_To d = to \<and> (\<exists>raw. Decode data = Inr (MsgDirect, raw) \<and> Body (cDirect cb) raw = Inr (d\<lparr>d_From := frm\<rparr>))"
    by (auto simp: delivers_def forwarded_def)
  then show "d_To d = to" "\<exists>raw. Decode data = Inr (MsgDirect, raw) \<and> Body (cDirect cb) raw = Inr (d\<lparr>d_From := frm\<rparr>)"
    by blast+
qed

lemma delivers_Broadcast:
  assumes "codecs_ok cb" "Encode (cBroadcast cb) MsgBroadcast b = Inr f" "delivers cb frm to f data" "to \<noteq> frm"
  shows "\<exists>raw. Decode data = Inr (MsgBroadcast, raw) \<and> Body (cBroadcast cb) raw = Inr (b\<lparr>b_From := frm\<rparr>)"
proof -
  have "cbor_roundtrip (cBroadcast cb)" using assms(1) by (simp add: codecs_ok_def)
  from Encode_decodes [OF this assms(2)] assms(3,4) show ?thesis
    by (auto simp: delivers_def forwarded_def)
qed

lemma read_Direct:
  "Decode data = Inr (MsgDirect, raw) \<Longrightarrow> Body (cDirect cb) raw = Inr d \<Longrightarrow>
     readLoop_c L cb ((r, Some data) # rds) c = readLoop_c L cb rds (handlePayload L cb r (d_From d) (d_Payload d) c)"
  by (simp add: readLoop_c.simps(2) readFrame_c_def dispatchFrame_def)

lemma read_Broadcast:
  "Decode data = Inr (MsgBroadcast, raw) \<Longrightarrow> Body (cBroadcast cb) raw = Inr b \<Longrightarrow>
     readLoop_c L cb ((r, Some data) # rds) c = readLoop_c L cb rds (handlePayload L cb r (b_From b) (b_Payload b) c)"
  by (simp add: readLoop_c.simps(2) readFrame_c_def dispatchFrame_def)

lemma payload_decodes:
  "cbor_roundtrip c \<Longrightarrow> EncodePayload c k v = Inr p \<Longrightarrow> \<exists>b. DecodePayload p = Inr (k, b) \<and> Body c b = Inr v"
  by (auto simp: EncodePayload_Inr_iff dest: Body_roundtrip)

lemma payload_arrives:
  assumes "codecs_ok cb" "cbor_roundtrip cd" "EncodePayload cd kind v = Inr payload"
    "Encode (cDirect cb) MsgDirect \<lparr>d_To = x, d_From = 0, d_Payload = payload\<rparr> = Inr f"
    "delivers cb frm to f data" "to \<noteq> frm"
  shows "\<exists>praw. DecodePayload payload = Inr (kind, praw) \<and> Body cd praw = Inr v \<and>
     (\<forall>r rds c. readLoop_c L cb ((r, Some data) # rds) c = readLoop_c L cb rds (handlePayload L cb r frm payload c))"
proof -
  from delivers_Direct(2) [OF assms(1,4-6)] obtain raw where
    "Decode data = Inr (MsgDirect, raw)" "Body (cDirect cb) raw = Inr \<lparr>d_To = x, d_From = frm, d_Payload = payload\<rparr>"
    by auto
  from read_Direct [OF this] payload_decodes [OF assms(2,3)] show ?thesis by auto
qed

section \<open>Sealed traffic\<close>

lemma try_keys_sealed:
  assumes "lib_ok L" "length key = 32" "length sid = 16" "Seal L n key pt sid s = Inr sf"
    and "\<forall>k \<in> set ks. length k = 32"
  shows "try_keys L ks sf sid s' = (if s' = s \<and> key \<in> set ks then Some pt else None)"
  using assms(5)
proof (induction ks)
  case (Cons k ks)
  note so = Seal_Open [OF assms(1-4)]
  show ?case
  proof (cases "k = key")
    case True
    then show ?thesis using so(1) so(2) [OF assms(3), of s'] Cons by auto
  next
    case False
    then have "Open L k sf sid s' = Inl ErrOpen" using so(3) Cons.prems by auto
    then show ?thesis using Cons False by auto
  qed
qed simp

lemma seal_Inr:
  assumes "seal L cb n svc body a = (a', Inr payload)"
  shows "\<exists>plain sf. Marshal (cEnvelope cb) \<lparr>env_ServiceID = svc, env_Seq = c_seqs a svc + 1, env_Body = body\<rparr> = Some plain \<and>
     Seal L n (c_groupKey a) plain (c_sid a) (c_self a) = Inr sf \<and>
     EncodePayload (cSealedFrame cb) KindSealed sf = Inr payload \<and>
     a' = a\<lparr>c_seqs := (c_seqs a)(svc := c_seqs a svc + 1)\<rparr>"
  using assms by (auto simp: seal_def Let_def split: if_splits option.splits sum.splits)

lemma handle_sealed:
  assumes "lib_ok L" "codecs_ok cb" "client_inv a" "client_inv b" "c_sid b = c_sid a" "c_keyed b"
    and "seal L cb n svc body a = (a', Inr payload)"
  shows "handlePayload L cb r frm payload b =
     (if frm = c_self a \<and> c_groupKey a \<in> set (c_groupKey b # c_prevKeys b)
      then emit (Frame frm \<lparr>env_ServiceID = svc, env_Seq = c_seqs a svc + 1, env_Body = body\<rparr>) b else b)"
proof -
  from seal_Inr [OF assms(7)] obtain plain sf where
    s: "Marshal (cEnvelope cb) \<lparr>env_ServiceID = svc, env_Seq = c_seqs a svc + 1, env_Body = body\<rparr> = Some plain"
    "Seal L n (c_groupKey a) plain (c_sid a) (c_self a) = Inr sf"
    "EncodePayload (cSealedFrame cb) KindSealed sf = Inr payload" by blast
  have rt: "cbor_roundtrip (cSealedFrame cb)" "cbor_roundtrip (cEnvelope cb)"
    using assms(2) by (simp_all add: codecs_ok_def)
  from payload_decodes [OF rt(1) s(3)] obtain praw where
    p: "DecodePayload payload = Inr (KindSealed, praw)" "Body (cSealedFrame cb) praw = Inr sf" by blast
  have e: "Body (cEnvelope cb) plain = Inr \<lparr>env_ServiceID = svc, env_Seq = c_seqs a svc + 1, env_Body = body\<rparr>"
    using Body_roundtrip [OF rt(2)] s(1) by (simp add: Marshal_def)
  have "openFrame L sf frm b =
      (if frm = c_self a \<and> c_groupKey a \<in> set (c_groupKey b # c_prevKeys b) then Some plain else None)"
    unfolding openFrame_def
    using try_keys_sealed [OF assms(1) _ _ s(2), of "c_groupKey b # c_prevKeys b" frm] assms(3-6)
    by (simp add: client_inv_def KeySize_def)
  then show ?thesis by (auto simp: handlePayload_def p e)
qed

lemma end_to_end_Broadcast:
  assumes "lib_ok L" and "codecs_ok cb" and "client_inv a" and "client_inv b"
    and "c_sid b = c_sid a" and "c_keyed b"
    and "Broadcast_c L cb n svc body a = (a', None)"
    and "delivers cb frm (c_self b) (last (c_sent a')) data" and "frm \<noteq> c_self b"
  shows "readLoop_c L cb [(r, Some data)] b =
     (if frm = c_self a \<and> c_groupKey a \<in> set (c_groupKey b # c_prevKeys b)
      then emit (Frame (c_self a) \<lparr>env_ServiceID = svc, env_Seq = c_seqs a svc + 1, env_Body = body\<rparr>) b
      else b, False)"
proof -
  from assms(7) obtain a1 payload where s: "seal L cb n svc body a = (a1, Inr payload)"
    and w: "writeFrame_c (cBroadcast cb) MsgBroadcast \<lparr>b_From = 0, b_Payload = payload\<rparr> a1 = (a', None)"
    by (auto simp: Broadcast_c_def split: prod.splits sum.splits)
  from writeFrame_c_None [OF w] obtain f where
    f: "Encode (cBroadcast cb) MsgBroadcast \<lparr>b_From = 0, b_Payload = payload\<rparr> = Inr f" "last (c_sent a') = f"
    by auto
  with delivers_Broadcast [OF assms(2) f(1), of frm "c_self b" data] assms(8,9) obtain raw where
    d: "Decode data = Inr (MsgBroadcast, raw)" "Body (cBroadcast cb) raw = Inr \<lparr>b_From = frm, b_Payload = payload\<rparr>"
    by auto
  show ?thesis
    using read_Broadcast [OF d, of L r "[]" b] handle_sealed [OF assms(1-6) s, of r frm] by auto
qed

text \<open>
  A broadcast arrives exactly as sent, or not at all: when one end broadcasts a message and
  the relay delivers the frame to another end of the same session, that end emits one event
  with the sender, service, sequence number and body of the message if the key it was sealed
  under is its group key or one of the superseded keys it keeps, and nothing otherwise. If the
  relay attributes the frame to anybody else, nothing is emitted.
\<close>

theorem broadcast_end_to_end:
  assumes "lib_ok L" and "codecs_ok cb" and "client_inv a" and "client_inv b"
    and "c_sid b = c_sid a" and "c_keyed b"
    and "Broadcast_c L cb n svc body a = (a', None)"
    and "delivers cb frm (c_self b) (last (c_sent a')) data" and "frm \<noteq> c_self b"
  shows "readLoop_c L cb [(r, Some data)] b =
     (if frm = c_self a \<and> c_groupKey a \<in> set (c_groupKey b # c_prevKeys b)
      then emit (Frame (c_self a) \<lparr>env_ServiceID = svc, env_Seq = c_seqs a svc + 1, env_Body = body\<rparr>) b
      else b, False)"
  by (rule end_to_end_Broadcast [OF assms])

section \<open>The joining handshake\<close>

lemma reply_with_key_True:
  assumes "reply_with_key L cb r k1 k2 frm pwk fl key role c = (c', True)"
  shows "\<exists>rep f2 gk gp f3. EncodePayload (cPake cb) k1 \<lparr>p_Data = fl, p_Spectate = False\<rparr> = Inr rep \<and>
     Encode (cDirect cb) MsgDirect \<lparr>d_To = frm, d_From = 0, d_Payload = rep\<rparr> = Inr f2 \<and>
     WrapGroupKey L (r_nonce r frm) pwk key role (c_sid c) frm = Inr gk \<and>
     EncodePayload (cGroupKey cb) k2 gk = Inr gp \<and>
     Encode (cDirect cb) MsgDirect \<lparr>d_To = frm, d_From = 0, d_Payload = gp\<rparr> = Inr f3 \<and>
     c_sent c' = c_sent c @ [f2, f3]"
  using assms unfolding reply_with_key_def
  by (auto split: sum.splits prod.splits option.splits dest!: writeFrame_c_None)

text \<open>Frames that a joiner skips while it waits for the host's two replies.\<close>

definition skipped :: "codecs \<Rightarrow> ParticipantID \<Rightarrow> bytes option \<Rightarrow> bool" where
  "skipped cb host rd \<longleftrightarrow> (case readFrame_c rd of
     Inl _ \<Rightarrow> False
   | Inr (ty, raw) \<Rightarrow> ty \<noteq> MsgSessionClosed \<and>
       (ty = MsgDirect \<longrightarrow> (case Body (cDirect cb) raw of Inl _ \<Rightarrow> True | Inr d \<Rightarrow> d_From d \<noteq> host)))"

lemma drive_skipped:
  "\<forall>rd \<in> set n. skipped cb (c_hostID c) rd \<Longrightarrow> \<not> c_keyed c \<Longrightarrow>
     joinDriveHandshake L cb j pw (n @ rds) c = joinDriveHandshake L cb j pw rds c"
  by (induction n) (auto simp: skipped_def split: sum.splits prod.splits)

lemma drive_Direct:
  assumes "\<forall>rd \<in> set n. skipped cb (c_hostID c) rd" and "Decode data = Inr (MsgDirect, raw)"
    and "Body (cDirect cb) raw = Inr d" and "\<not> c_keyed c" and "joinHandleDirect L cb j kind praw pw c = Inr (pw', c')"
    and "d_From d = c_hostID c" and "DecodePayload (d_Payload d) = Inr (kind, praw)"
  shows "joinDriveHandshake L cb j pw (n @ Some data # rds) c = joinDriveHandshake L cb j pw' rds c'"
proof -
  have "joinDriveHandshake L cb j pw (Some data # rds) c = joinDriveHandshake L cb j pw' rds c'"
    using assms(2-) by (simp add: readFrame_c_def)
  then show ?thesis using drive_skipped [OF assms(1,4)] by simp
qed

lemma drive_keyed: "c_keyed c \<Longrightarrow> joinDriveHandshake L cb j pw rds c = Some (Inr c, rds)"
  by (cases rds) simp_all

lemma joiner_completes:
  assumes "lib_ok L" "codecs_ok cb" "length (c_sid c) = 16" "length key = 32" "\<not> c_keyed c"
    and hello: "c_hostID c = host" "host \<noteq> c_self c" "Finish L j fl (c_sid c) (c_self c) host = Inr pwk"
    and reply: "reply_with_key L cb r KindPake2 KindGroupKey (c_self c) pwk fl key role h = (h', True)"
      "c_sid h = c_sid c" "c_sent h' = c_sent h @ [f2, f3]"
    and net: "delivers cb host (c_self c) f2 d2" "delivers cb host (c_self c) f3 d3"
      "\<forall>rd \<in> set n1. skipped cb host rd" "\<forall>rd \<in> set n2. skipped cb host rd"
  shows "joinDriveHandshake L cb j None (n1 @ Some d2 # n2 @ Some d3 # rest) c =
     Some (Inr (c\<lparr>c_groupKey := key, c_role := role, c_keyed := True,
                  c_hostPairwise := pwk, c_haveHostPairwise := True\<rparr>), rest)"
proof -
  from reply_with_key_True [OF reply(1)] reply(2,3) obtain rep gk gp where
    enc: "EncodePayload (cPake cb) KindPake2 \<lparr>p_Data = fl, p_Spectate = False\<rparr> = Inr rep"
      "Encode (cDirect cb) MsgDirect \<lparr>d_To = c_self c, d_From = 0, d_Payload = rep\<rparr> = Inr f2"
      "WrapGroupKey L (r_nonce r (c_self c)) pwk key role (c_sid c) (c_self c) = Inr gk"
      "EncodePayload (cGroupKey cb) KindGroupKey gk = Inr gp"
      "Encode (cDirect cb) MsgDirect \<lparr>d_To = c_self c, d_From = 0, d_Payload = gp\<rparr> = Inr f3" by auto
  have rt: "cbor_roundtrip (cPake cb)" "cbor_roundtrip (cGroupKey cb)" using assms(2) by (simp_all add: codecs_ok_def)
  from payload_decodes [OF rt(1) enc(1)] payload_decodes [OF rt(2) enc(4)] obtain b2 b3 where
    b: "DecodePayload rep = Inr (KindPake2, b2)" "Body (cPake cb) b2 = Inr \<lparr>p_Data = fl, p_Spectate = False\<rparr>"
      "DecodePayload gp = Inr (KindGroupKey, b3)" "Body (cGroupKey cb) b3 = Inr gk" by blast
  from delivers_Direct(2) [OF assms(2) enc(2) net(1)] delivers_Direct(2) [OF assms(2) enc(5) net(2)] hello(2)
  obtain w2 w3 where w: "Decode d2 = Inr (MsgDirect, w2)" "Decode d3 = Inr (MsgDirect, w3)"
    "Body (cDirect cb) w2 = Inr \<lparr>d_To = c_self c, d_From = host, d_Payload = rep\<rparr>"
    "Body (cDirect cb) w3 = Inr \<lparr>d_To = c_self c, d_From = host, d_Payload = gp\<rparr>" by auto
  let ?c = "c\<lparr>c_groupKey := key, c_role := role, c_keyed := True, c_hostPairwise := pwk, c_haveHostPairwise := True\<rparr>"
  have l: "length pwk = 32" using Finish_length [OF assms(1) hello(3)] by (simp add: KeySize_def)
  have h2: "joinHandleDirect L cb j KindPake2 b2 None c = Inr (Some pwk, c)"
    using hello b(2) by (simp add: joinHandleDirect_def)
  have h3: "joinHandleDirect L cb j KindGroupKey b3 (Some pwk) c = Inr (Some pwk, ?c)"
    using b(4) Wrap_Unwrap(1) [OF assms(1) l assms(3) enc(3) assms(4)] by (simp add: joinHandleDirect_def)
  have "joinDriveHandshake L cb j None (n1 @ Some d2 # n2 @ Some d3 # rest) c =
      joinDriveHandshake L cb j (Some pwk) (n2 @ Some d3 # rest) c"
    by (rule drive_Direct [OF _ w(1,3) assms(5) h2]) (simp_all add: hello(1) net(3) b(1))
  also have "\<dots> = joinDriveHandshake L cb j (Some pwk) rest ?c"
    by (rule drive_Direct [OF _ w(2,4) assms(5) h3]) (simp_all add: hello(1) net(4) b(3))
  finally show ?thesis by (simp add: drive_keyed)
qed

lemma handle_Pake1:
  assumes "c_role h = RoleHost" "Body (cPake cb) praw = Inr p"
    "HostExchange L (r_pake r) (c_proto h) (c_phraseC h) (p_Data p) (c_sid h) frm (c_self h) = Inr (pwk, fl)"
    "c_events (handleHandshakeDirect L cb r frm KindPake1 praw h) \<noteq> c_events h"
  shows "\<exists>h1 h2. reply_with_key L cb r KindPake2 KindGroupKey frm pwk fl (c_groupKey h) (assign_role frm (p_Spectate p) h) h1
       = (h2, True) \<and> c_sid h1 = c_sid h \<and> c_sent h1 = c_sent h \<and> c_events h2 = c_events h \<and>
     c_groupKey h2 = c_groupKey h \<and> map_of (c_pairwise h2) frm = Some pwk \<and>
     handleHandshakeDirect L cb r frm KindPake1 praw h = emit (MemberKeyed frm (assign_role frm (p_Spectate p) h)) h2"
proof -
  let ?role = "assign_role frm (p_Spectate p) h"
  let ?h = "h\<lparr>c_joiners := AList.update frm ?role (c_joiners h), c_pairwise := AList.update frm pwk (c_pairwise h)\<rparr>"
  obtain h2 ok where rk: "reply_with_key L cb r KindPake2 KindGroupKey frm pwk fl (c_groupKey h) ?role ?h = (h2, ok)"
    by fastforce
  note ow = only_writes_fields [OF only_writes_reply [OF rk]]
  have eq: "handleHandshakeDirect L cb r frm KindPake1 praw h = (if ok then emit (MemberKeyed frm ?role) h2 else h2)"
    using assms(1-3) rk by (simp add: handleHandshakeDirect_def Let_def split: bool.split)
  with assms(4) ow have "ok" by (auto split: if_splits)
  with rk eq ow show ?thesis by (intro exI [of _ ?h] exI [of _ h2]) simp
qed

text \<open>
  C1. Joining agrees with hosting: a joiner sends its first flight, the relay delivers it to the
  host, and the host reports the joiner as keyed. Then the host has written exactly two frames,
  and once the relay delivers them (with any membership notices, broadcasts or messages of
  others in between) the joiner's handshake ends with the host's group key, with the role the
  host reported, which is neither of the reserved ones, and with the pairwise key under which
  the host will send it later keys.
\<close>

theorem join_agrees_with_host:
  assumes "lib_ok L" and "codecs_ok cb" and "client_inv h" and "c_role h = RoleHost"
    and "c_proto j = c_proto h" and "c_phraseC j = c_phraseC h" and "c_sid j = c_sid h"
    and "c_hostID j = c_self h" and "c_self j \<noteq> c_self h" and "\<not> c_keyed j"
    and "sendPake1 L cb r j = (j1, Inr jn)"
    and "delivers cb (c_self j) (c_self h) (last (c_sent j1)) d1"
    and "readLoop_c L cb [(r', Some d1)] h = (h', stop)" and "c_events h' \<noteq> c_events h"
  shows "\<exists>role f2 f3 pwk. c_events h' = c_events h @ [MemberKeyed (c_self j) role] \<and>
     role \<noteq> RoleNone \<and> role \<noteq> RoleHost \<and> c_groupKey h' = c_groupKey h \<and>
     map_of (c_pairwise h') (c_self j) = Some pwk \<and> c_sent h' = c_sent h @ [f2, f3] \<and>
     (\<forall>d2 d3 n1 n2 rest. delivers cb (c_self h) (c_self j) f2 d2 \<longrightarrow> delivers cb (c_self h) (c_self j) f3 d3 \<longrightarrow>
        (\<forall>rd \<in> set n1 \<union> set n2. skipped cb (c_self h) rd) \<longrightarrow>
        joinDriveHandshake L cb jn None (n1 @ Some d2 # n2 @ Some d3 # rest) j1 =
          Some (Inr (j1\<lparr>c_groupKey := c_groupKey h, c_role := role, c_keyed := True,
                        c_hostPairwise := pwk, c_haveHostPairwise := True\<rparr>), rest))"
proof -
  from assms(11) obtain payload where nj: "NewJoiner L (r_pake r) (c_proto j) (c_phraseC j) = Inr jn"
    and ep: "EncodePayload (cPake cb) KindPake1 \<lparr>p_Data = j_Flight1 jn, p_Spectate = c_observer j\<rparr> = Inr payload"
    and wf: "writeFrame_c (cDirect cb) MsgDirect \<lparr>d_To = c_hostID j, d_From = 0, d_Payload = payload\<rparr> j = (j1, None)"
    by (auto simp: sendPake1_def split: sum.splits prod.splits option.splits)
  note ow = only_writes_fields [OF only_writes_writeFrame_c [OF wf]]
  from writeFrame_c_None [OF wf] obtain f1 where
    f1: "Encode (cDirect cb) MsgDirect \<lparr>d_To = c_hostID j, d_From = 0, d_Payload = payload\<rparr> = Inr f1" "last (c_sent j1) = f1"
    by auto
  have "cbor_roundtrip (cPake cb)" using assms(2) by (simp add: codecs_ok_def)
  from payload_arrives [OF assms(2) this ep f1(1), of "c_self j" "c_self h" d1 L] f1(2) assms(9,12) obtain b1 where
    b1: "DecodePayload payload = Inr (KindPake1, b1)"
      "Body (cPake cb) b1 = Inr \<lparr>p_Data = j_Flight1 jn, p_Spectate = c_observer j\<rparr>"
    and rd: "readLoop_c L cb [(r', Some d1)] h = readLoop_c L cb [] (handlePayload L cb r' (c_self j) payload h)" by auto
  from exchange_agrees [OF assms(1) nj, of "r_pake r'" "c_sid h" "c_self j" "c_self h"] assms(5,6) obtain pwk fl where
    ex: "HostExchange L (r_pake r') (c_proto h) (c_phraseC h) (j_Flight1 jn) (c_sid h) (c_self j) (c_self h) = Inr (pwk, fl)"
      "Finish L jn fl (c_sid h) (c_self j) (c_self h) = Inr pwk" by auto
  have h': "h' = handleHandshakeDirect L cb r' (c_self j) KindPake1 b1 h"
    using rd assms(13) b1(1) by (simp add: handlePayload_def)
  from handle_Pake1 [OF assms(4) b1(2), of L r' "c_self j" pwk fl] ex(1) assms(14) h'
  obtain h1 h2 where r: "reply_with_key L cb r' KindPake2 KindGroupKey (c_self j) pwk fl (c_groupKey h)
      (assign_role (c_self j) (c_observer j) h) h1 = (h2, True)"
    "c_sid h1 = c_sid h" "c_sent h1 = c_sent h" "c_events h2 = c_events h" "c_groupKey h2 = c_groupKey h"
    "map_of (c_pairwise h2) (c_self j) = Some pwk"
    "h' = emit (MemberKeyed (c_self j) (assign_role (c_self j) (c_observer j) h)) h2" by auto
  from reply_with_key_True [OF r(1)] obtain f2 f3 where f: "c_sent h2 = c_sent h1 @ [f2, f3]" by blast
  have k: "length (c_sid j1) = 16" "length (c_groupKey h) = 32"
    using assms(3,7) ow by (simp_all add: client_inv_def KeySize_def)
  have "joinDriveHandshake L cb jn None (n1 @ Some d2 # n2 @ Some d3 # rest) j1 =
      Some (Inr (j1\<lparr>c_groupKey := c_groupKey h, c_role := assign_role (c_self j) (c_observer j) h, c_keyed := True,
                    c_hostPairwise := pwk, c_haveHostPairwise := True\<rparr>), rest)"
    if "delivers cb (c_self h) (c_self j) f2 d2" "delivers cb (c_self h) (c_self j) f3 d3"
      "\<forall>rd \<in> set n1 \<union> set n2. skipped cb (c_self h) rd" for d2 d3 n1 n2 rest
    by (rule joiner_completes [OF assms(1,2) k, where h = h1 and h' = h2 and fl = fl])
      (use that ow assms ex(2) r(1,2) f in auto)
  then show ?thesis
    using r f assign_role_ok [of "c_self j" "c_observer j" h] by (auto simp: emit_def role_ok_def)
qed

section \<open>Departures\<close>

lemma wrap_all_total:
  "all_values (\<lambda>k. length k = KeySize) m \<Longrightarrow> \<exists>outs. wrap_all L nonce key sid m = Some outs"
  by (induction m) (auto simp: all_values_def WrapGroupKey_def)

text \<open>\<open>f\<close> carries the fresh key to \<open>q\<close>, wrapped under the pairwise key \<open>pw\<close>.\<close>

definition rekey_frame :: "'p cryptolib \<Rightarrow> codecs \<Rightarrow> rand \<Rightarrow> SessionID \<Rightarrow> ParticipantID \<Rightarrow> Key \<Rightarrow> bytes \<Rightarrow> bool" where
  "rekey_frame L cb r sid q pw f \<longleftrightarrow>
     (\<exists>gk p. WrapGroupKey L (r_nonce r q) pw (r_key r) RoleNone sid q = Inr gk \<and>
        EncodePayload (cGroupKey cb) KindRekey gk = Inr p \<and>
        Encode (cDirect cb) MsgDirect \<lparr>d_To = q, d_From = 0, d_Payload = p\<rparr> = Inr f)"

lemma send_rekey_sent:
  assumes "WrapGroupKey L (r_nonce r q) pw (r_key r) RoleNone sid q = Inr gk"
  shows "\<exists>fs. c_sent (send_rekey cb (q, gk) c) = c_sent c @ fs \<and> (\<forall>f \<in> set fs. rekey_frame L cb r sid q pw f) \<and>
     (c_wok c = [] \<longrightarrow> c_wok (send_rekey cb (q, gk) c) = [] \<and> (\<forall>f. rekey_frame L cb r sid q pw f \<longrightarrow> fs = [f]))"
  using assms
  by (auto simp: send_rekey_def writeFrame_c_def conn_write_def rekey_frame_def split: sum.splits list.splits if_splits)

lemma sent_rekeys:
  assumes "wrap_all L (r_nonce r) (r_key r) sid m = Some outs"
  shows "\<exists>fs. c_sent (fold (send_rekey cb) outs c) = c_sent c @ fs \<and>
     (\<forall>f \<in> set fs. \<exists>(q, pw) \<in> set m. rekey_frame L cb r sid q pw f) \<and>
     (c_wok c = [] \<longrightarrow> (\<forall>(q, pw) \<in> set m. \<exists>f. rekey_frame L cb r sid q pw f) \<longrightarrow>
        list_all2 (\<lambda>(q, pw). rekey_frame L cb r sid q pw) m fs)"
  using assms
proof (induction m arbitrary: outs c)
  case (Cons x m)
  obtain q pw where x: "x = (q, pw)" by (cases x)
  from Cons.prems x obtain gk outs' where
    w: "WrapGroupKey L (r_nonce r q) pw (r_key r) RoleNone sid q = Inr gk" "outs = (q, gk) # outs'"
      "wrap_all L (r_nonce r) (r_key r) sid m = Some outs'" by (auto split: sum.splits)
  let ?c = "send_rekey cb (q, gk) c"
  from Cons.IH [OF w(3), of ?c] obtain gs where
    gs: "c_sent (fold (send_rekey cb) outs' ?c) = c_sent ?c @ gs" "\<forall>f \<in> set gs. \<exists>(q, pw) \<in> set m. rekey_frame L cb r sid q pw f"
      "c_wok ?c = [] \<longrightarrow> (\<forall>(q, pw) \<in> set m. \<exists>f. rekey_frame L cb r sid q pw f) \<longrightarrow>
        list_all2 (\<lambda>(q, pw). rekey_frame L cb r sid q pw) m gs" by blast
  from send_rekey_sent [OF w(1), of cb c] obtain fs where
    fs: "c_sent ?c = c_sent c @ fs" "\<forall>f \<in> set fs. rekey_frame L cb r sid q pw f"
      "c_wok c = [] \<longrightarrow> c_wok ?c = [] \<and> (\<forall>f. rekey_frame L cb r sid q pw f \<longrightarrow> fs = [f])"
    by blast
  show ?case
    using gs fs w(2) by (intro exI [of _ "fs @ gs"]) (auto simp: x)
qed simp


lemma survivor_installs:
  assumes "lib_ok L" "codecs_ok cb" "length (c_sid m) = 16" "length key = 32" "length pw = 32"
    and "c_haveHostPairwise m" "c_hostPairwise m = pw" "c_hostID m = host" "host \<noteq> c_self m"
    and "WrapGroupKey L n pw key RoleNone (c_sid m) (c_self m) = Inr gk"
    and "EncodePayload (cGroupKey cb) KindRekey gk = Inr p"
    and "Encode (cDirect cb) MsgDirect \<lparr>d_To = c_self m, d_From = 0, d_Payload = p\<rparr> = Inr f"
    and "delivers cb host (c_self m) f data"
  shows "readLoop_c L cb ((r, Some data) # rds) m =
     readLoop_c L cb rds ((pushPrevKey (c_groupKey m) m)\<lparr>c_groupKey := key\<rparr>)"
proof -
  have "cbor_roundtrip (cGroupKey cb)" using assms(2) by (simp add: codecs_ok_def)
  from payload_arrives [OF assms(2) this assms(11,12,13), of L] assms(9) obtain praw where
    p: "DecodePayload p = Inr (KindRekey, praw)" "Body (cGroupKey cb) praw = Inr gk"
    and rd: "readLoop_c L cb ((r, Some data) # rds) m = readLoop_c L cb rds (handlePayload L cb r host p m)" by auto
  have "handlePayload L cb r host p m = (pushPrevKey (c_groupKey m) m)\<lparr>c_groupKey := key\<rparr>"
    using Wrap_Unwrap(1) [OF assms(1,5,3,10,4)] p assms(6-8)
    by (simp add: handlePayload_def handleRekey_def Let_def)
  then show ?thesis by (simp add: rd)
qed

lemma rekey_frame_read:
  assumes "lib_ok L" "codecs_ok cb" "length sid = 16" "length (r_key r) = 32" "length pw = 32"
    and "rekey_frame L cb r sid q pw f" "delivers cb host to f data" "to \<noteq> host"
  shows "to = q"
    and "c_self m = q \<Longrightarrow> c_hostID m = host \<Longrightarrow> c_sid m = sid \<Longrightarrow> c_haveHostPairwise m \<Longrightarrow> c_hostPairwise m = pw \<Longrightarrow>
      readLoop_c L cb [(r', Some data)] m = ((pushPrevKey (c_groupKey m) m)\<lparr>c_groupKey := r_key r\<rparr>, False)"
proof -
  from assms(6) obtain gk pl where
    f: "WrapGroupKey L (r_nonce r q) pw (r_key r) RoleNone sid q = Inr gk" "EncodePayload (cGroupKey cb) KindRekey gk = Inr pl"
      "Encode (cDirect cb) MsgDirect \<lparr>d_To = q, d_From = 0, d_Payload = pl\<rparr> = Inr f" by (auto simp: rekey_frame_def)
  show to: "to = q" using delivers_Direct(1) [OF assms(2) f(3) assms(7,8)] by simp
  show "readLoop_c L cb [(r', Some data)] m = ((pushPrevKey (c_groupKey m) m)\<lparr>c_groupKey := r_key r\<rparr>, False)"
    if "c_self m = q" "c_hostID m = host" "c_sid m = sid" "c_haveHostPairwise m" "c_hostPairwise m = pw"
    using survivor_installs [OF assms(1,2), of m "r_key r" pw host "r_nonce r q" gk pl f data r' "[]"]
      that f to assms(3-5,7,8) by auto
qed

text \<open>
  C5. A departure locks the leaver out: when the host reads that a participant has left and it
  holds a pairwise key of anybody else, its group key becomes the fresh one at once, the old one
  is kept only to open frames in flight, and the leaver's pairwise key is forgotten. What the host
  writes are frames that carry the fresh key to remaining members, each wrapped under that
  member's pairwise key and addressed to it, and never to the leaver: the relay can deliver such a
  frame to nobody else. While writes succeed and the frames encode it is exactly one frame for
  each remaining member, in order. The addressee that reads its frame installs the fresh key and
  keeps its role.
\<close>

theorem leave_rotates_key:
  assumes "lib_ok L" and "codecs_ok cb" and "client_inv h" and "c_role h = RoleHost" and "c_hostID h = c_self h"
    and "Body (cParticipantLeft cb) raw = Inr \<lparr>pl_ParticipantID = p\<rparr>"
    and "AList.delete p (c_pairwise h) \<noteq> []" and "length (r_key r) = 32"
    and "dispatchFrame L cb r MsgParticipantLeft raw h = (h', stop)"
  shows "c_groupKey h' = r_key r \<and> c_prevKeys h' = take 8 (c_groupKey h # c_prevKeys h) \<and>
     map_of (c_pairwise h') = (map_of (c_pairwise h))(p := None) \<and>
     (\<exists>fs. c_sent h' = c_sent h @ fs \<and>
        (\<forall>f \<in> set fs. \<exists>q pw. q \<noteq> p \<and> map_of (c_pairwise h) q = Some pw \<and> rekey_frame L cb r (c_sid h) q pw f) \<and>
        (c_wok h = [] \<longrightarrow>
         (\<forall>q pw. q \<noteq> p \<longrightarrow> map_of (c_pairwise h) q = Some pw \<longrightarrow> (\<exists>f. rekey_frame L cb r (c_sid h) q pw f)) \<longrightarrow>
           list_all2 (\<lambda>(q, pw). rekey_frame L cb r (c_sid h) q pw) (AList.delete p (c_pairwise h)) fs)) \<and>
     (\<forall>q pw f to data. map_of (c_pairwise h) q = Some pw \<longrightarrow> rekey_frame L cb r (c_sid h) q pw f \<longrightarrow>
        delivers cb (c_self h) to f data \<longrightarrow> to \<noteq> c_self h \<longrightarrow>
        to = q \<and>
        (\<forall>m. c_self m = q \<and> c_hostID m = c_self h \<and> c_sid m = c_sid h \<and> c_haveHostPairwise m \<and> c_hostPairwise m = pw \<longrightarrow>
           readLoop_c L cb [(r', Some data)] m = ((pushPrevKey (c_groupKey m) m)\<lparr>c_groupKey := r_key r\<rparr>, False)))"
proof -
  let ?h = "emit (MemberLeft p) (h\<lparr>c_joiners := AList.delete p (c_joiners h), c_pairwise := AList.delete p (c_pairwise h)\<rparr>)"
  have inv: "length (c_sid h) = 16" "all_values (\<lambda>k. length k = 32) (c_pairwise h)" "wf_map (c_pairwise h)"
    using assms(3) by (simp_all add: client_inv_def KeySize_def)
  from wrap_all_total [of "AList.delete p (c_pairwise h)" L "r_nonce r" "r_key r" "c_sid h"] inv(2)
  obtain outs where outs: "wrap_all L (r_nonce r) (r_key r) (c_sid h) (AList.delete p (c_pairwise h)) = Some outs"
    by (auto simp: KeySize_def)
  let ?h1 = "fold (send_rekey cb) outs ?h"
  note ow = only_writes_fields [OF only_writes_fold_send_rekey, of cb outs ?h]
  have h': "h' = (pushPrevKey (c_groupKey ?h1) ?h1)\<lparr>c_groupKey := r_key r\<rparr>"
    using assms(4-7,9) outs by (auto simp: dispatchFrame_def rekeyAfterLeave_def Let_def NewGroupKey_def emit_def)
  have entry: "(q, pw) \<in> set (AList.delete p (c_pairwise h)) \<longleftrightarrow> q \<noteq> p \<and> map_of (c_pairwise h) q = Some pw" for q pw
    using inv(3) by (auto simp: AList.delete_eq wf_map_def)
  from sent_rekeys [OF outs, of cb ?h] obtain fs where "c_sent h' = c_sent h @ fs"
    "\<forall>f \<in> set fs. \<exists>q pw. q \<noteq> p \<and> map_of (c_pairwise h) q = Some pw \<and> rekey_frame L cb r (c_sid h) q pw f"
    "c_wok h = [] \<longrightarrow> (\<forall>q pw. q \<noteq> p \<longrightarrow> map_of (c_pairwise h) q = Some pw \<longrightarrow> (\<exists>f. rekey_frame L cb r (c_sid h) q pw f)) \<longrightarrow>
       list_all2 (\<lambda>(q, pw). rekey_frame L cb r (c_sid h) q pw) (AList.delete p (c_pairwise h)) fs"
    by (fastforce simp: h' pushPrevKey_def emit_def entry)
  moreover have "to = q \<and> (\<forall>m. c_self m = q \<and> c_hostID m = c_self h \<and> c_sid m = c_sid h \<and> c_haveHostPairwise m \<and>
      c_hostPairwise m = pw \<longrightarrow>
      readLoop_c L cb [(r', Some data)] m = ((pushPrevKey (c_groupKey m) m)\<lparr>c_groupKey := r_key r\<rparr>, False))"
    if "map_of (c_pairwise h) q = Some pw" "rekey_frame L cb r (c_sid h) q pw f" "delivers cb (c_self h) to f data" "to \<noteq> c_self h"
    for q pw f to data
  proof -
    have "length pw = 32" using inv(2) map_of_SomeD [OF that(1)] by (auto simp: all_values_def)
    note read = rekey_frame_read [OF assms(1,2) inv(1) assms(8) this that(2-4)]
    show ?thesis using read by blast
  qed
  moreover have "c_groupKey h' = r_key r \<and> c_prevKeys h' = take 8 (c_groupKey h # c_prevKeys h) \<and>
     map_of (c_pairwise h') = (map_of (c_pairwise h))(p := None)"
    by (simp add: h' pushPrevKey_def ow prevKeyRing_def) (simp add: emit_def AList.delete_conv')
  ultimately show ?thesis by blast
qed


text \<open>
  C39. The last joiner's departure does not rotate the key: if the only pairwise key the host
  holds is the leaver's, the group key stays the one the leaver knows and nothing is written,
  so whoever joins next is keyed with it (see the joining handshake).
\<close>

theorem last_leaver_keeps_key:
  assumes "Body (cParticipantLeft cb) raw = Inr \<lparr>pl_ParticipantID = p\<rparr>"
    and "AList.delete p (c_pairwise h) = []"
    and "dispatchFrame L cb r MsgParticipantLeft raw h = (h', stop)"
  shows "c_groupKey h' = c_groupKey h \<and> c_prevKeys h' = c_prevKeys h \<and> c_sent h' = c_sent h \<and>
     c_events h' = c_events h @ [MemberLeft p]"
  using assms by (auto simp: dispatchFrame_def rekeyAfterLeave_def Let_def emit_def)

section \<open>Host migration\<close>

lemma writeFrame_c_sent: "writeFrame_c cd t b c = (c', e) \<Longrightarrow> length (c_sent c') \<le> length (c_sent c) + (if e = None then 1 else 0)"
  by (auto simp: writeFrame_c_def conn_write_def split: sum.splits list.splits if_splits)

lemma reply_with_key_two:
  assumes "reply_with_key L cb r k1 k2 frm pwk fl key role c = (c', ok)" "c_sent c' = c_sent c @ [f2, f3]"
  shows "ok"
proof (rule ccontr)
  assume "\<not> ok"
  with assms(1) have "length (c_sent c') \<le> length (c_sent c) + 1"
    unfolding reply_with_key_def
    by (auto split: sum.splits prod.splits option.splits dest!: writeFrame_c_sent)
  with assms(2) show False by simp
qed

lemma survivor_finishes:
  assumes "codecs_ok cb" "c_rekeyJoiner s = Some j" "c_hostID s = host" "host \<noteq> c_self s"
    and "Finish L j fl (c_sid s) (c_self s) host = Inr pwk"
    and "EncodePayload (cPake cb) KindRekeyPake2 \<lparr>p_Data = fl, p_Spectate = False\<rparr> = Inr rep"
    and "Encode (cDirect cb) MsgDirect \<lparr>d_To = c_self s, d_From = 0, d_Payload = rep\<rparr> = Inr f"
    and "delivers cb host (c_self s) f data"
  shows "readLoop_c L cb ((r, Some data) # rds) s =
     readLoop_c L cb rds (s\<lparr>c_hostPairwise := pwk, c_haveHostPairwise := True, c_rekeyJoiner := None\<rparr>)"
proof -
  have "cbor_roundtrip (cPake cb)" using assms(1) by (simp add: codecs_ok_def)
  from payload_arrives [OF assms(1) this assms(6-8), of L] assms(4) obtain praw where
    p: "DecodePayload rep = Inr (KindRekeyPake2, praw)" "Body (cPake cb) praw = Inr \<lparr>p_Data = fl, p_Spectate = False\<rparr>"
    and rd: "readLoop_c L cb ((r, Some data) # rds) s = readLoop_c L cb rds (handlePayload L cb r host rep s)" by auto
  show ?thesis unfolding rd using assms(2,3,5) p by (simp add: handlePayload_def handleRekeyPake2_def)
qed

lemma handle_RekeyPake1:
  assumes "c_role h = RoleHost" "c_hostID h = c_self h" "Body (cPake cb) praw = Inr p"
    "HostExchange L (r_pake r) (c_proto h) (c_phraseC h) (p_Data p) (c_sid h) frm (c_self h) = Inr (pwk, fl)"
    "c_sent (handleRekeyPake1 L cb r frm praw h) = c_sent h @ [f2, f3]"
  shows "\<exists>rep gk gp. EncodePayload (cPake cb) KindRekeyPake2 \<lparr>p_Data = fl, p_Spectate = False\<rparr> = Inr rep \<and>
     Encode (cDirect cb) MsgDirect \<lparr>d_To = frm, d_From = 0, d_Payload = rep\<rparr> = Inr f2 \<and>
     WrapGroupKey L (r_nonce r frm) pwk (c_groupKey h) RoleNone (c_sid h) frm = Inr gk \<and>
     EncodePayload (cGroupKey cb) KindRekey gk = Inr gp \<and>
     Encode (cDirect cb) MsgDirect \<lparr>d_To = frm, d_From = 0, d_Payload = gp\<rparr> = Inr f3"
    and "map_of (c_pairwise (handleRekeyPake1 L cb r frm praw h)) frm = Some pwk"
proof -
  let ?h = "h\<lparr>c_pairwise := AList.update frm pwk (c_pairwise h)\<rparr>"
  obtain h2 ok where rk: "reply_with_key L cb r KindRekeyPake2 KindRekey frm pwk fl (c_groupKey h) RoleNone ?h = (h2, ok)"
    by fastforce
  have eq: "handleRekeyPake1 L cb r frm praw h = h2"
    using assms(1-4) rk by (simp add: handleRekeyPake1_def Let_def)
  then have ok using reply_with_key_two [OF rk, of f2 f3] assms(5) by simp
  from reply_with_key_True [OF rk [unfolded eqTrueI [OF this]]] assms(5) eq
  show "\<exists>rep gk gp. EncodePayload (cPake cb) KindRekeyPake2 \<lparr>p_Data = fl, p_Spectate = False\<rparr> = Inr rep \<and>
     Encode (cDirect cb) MsgDirect \<lparr>d_To = frm, d_From = 0, d_Payload = rep\<rparr> = Inr f2 \<and>
     WrapGroupKey L (r_nonce r frm) pwk (c_groupKey h) RoleNone (c_sid h) frm = Inr gk \<and>
     EncodePayload (cGroupKey cb) KindRekey gk = Inr gp \<and>
     Encode (cDirect cb) MsgDirect \<lparr>d_To = frm, d_From = 0, d_Payload = gp\<rparr> = Inr f3" by auto
  show "map_of (c_pairwise (handleRekeyPake1 L cb r frm praw h)) frm = Some pwk"
    using only_writes_fields(8) [OF only_writes_reply [OF rk]] by (simp add: eq)
qed

lemma rekey_request:
  assumes "codecs_ok cb" "RekeyWithNewHost L cb r s = (s1, None)" "c_role s \<noteq> RoleHost" "c_hostID s \<noteq> c_self s" "c_keyed s"
    and "delivers cb (c_self s) (c_hostID s) (last (c_sent s1)) d1"
  shows "\<exists>j praw. NewJoiner L (r_pake r) (c_proto s) (c_phraseC s) = Inr j \<and> only_writes (s\<lparr>c_rekeyJoiner := Some j\<rparr>) s1 \<and>
     Body (cPake cb) praw = Inr \<lparr>p_Data = j_Flight1 j, p_Spectate = False\<rparr> \<and>
     (\<forall>r' c. readLoop_c L cb [(r', Some d1)] c = (handleRekeyPake1 L cb r' (c_self s) praw c, False))"
proof -
  from assms(2-5) obtain j payload where j: "NewJoiner L (r_pake r) (c_proto s) (c_phraseC s) = Inr j"
    "EncodePayload (cPake cb) KindRekeyPake1 \<lparr>p_Data = j_Flight1 j, p_Spectate = False\<rparr> = Inr payload"
    and w: "writeFrame_c (cDirect cb) MsgDirect \<lparr>d_To = c_hostID s, d_From = 0, d_Payload = payload\<rparr>
        (s\<lparr>c_rekeyJoiner := Some j\<rparr>) = (s1, None)"
    by (auto simp: RekeyWithNewHost_def Let_def split: sum.splits)
  from writeFrame_c_None [OF w] obtain f1 where
    f1: "Encode (cDirect cb) MsgDirect \<lparr>d_To = c_hostID s, d_From = 0, d_Payload = payload\<rparr> = Inr f1" "last (c_sent s1) = f1"
    by auto
  have "cbor_roundtrip (cPake cb)" using assms(1) by (simp add: codecs_ok_def)
  from payload_arrives [OF assms(1) this j(2) f1(1), of "c_self s" "c_hostID s" d1 L] f1(2) assms(4,6) obtain praw where
    "DecodePayload payload = Inr (KindRekeyPake1, praw)" "Body (cPake cb) praw = Inr \<lparr>p_Data = j_Flight1 j, p_Spectate = False\<rparr>"
    "\<forall>r' c. readLoop_c L cb [(r', Some d1)] c = (handlePayload L cb r' (c_self s) payload c, False)" by auto
  with j only_writes_writeFrame_c [OF w] show ?thesis by (auto simp: handlePayload_def)
qed

text \<open>
  C6. A migrated session is re-keyed: a member that is promoted takes over with a fresh group
  key. A survivor that has been pointed at the new host and re-runs the exchange reads the new
  host's two replies and ends with that fresh key, with its old role, and with the pairwise key
  the new host holds for it; its old key is kept for frames in flight.
\<close>

theorem migration_rekeys_survivor:
  assumes "lib_ok L" and "codecs_ok cb" and "client_inv m" and "length (r_key rk) = 32"
    and "n = RotateForMigration rk (BecomeHost m)"
    and "c_proto s = c_proto m" and "c_phraseC s = c_phraseC m" and "c_sid s = c_sid m"
    and "c_hostID s = c_self m" and "c_self s \<noteq> c_self m" and "c_keyed s" and "c_role s \<noteq> RoleHost"
    and "RekeyWithNewHost L cb r s = (s1, None)"
    and "delivers cb (c_self s) (c_self m) (last (c_sent s1)) d1"
    and "readLoop_c L cb [(r', Some d1)] n = (n', stop)" and "c_sent n' = c_sent n @ [f2, f3]"
    and "delivers cb (c_self m) (c_self s) f2 d2" and "delivers cb (c_self m) (c_self s) f3 d3"
  shows "c_groupKey n = r_key rk \<and> (\<exists>s2 pwk. readLoop_c L cb [(ra, Some d2), (rb, Some d3)] s1 = (s2, False) \<and>
     c_groupKey s2 = r_key rk \<and> c_prevKeys s2 = take 8 (c_groupKey s # c_prevKeys s) \<and> c_role s2 = c_role s \<and>
     c_haveHostPairwise s2 \<and> c_hostPairwise s2 = pwk \<and> map_of (c_pairwise n') (c_self s) = Some pwk)"
proof -
  have n: "c_groupKey n = r_key rk" "c_role n = RoleHost" "c_hostID n = c_self n" "c_self n = c_self m"
    "c_proto n = c_proto m" "c_phraseC n = c_phraseC m" "c_sid n = c_sid m"
    unfolding assms(5) by (simp_all add: RotateForMigration_def BecomeHost_def NewGroupKey_def pushPrevKey_def)
  have sid: "length (c_sid s) = 16" using assms(3,8) by (simp add: client_inv_def)
  from rekey_request [OF assms(2,13,12) _ assms(11), of d1] assms(9,10,14) obtain j praw where
    j: "NewJoiner L (r_pake r) (c_proto s) (c_phraseC s) = Inr j" "only_writes (s\<lparr>c_rekeyJoiner := Some j\<rparr>) s1"
      "Body (cPake cb) praw = Inr \<lparr>p_Data = j_Flight1 j, p_Spectate = False\<rparr>"
    and n': "n' = handleRekeyPake1 L cb r' (c_self s) praw n" using assms(15) by auto
  note ow = only_writes_fields [OF j(2), simplified]
  from exchange_agrees [OF assms(1) j(1), of "r_pake r'" "c_sid s" "c_self s" "c_self m"] obtain pwk fl where
    ex: "HostExchange L (r_pake r') (c_proto s) (c_phraseC s) (j_Flight1 j) (c_sid s) (c_self s) (c_self m) = Inr (pwk, fl)"
      "Finish L j fl (c_sid s) (c_self s) (c_self m) = Inr pwk" "length pwk = 32" by blast
  have he: "HostExchange L (r_pake r') (c_proto n) (c_phraseC n) (p_Data \<lparr>p_Data = j_Flight1 j, p_Spectate = False\<rparr>)
      (c_sid n) (c_self s) (c_self n) = Inr (pwk, fl)" using ex(1) assms(6-8) n by simp
  note hr = handle_RekeyPake1 [OF n(2,3) j(3) he assms(16) [unfolded n']]
  from hr(1) obtain rep gk gp where
    e: "EncodePayload (cPake cb) KindRekeyPake2 \<lparr>p_Data = fl, p_Spectate = False\<rparr> = Inr rep"
      "Encode (cDirect cb) MsgDirect \<lparr>d_To = c_self s, d_From = 0, d_Payload = rep\<rparr> = Inr f2"
      "WrapGroupKey L (r_nonce r' (c_self s)) pwk (r_key rk) RoleNone (c_sid s) (c_self s) = Inr gk"
      "EncodePayload (cGroupKey cb) KindRekey gk = Inr gp"
      "Encode (cDirect cb) MsgDirect \<lparr>d_To = c_self s, d_From = 0, d_Payload = gp\<rparr> = Inr f3"
    using assms(8) n(1,7) by auto
  let ?s = "s1\<lparr>c_hostPairwise := pwk, c_haveHostPairwise := True, c_rekeyJoiner := None\<rparr>"
  have "readLoop_c L cb [(ra, Some d2), (rb, Some d3)] s1 = readLoop_c L cb [(rb, Some d3)] ?s"
    by (rule survivor_finishes [OF assms(2), of s1 j "c_self m" L fl pwk rep f2])
      (use ow ex(2) e(1,2) assms(9,10,17) in auto)
  also have "\<dots> = readLoop_c L cb [] ((pushPrevKey (c_groupKey ?s) ?s)\<lparr>c_groupKey := r_key rk\<rparr>)"
    by (rule survivor_installs [OF assms(1,2), of ?s "r_key rk" pwk "c_self m" "r_nonce r' (c_self s)" gk gp f3])
      (use ow sid ex(3) e(3-5) assms(4,9,10,18) in auto)
  finally show ?thesis
    using n(1) hr(2) ow by (simp add: n' pushPrevKey_def prevKeyRing_def)
qed

section \<open>Closed examples\<close>

definition demo_end :: "ParticipantID \<Rightarrow> ParticipantID \<Rightarrow> Role \<Rightarrow> bool \<Rightarrow> (bytes \<times> nat) Client" where
  "demo_end self host role keyed =
     \<lparr>c_relayURL = [], c_proto = [97], c_sid = replicate 16 0, c_phraseC = [98], c_self = self, c_hostID = host,
      c_role = role, c_resumeToken = [], c_observer = False, c_rolePolicy = DefaultRolePolicy,
      c_groupKey = replicate 32 7, c_keyed = keyed, c_prevKeys = [], c_pairwise = [], c_hostPairwise = replicate 32 0,
      c_haveHostPairwise = False, c_rekeyJoiner = None, c_seqs = (\<lambda>_. 0), c_joiners = [], c_sent = [],
      c_events = [], c_wok = []\<rparr>"

definition demo_rand :: rand where
  "demo_rand = \<lparr>r_key = replicate 32 9, r_pake = [], r_nonce = (\<lambda>_. [])\<rparr>"

lemma demo_end_inv: "client_inv (demo_end self host role keyed)"
  by (simp add: demo_end_def client_inv_def KeySize_def prevKeyRing_def)

lemma demo_encode_Direct:
  "length p \<le> 1000 \<Longrightarrow> \<exists>f. Encode (cDirect demo_codecs) t \<lparr>d_To = a, d_From = b, d_Payload = p\<rparr> = Inr f"
  by (simp add: Encode_def demo_codecs_def f_via_def f_pair_def f_word_def f_bytes_def MaxFrame_def)

lemma demo_write_Direct:
  assumes "length p \<le> 1000" "c_wok c = []"
  shows "\<exists>f. writeFrame_c (cDirect demo_codecs) MsgDirect \<lparr>d_To = a, d_From = 0, d_Payload = p\<rparr> c =
     (c\<lparr>c_sent := c_sent c @ [f]\<rparr>, None) \<and>
     Encode (cDirect demo_codecs) MsgDirect \<lparr>d_To = a, d_From = 0, d_Payload = p\<rparr> = Inr f \<and>
     (\<forall>frm. \<exists>data. delivers demo_codecs frm a f data)"
proof -
  from demo_encode_Direct [OF assms(1)] obtain f where
    f: "Encode (cDirect demo_codecs) MsgDirect \<lparr>d_To = a, d_From = 0, d_Payload = p\<rparr> = Inr f" by blast
  have rt: "cbor_roundtrip (cDirect demo_codecs)" using demo_codecs_ok by (simp add: codecs_ok_def)
  have "\<exists>data. delivers demo_codecs frm a f data" for frm
  proof -
    from demo_encode_Direct [OF assms(1)] obtain g where
      g: "Encode (cDirect demo_codecs) MsgDirect \<lparr>d_To = a, d_From = frm, d_Payload = p\<rparr> = Inr g" by blast
    from Encode_decodes [OF rt f] Encode_decodes [OF rt g] show ?thesis
      unfolding delivers_def forwarded_def by fastforce
  qed
  with f assms(2) show ?thesis by (simp add: writeFrame_c_def conn_write_def)
qed

lemma demo_Pake_payload:
  "\<exists>p. EncodePayload (cPake demo_codecs) k \<lparr>p_Data = d, p_Spectate = s\<rparr> = Inr p \<and> length p \<le> 2 * length d + 20"
  by (simp add: EncodePayload_def demo_codecs_def f_via_def f_pair_def f_bytes_def f_bool_def f_word_def)

lemma demo_GroupKey_payload:
  "\<exists>p. EncodePayload (cGroupKey demo_codecs) k \<lparr>gk_Nonce = n, gk_Ciphertext = c\<rparr> = Inr p \<and>
     length p = 2 * length n + 2 * length c + 3"
  by (simp add: EncodePayload_def demo_codecs_def f_via_def f_pair_def f_bytes_def)

lemma demo_wrap:
  assumes "length pwk = 32" "length key = 32" "length sid = 16"
  shows "\<exists>gk p. WrapGroupKey demo_lib [] pwk key role sid a = Inr gk \<and>
     EncodePayload (cGroupKey demo_codecs) k gk = Inr p \<and> length p \<le> 1000"
proof -
  let ?c = "aeadSeal demo_aead pwk [] (key @ [role]) (wrapAD sid a)"
  have "length ?c \<le> 200" using assms by (simp add: demo_aead_def wrapAD_def)
  with demo_GroupKey_payload [of k "[]" ?c] assms(1) show ?thesis
    by (auto simp: WrapGroupKey_def KeySize_def demo_lib_def)
qed

lemma demo_reply:
  assumes "length pwk = 32" "length key = 32" "length (c_sid c) = 16" "length fl \<le> 10" "c_wok c = []"
  shows "\<exists>c'. reply_with_key demo_lib demo_codecs demo_rand k1 k2 a pwk fl key role c = (c', True) \<and>
     (\<exists>f2 f3. c_sent c' = c_sent c @ [f2, f3] \<and>
       (\<forall>frm. \<exists>data. delivers demo_codecs frm a f2 data) \<and> (\<forall>frm. \<exists>data. delivers demo_codecs frm a f3 data))"
proof -
  from demo_Pake_payload [of k1 fl False] assms(4) obtain p2 where
    p2: "EncodePayload (cPake demo_codecs) k1 \<lparr>p_Data = fl, p_Spectate = False\<rparr> = Inr p2" "length p2 \<le> 1000" by auto
  from demo_wrap [OF assms(1-3), of role a k2] obtain gk p3 where
    p3: "WrapGroupKey demo_lib [] pwk key role (c_sid c) a = Inr gk" "EncodePayload (cGroupKey demo_codecs) k2 gk = Inr p3"
      "length p3 \<le> 1000" by blast
  from demo_write_Direct [OF p2(2) assms(5), of a] obtain f2 where
    f2: "writeFrame_c (cDirect demo_codecs) MsgDirect \<lparr>d_To = a, d_From = 0, d_Payload = p2\<rparr> c =
       (c\<lparr>c_sent := c_sent c @ [f2]\<rparr>, None)" "\<forall>frm. \<exists>data. delivers demo_codecs frm a f2 data" by blast
  from demo_write_Direct [OF p3(3), of "c\<lparr>c_sent := c_sent c @ [f2]\<rparr>" a] assms(5) obtain f3 where
    f3: "writeFrame_c (cDirect demo_codecs) MsgDirect \<lparr>d_To = a, d_From = 0, d_Payload = p3\<rparr> (c\<lparr>c_sent := c_sent c @ [f2]\<rparr>) =
       (c\<lparr>c_sent := c_sent c @ [f2, f3]\<rparr>, None)" "\<forall>frm. \<exists>data. delivers demo_codecs frm a f3 data" by auto
  show ?thesis
    using f2 f3 p2(1) p3(1,2) by (simp add: reply_with_key_def demo_rand_def)
qed

lemma demo_exchange:
  assumes "NewJoiner demo_lib r0 pr ph = Inr j"
  shows "\<exists>pwk fl. HostExchange demo_lib r1 pr ph (j_Flight1 j) sid a b = Inr (pwk, fl) \<and>
     Finish demo_lib j fl sid a b = Inr pwk \<and> length pwk = 32 \<and> length fl = 1"
proof -
  from exchange_agrees [OF demo_lib_ok assms] obtain pwk fl where
    *: "HostExchange demo_lib r1 pr ph (j_Flight1 j) sid a b = Inr (pwk, fl)" "Finish demo_lib j fl sid a b = Inr pwk" "length pwk = 32"
    by blast
  then have "length fl = 1"
    by (auto simp: HostExchange_def demo_lib_def demo_pake_def split: sum.splits)
  with * show ?thesis by blast
qed

lemma demo_Pake1:
  "\<exists>j1 jn d1 praw. sendPake1 demo_lib demo_codecs demo_rand (demo_end 2 1 RoleNone False) = (j1, Inr jn) \<and>
     delivers demo_codecs 2 1 (last (c_sent j1)) d1 \<and>
     NewJoiner demo_lib [] [97] [98] = Inr jn \<and> Body (cPake demo_codecs) praw = Inr \<lparr>p_Data = j_Flight1 jn, p_Spectate = False\<rparr> \<and>
     (\<forall>r c. readLoop_c demo_lib demo_codecs [(r, Some d1)] c =
        (handleHandshakeDirect demo_lib demo_codecs r 2 KindPake1 praw c, False))"
proof -
  let ?j = "demo_end 2 1 RoleNone False"
  obtain jn where jn: "NewJoiner demo_lib [] [97] [98] = Inr jn" "length (j_Flight1 jn) = 1"
    by (simp add: NewJoiner_def demo_lib_def demo_pake_def)
  from demo_Pake_payload [of KindPake1 "j_Flight1 jn" False] jn(2) obtain p where
    p: "EncodePayload (cPake demo_codecs) KindPake1 \<lparr>p_Data = j_Flight1 jn, p_Spectate = False\<rparr> = Inr p" "length p \<le> 1000" by auto
  from demo_write_Direct [OF p(2), of ?j 1] obtain f where
    f: "writeFrame_c (cDirect demo_codecs) MsgDirect \<lparr>d_To = 1, d_From = 0, d_Payload = p\<rparr> ?j = (?j\<lparr>c_sent := c_sent ?j @ [f]\<rparr>, None)"
      "Encode (cDirect demo_codecs) MsgDirect \<lparr>d_To = 1, d_From = 0, d_Payload = p\<rparr> = Inr f"
      "\<forall>frm. \<exists>data. delivers demo_codecs frm 1 f data" by (auto simp: demo_end_def)
  then obtain d1 where d1: "delivers demo_codecs 2 1 f d1" by blast
  have "cbor_roundtrip (cPake demo_codecs)" using demo_codecs_ok by (simp add: codecs_ok_def)
  from payload_arrives [OF demo_codecs_ok this p(1) f(2) d1, of demo_lib] obtain praw where
    "DecodePayload p = Inr (KindPake1, praw)" "Body (cPake demo_codecs) praw = Inr \<lparr>p_Data = j_Flight1 jn, p_Spectate = False\<rparr>"
    "\<forall>r c. readLoop_c demo_lib demo_codecs [(r, Some d1)] c = (handlePayload demo_lib demo_codecs r 2 p c, False)" by auto
  moreover have "sendPake1 demo_lib demo_codecs demo_rand ?j = (?j\<lparr>c_sent := c_sent ?j @ [f]\<rparr>, Inr jn)"
    using jn(1) p(1) f(1) by (simp add: sendPake1_def demo_end_def demo_rand_def)
  ultimately show ?thesis using d1 jn(1) by (fastforce simp: handlePayload_def)
qed

lemma demo_host_keys:
  assumes "NewJoiner demo_lib [] [97] [98] = Inr jn"
    and "Body (cPake demo_codecs) praw = Inr \<lparr>p_Data = j_Flight1 jn, p_Spectate = False\<rparr>"
  shows "c_events (handleHandshakeDirect demo_lib demo_codecs demo_rand 2 KindPake1 praw (demo_end 1 1 RoleHost True)) \<noteq> []"
proof -
  let ?h = "demo_end 1 1 RoleHost True"
  from demo_exchange [OF assms(1), of "[]" "replicate 16 0" 2 1] obtain pwk fl where
    ex: "HostExchange demo_lib [] [97] [98] (j_Flight1 jn) (replicate 16 0) 2 1 = Inr (pwk, fl)" "length pwk = 32" "length fl = 1"
    by blast
  let ?h1 = "?h\<lparr>c_joiners := AList.update 2 RoleMember [], c_pairwise := AList.update 2 pwk []\<rparr>"
  from demo_reply [of pwk "replicate 32 7" ?h1 fl KindPake2 KindGroupKey 2 RoleMember] ex(2,3) obtain c' where
    "reply_with_key demo_lib demo_codecs demo_rand KindPake2 KindGroupKey 2 pwk fl (replicate 32 7) RoleMember ?h1 = (c', True)"
    by (auto simp: demo_end_def)
  with ex(1) assms(2) show ?thesis
    by (simp add: handleHandshakeDirect_def demo_end_def demo_rand_def assign_role_def DefaultRolePolicy_def emit_def)
qed

theorem join_agrees_with_host_witness:
  "\<exists>j1 jn d1 h' role. sendPake1 demo_lib demo_codecs demo_rand (demo_end 2 1 RoleNone False) = (j1, Inr jn) \<and>
     delivers demo_codecs 2 1 (last (c_sent j1)) d1 \<and>
     readLoop_c demo_lib demo_codecs [(demo_rand, Some d1)] (demo_end 1 1 RoleHost True) = (h', False) \<and>
     c_events h' = [MemberKeyed 2 role]"
proof -
  from demo_Pake1 obtain j1 jn d1 praw where
    j: "sendPake1 demo_lib demo_codecs demo_rand (demo_end 2 1 RoleNone False) = (j1, Inr jn)"
      "delivers demo_codecs 2 1 (last (c_sent j1)) d1" "NewJoiner demo_lib [] [97] [98] = Inr jn"
      "Body (cPake demo_codecs) praw = Inr \<lparr>p_Data = j_Flight1 jn, p_Spectate = False\<rparr>"
    and h': "readLoop_c demo_lib demo_codecs [(demo_rand, Some d1)] (demo_end 1 1 RoleHost True) =
      (handleHandshakeDirect demo_lib demo_codecs demo_rand 2 KindPake1 praw (demo_end 1 1 RoleHost True), False)" by blast
  have "\<exists>role. c_events (handleHandshakeDirect demo_lib demo_codecs demo_rand 2 KindPake1 praw (demo_end 1 1 RoleHost True)) =
      [MemberKeyed 2 role]"
    using join_agrees_with_host [OF demo_lib_ok demo_codecs_ok demo_end_inv, of 1 1 RoleHost True
        "demo_end 2 1 RoleNone False" demo_rand j1 jn d1, OF _ _ _ _ _ _ _ j(1) _ h'] j(2) demo_host_keys [OF j(3,4)]
    by (auto simp: demo_end_def)
  with j h' show ?thesis by blast
qed

lemma demo_seal:
  assumes "c_keyed c" "length (c_groupKey c) = 32" "length (c_sid c) = 16"
  shows "\<exists>p. seal demo_lib demo_codecs [] ''chat'' [42] c = (c\<lparr>c_seqs := (c_seqs c)(''chat'' := c_seqs c ''chat'' + 1)\<rparr>, Inr p) \<and>
     length p \<le> 1000"
proof -
  let ?env = "\<lparr>env_ServiceID = ''chat'', env_Seq = c_seqs c ''chat'' + 1, env_Body = [42]\<rparr>"
  obtain plain where pl: "Marshal (cEnvelope demo_codecs) ?env = Some plain" "length plain \<le> 200"
    by (simp add: Marshal_def demo_codecs_def f_via_def f_pair_def f_bytes_def f_word_def f_string_def)
  obtain sf where sf: "Seal demo_lib [] (c_groupKey c) plain (c_sid c) (c_self c) = Inr sf"
    "length (sf_Nonce sf) = 0" "length (sf_Ciphertext sf) \<le> 400"
    using pl(2) assms by (simp add: Seal_def KeySize_def demo_lib_def demo_aead_def frameAD_def)
  obtain p where "EncodePayload (cSealedFrame demo_codecs) KindSealed sf = Inr p" "length p \<le> 1000"
    using sf(2,3) by (simp add: EncodePayload_def demo_codecs_def f_via_def f_pair_def f_bytes_def)
  with pl(1) sf(1) assms(1) show ?thesis by (simp add: seal_def Let_def)
qed

lemma demo_Broadcast:
  assumes "c_keyed c" "length (c_groupKey c) = 32" "length (c_sid c) = 16" "c_wok c = []"
  shows "\<exists>c' f. Broadcast_c demo_lib demo_codecs [] ''chat'' [42] c = (c', None) \<and> last (c_sent c') = f \<and>
     (\<forall>frm to. to \<noteq> frm \<longrightarrow> (\<exists>data. delivers demo_codecs frm to f data))"
proof -
  from demo_seal [OF assms(1-3)] obtain p where
    p: "seal demo_lib demo_codecs [] ''chat'' [42] c = (c\<lparr>c_seqs := (c_seqs c)(''chat'' := c_seqs c ''chat'' + 1)\<rparr>, Inr p)" "length p \<le> 1000"
    by blast
  have enc: "\<exists>f. Encode (cBroadcast demo_codecs) MsgBroadcast \<lparr>b_From = n, b_Payload = p\<rparr> = Inr f" for n
    using p(2) by (simp add: Encode_def demo_codecs_def f_via_def f_pair_def f_word_def f_bytes_def MaxFrame_def)
  have rt: "cbor_roundtrip (cBroadcast demo_codecs)" using demo_codecs_ok by (simp add: codecs_ok_def)
  from enc [of 0] obtain f where f: "Encode (cBroadcast demo_codecs) MsgBroadcast \<lparr>b_From = 0, b_Payload = p\<rparr> = Inr f" by blast
  have "\<exists>data. delivers demo_codecs frm to f data" if ne: "to \<noteq> frm" for frm to
  proof -
    from enc [of frm] obtain g where g: "Encode (cBroadcast demo_codecs) MsgBroadcast \<lparr>b_From = frm, b_Payload = p\<rparr> = Inr g" by blast
    from Encode_decodes [OF rt f] Encode_decodes [OF rt g] ne show ?thesis
      unfolding delivers_def forwarded_def by fastforce
  qed
  moreover obtain c' where "Broadcast_c demo_lib demo_codecs [] ''chat'' [42] c = (c', None)" "last (c_sent c') = f"
    using p(1) f assms(4) by (simp add: Broadcast_c_def writeFrame_c_def conn_write_def)
  ultimately show ?thesis by blast
qed

theorem broadcast_end_to_end_witness:
  "\<exists>a' data. Broadcast_c demo_lib demo_codecs [] ''chat'' [42] (demo_end 1 1 RoleHost True) = (a', None) \<and>
     delivers demo_codecs 1 2 (last (c_sent a')) data \<and>
     readLoop_c demo_lib demo_codecs [(demo_rand, Some data)] (demo_end 2 1 RoleMember True) =
       (emit (Frame 1 \<lparr>env_ServiceID = ''chat'', env_Seq = 1, env_Body = [42]\<rparr>) (demo_end 2 1 RoleMember True), False)"
proof -
  from demo_Broadcast [of "demo_end 1 1 RoleHost True"] obtain a' where
    a': "Broadcast_c demo_lib demo_codecs [] ''chat'' [42] (demo_end 1 1 RoleHost True) = (a', None)"
      "\<forall>frm to. to \<noteq> frm \<longrightarrow> (\<exists>data. delivers demo_codecs frm to (last (c_sent a')) data)" by (auto simp: demo_end_def)
  then obtain data where d: "delivers demo_codecs 1 2 (last (c_sent a')) data" by fastforce
  with a' broadcast_end_to_end [OF demo_lib_ok demo_codecs_ok demo_end_inv demo_end_inv _ _ a'(1),
      of 2 1 RoleMember True 1 data demo_rand]
  show ?thesis by (auto simp: demo_end_def)
qed

lemma demo_left:
  "\<exists>raw. Body (cParticipantLeft demo_codecs) raw = Inr \<lparr>pl_ParticipantID = p\<rparr>"
proof -
  have "cbor_roundtrip (cParticipantLeft demo_codecs)" using demo_codecs_ok by (simp add: codecs_ok_def)
  moreover have "\<exists>raw. marshal (cParticipantLeft demo_codecs) \<lparr>pl_ParticipantID = p\<rparr> = Some raw"
    by (simp add: demo_codecs_def)
  ultimately show ?thesis by (metis Body_roundtrip)
qed

lemma demo_rekey_frame:
  assumes "length pw = 32" "length sid = 16"
  shows "\<exists>f. rekey_frame demo_lib demo_codecs demo_rand sid q pw f"
proof -
  from demo_wrap [OF assms(1) _ assms(2), of "r_key demo_rand" RoleNone q KindRekey] obtain gk pl where
    "WrapGroupKey demo_lib [] pw (r_key demo_rand) RoleNone sid q = Inr gk" "EncodePayload (cGroupKey demo_codecs) KindRekey gk = Inr pl"
    "length pl \<le> 1000" by (auto simp: demo_rand_def)
  with demo_encode_Direct [of pl MsgDirect q 0] show ?thesis by (auto simp: rekey_frame_def demo_rand_def)
qed

theorem leave_rotates_key_witness:
  "\<exists>raw h' stop f. Body (cParticipantLeft demo_codecs) raw = Inr \<lparr>pl_ParticipantID = 2\<rparr> \<and>
     dispatchFrame demo_lib demo_codecs demo_rand MsgParticipantLeft raw
       ((demo_end 1 1 RoleHost True)\<lparr>c_pairwise := [(2, replicate 32 5), (3, replicate 32 6)]\<rparr>) = (h', stop) \<and>
     c_groupKey h' = replicate 32 9 \<and> c_prevKeys h' = [replicate 32 7] \<and> c_sent h' = [f] \<and>
     rekey_frame demo_lib demo_codecs demo_rand (replicate 16 0) 3 (replicate 32 6) f"
proof -
  let ?h = "(demo_end 1 1 RoleHost True)\<lparr>c_pairwise := [(2, replicate 32 5), (3, replicate 32 6)]\<rparr>"
  from demo_left obtain raw where raw: "Body (cParticipantLeft demo_codecs) raw = Inr \<lparr>pl_ParticipantID = 2\<rparr>" by blast
  obtain h' stop where h': "dispatchFrame demo_lib demo_codecs demo_rand MsgParticipantLeft raw ?h = (h', stop)" by fastforce
  have "client_inv ?h"
    by (simp add: demo_end_def client_inv_def KeySize_def prevKeyRing_def wf_map_def all_values_def)
  have fl: "c_role ?h = RoleHost" "c_hostID ?h = c_self ?h" "c_wok ?h = []" "c_sid ?h = replicate 16 0" "c_sent ?h = []"
    "c_groupKey ?h = replicate 32 7" "c_prevKeys ?h = []" "AList.delete 2 (c_pairwise ?h) = [(3, replicate 32 6)]"
    "length (r_key demo_rand) = 32" "r_key demo_rand = replicate 32 9"
    by (simp_all add: demo_end_def demo_rand_def AList.delete_eq)
  have some: "AList.delete 2 (c_pairwise ?h) \<noteq> []" by (simp add: fl(8))
  note all = leave_rotates_key [OF demo_lib_ok demo_codecs_ok \<open>client_inv ?h\<close> fl(1,2) raw some fl(9) h', of demo_rand]
  have "\<forall>q pw. q \<noteq> 2 \<longrightarrow> map_of (c_pairwise ?h) q = Some pw \<longrightarrow>
      (\<exists>f. rekey_frame demo_lib demo_codecs demo_rand (c_sid ?h) q pw f)"
    unfolding fl(4) using demo_rekey_frame by (simp add: demo_end_def)
  with all [THEN conjunct2, THEN conjunct2, THEN conjunct2, THEN conjunct1] fl(3) obtain fs where
    "c_sent h' = c_sent ?h @ fs" "list_all2 (\<lambda>(q, pw). rekey_frame demo_lib demo_codecs demo_rand (c_sid ?h) q pw)
      (AList.delete 2 (c_pairwise ?h)) fs" by blast
  then obtain f where "c_sent h' = [f]" "rekey_frame demo_lib demo_codecs demo_rand (replicate 16 0) 3 (replicate 32 6) f"
    unfolding fl(4,5,8) by (auto simp: list_all2_Cons1)
  moreover have "c_groupKey h' = replicate 32 9" "c_prevKeys h' = [replicate 32 7]"
    using all [THEN conjunct1] all [THEN conjunct2, THEN conjunct1] unfolding fl(6,7,10) by simp_all
  ultimately show ?thesis using raw h' by blast
qed

theorem last_leaver_keeps_key_witness:
  "\<exists>raw h' stop. Body (cParticipantLeft demo_codecs) raw = Inr \<lparr>pl_ParticipantID = 2\<rparr> \<and>
     dispatchFrame demo_lib demo_codecs demo_rand MsgParticipantLeft raw
       ((demo_end 1 1 RoleHost True)\<lparr>c_pairwise := [(2, replicate 32 5)]\<rparr>) = (h', stop) \<and>
     c_groupKey h' = replicate 32 7"
proof -
  let ?h = "(demo_end 1 1 RoleHost True)\<lparr>c_pairwise := [(2, replicate 32 5)]\<rparr>"
  from demo_left obtain raw where raw: "Body (cParticipantLeft demo_codecs) raw = Inr \<lparr>pl_ParticipantID = 2\<rparr>" by blast
  obtain h' stop where h': "dispatchFrame demo_lib demo_codecs demo_rand MsgParticipantLeft raw ?h = (h', stop)" by fastforce
  from last_leaver_keeps_key [OF raw _ h'] raw h' show ?thesis by (auto simp: demo_end_def AList.delete_eq)
qed

lemma demo_RekeyPake1:
  "\<exists>s1 jn d1 praw. RekeyWithNewHost demo_lib demo_codecs demo_rand (demo_end 3 2 RoleMember True) = (s1, None) \<and>
     delivers demo_codecs 3 2 (last (c_sent s1)) d1 \<and>
     NewJoiner demo_lib [] [97] [98] = Inr jn \<and> Body (cPake demo_codecs) praw = Inr \<lparr>p_Data = j_Flight1 jn, p_Spectate = False\<rparr> \<and>
     (\<forall>r c. readLoop_c demo_lib demo_codecs [(r, Some d1)] c = (handleRekeyPake1 demo_lib demo_codecs r 3 praw c, False))"
proof -
  let ?s = "demo_end 3 2 RoleMember True"
  obtain jn where jn: "NewJoiner demo_lib [] [97] [98] = Inr jn" "length (j_Flight1 jn) = 1"
    by (simp add: NewJoiner_def demo_lib_def demo_pake_def)
  from demo_Pake_payload [of KindRekeyPake1 "j_Flight1 jn" False] jn(2) obtain p where
    p: "EncodePayload (cPake demo_codecs) KindRekeyPake1 \<lparr>p_Data = j_Flight1 jn, p_Spectate = False\<rparr> = Inr p" "length p \<le> 1000" by auto
  from demo_write_Direct [OF p(2), of "?s\<lparr>c_rekeyJoiner := Some jn\<rparr>" 2] obtain f s1 where
    f: "writeFrame_c (cDirect demo_codecs) MsgDirect \<lparr>d_To = 2, d_From = 0, d_Payload = p\<rparr> (?s\<lparr>c_rekeyJoiner := Some jn\<rparr>) = (s1, None)"
      "last (c_sent s1) = f" "\<forall>frm. \<exists>data. delivers demo_codecs frm 2 f data" by (auto simp: demo_end_def)
  then obtain d1 where d1: "delivers demo_codecs 3 2 (last (c_sent s1)) d1" by blast
  have s1: "RekeyWithNewHost demo_lib demo_codecs demo_rand ?s = (s1, None)"
    using jn(1) p(1) f(1) by (simp add: RekeyWithNewHost_def demo_end_def demo_rand_def)
  from rekey_request [OF demo_codecs_ok s1, of d1] d1 obtain j praw where
    "NewJoiner demo_lib [] [97] [98] = Inr j" "Body (cPake demo_codecs) praw = Inr \<lparr>p_Data = j_Flight1 j, p_Spectate = False\<rparr>"
    "\<forall>r c. readLoop_c demo_lib demo_codecs [(r, Some d1)] c = (handleRekeyPake1 demo_lib demo_codecs r 3 praw c, False)"
    by (auto simp: demo_end_def demo_rand_def)
  with s1 d1 show ?thesis by blast
qed

theorem migration_rekeys_survivor_witness:
  "\<exists>s1 d1 n n' f2 f3 d2 d3 s2.
     n = RotateForMigration demo_rand (BecomeHost (demo_end 2 1 RoleMember True)) \<and>
     RekeyWithNewHost demo_lib demo_codecs demo_rand (demo_end 3 2 RoleMember True) = (s1, None) \<and>
     delivers demo_codecs 3 2 (last (c_sent s1)) d1 \<and>
     readLoop_c demo_lib demo_codecs [(demo_rand, Some d1)] n = (n', False) \<and> c_sent n' = c_sent n @ [f2, f3] \<and>
     delivers demo_codecs 2 3 f2 d2 \<and> delivers demo_codecs 2 3 f3 d3 \<and>
     readLoop_c demo_lib demo_codecs [(demo_rand, Some d2), (demo_rand, Some d3)] s1 = (s2, False) \<and>
     c_groupKey s2 = replicate 32 9 \<and> c_role s2 = RoleMember"
proof -
  let ?m = "demo_end 2 1 RoleMember True" and ?s = "demo_end 3 2 RoleMember True"
  define n where "n = RotateForMigration demo_rand (BecomeHost ?m)"
  have n: "c_role n = RoleHost" "c_hostID n = 2" "c_self n = 2" "c_sid n = replicate 16 0" "c_proto n = [97]"
    "c_phraseC n = [98]" "c_groupKey n = replicate 32 9" "c_wok n = []" "c_pairwise n = []"
    by (simp_all add: n_def RotateForMigration_def BecomeHost_def demo_end_def pushPrevKey_def NewGroupKey_def demo_rand_def)
  from demo_RekeyPake1 obtain s1 jn d1 praw where
    s1: "RekeyWithNewHost demo_lib demo_codecs demo_rand ?s = (s1, None)" "delivers demo_codecs 3 2 (last (c_sent s1)) d1"
      "NewJoiner demo_lib [] [97] [98] = Inr jn" "Body (cPake demo_codecs) praw = Inr \<lparr>p_Data = j_Flight1 jn, p_Spectate = False\<rparr>"
      "readLoop_c demo_lib demo_codecs [(demo_rand, Some d1)] n = (handleRekeyPake1 demo_lib demo_codecs demo_rand 3 praw n, False)"
    by blast
  from demo_exchange [OF s1(3), of "[]" "replicate 16 0" 3 2] obtain pwk fl where
    ex: "HostExchange demo_lib [] [97] [98] (j_Flight1 jn) (replicate 16 0) 3 2 = Inr (pwk, fl)" "length pwk = 32" "length fl = 1"
    by blast
  let ?n1 = "n\<lparr>c_pairwise := AList.update 3 pwk []\<rparr>"
  from demo_reply [of pwk "replicate 32 9" ?n1 fl KindRekeyPake2 KindRekey 3 RoleNone] ex(2,3) n obtain n' f2 f3 where
    r: "reply_with_key demo_lib demo_codecs demo_rand KindRekeyPake2 KindRekey 3 pwk fl (replicate 32 9) RoleNone ?n1 = (n', True)"
      "c_sent n' = c_sent n @ [f2, f3]"
      "\<forall>frm. \<exists>data. delivers demo_codecs frm 3 f2 data" "\<forall>frm. \<exists>data. delivers demo_codecs frm 3 f3 data" by auto
  have n': "handleRekeyPake1 demo_lib demo_codecs demo_rand 3 praw n = n'"
    using ex(1) r(1) s1(4) n by (simp add: handleRekeyPake1_def demo_rand_def)
  from r(3,4) obtain d2 d3 where d: "delivers demo_codecs 2 3 f2 d2" "delivers demo_codecs 2 3 f3 d3" by blast
  from migration_rekeys_survivor [OF demo_lib_ok demo_codecs_ok demo_end_inv _ n_def _ _ _ _ _ _ _ s1(1) _ s1(5) _ _ ,
      of f2 f3 d2 d3 demo_rand demo_rand] s1(2) r(2) n' d
  show ?thesis
    using s1 r(2) n' d n_def by (fastforce simp: demo_end_def demo_rand_def)
qed

definition demo_net :: network where
  "demo_net = \<lparr>nw_parseHost = Some, nw_reaches = (\<lambda>_. True)\<rparr>"

lemma demo_dial: "dial_url demo_net [] sid = None"
proof -
  have "URL_Parse Some [] = Some zero_URL" by code_simp
  then show ?thesis by (simp add: dial_url_def sessionURL_def demo_net_def Let_def)
qed

lemma demo_hosted:
  "\<exists>f c. HostWithPhrase demo_codecs (\<lambda>x. x) demo_rand demo_net [] [98] [] [Some f] = Some (Inr (c :: (bytes \<times> nat) Client), [])"
proof -
  from demo_encode_SessionCreated [of "[5]" MsgSessionCreated 1] obtain f where
    f: "Encode (cSessionCreated demo_codecs) MsgSessionCreated \<lparr>sc_ParticipantID = 1, sc_ResumeToken = [5]\<rparr> = Inr f" by auto
  have "cbor_roundtrip (cSessionCreated demo_codecs)" using demo_codecs_ok by (simp add: codecs_ok_def)
  from Encode_decodes [OF this f] obtain raw where
    raw: "Decode f = Inr (MsgSessionCreated, raw)"
      "Body (cSessionCreated demo_codecs) raw = Inr \<lparr>sc_ParticipantID = 1, sc_ResumeToken = [5]\<rparr>" by blast
  have can: "Canonical (\<lambda>x. x) [98] = [98]"
    by (simp add: Canonical_def ToLower_def TrimSpace_def IsSpace_def rune_lower_def)
  have enc: "\<exists>g. Encode (cCreateSession demo_codecs) MsgCreateSession
      \<lparr>cs_SessionID = SessionID_of (\<lambda>x. x) pr ph, cs_MaxParticipants = 0\<rparr> = Inr g" for pr ph
    by (simp add: Encode_def demo_codecs_def f_via_def f_pair_def f_word_def f_bytes_def MaxFrame_def SessionID_of_def)
  have "\<exists>c. HostWithPhrase demo_codecs (\<lambda>x. x) demo_rand demo_net [] [98] [] [Some f] = Some (Inr (c :: (bytes \<times> nat) Client), [])"
    using enc [of DefaultProtocol "[98]"] raw
    by (auto simp: HostWithPhrase_def dial_def demo_dial buildConfig_def can hostHello_def writeFrame_c_def conn_write_def readFrame_c_def Let_def)
  then show ?thesis by blast
qed

theorem client_invariant_witness:
  "\<exists>c. reachable_from (client_initial demo_lib demo_codecs) (client_trans demo_lib demo_codecs) c \<and>
     length (c_groupKey c) = 32 \<and> length (c_prevKeys c) \<le> 8"
proof -
  from demo_hosted obtain f and c :: "(bytes \<times> nat) Client" where
    "HostWithPhrase demo_codecs (\<lambda>x. x) demo_rand demo_net [] [98] [] [Some f] = Some (Inr c, [])" by blast
  then have "client_initial demo_lib demo_codecs c"
    by (rule ci_host [rotated]) (simp add: demo_rand_def KeySize_def)
  then have r: "reachable_from (client_initial demo_lib demo_codecs) (client_trans demo_lib demo_codecs) c"
    by (rule reach_initial)
  from client_invariant [OF demo_lib_ok r] r show ?thesis by blast
qed

end
