(* ===== verification/Opening.thy ===== *)
theory Opening
  imports HubSlots Stats SessionProps
begin

text \<open>
  The opening exchange of a client (src/session/client.go) with the relay (src/relay/relay.go)
  and the hub concerned: creating, joining and resuming a session, from the client's request to
  what the client returns.
\<close>

section \<open>The first answer\<close>

text \<open>
  What a connection receives for its first frame: the frames \<open>hello\<close> writes when it refuses, or the
  outbox of the new slot. Between \<open>hello\<close>'s look into the registry and the moment the hub, which
  still runs, handles the command, the hub handles the commands \<open>before\<close>; for a new session these
  are the ones of connections that found it in the registry and got into its inbox first.
\<close>

definition resumed_id :: "cmd \<Rightarrow> ParticipantID" where
  "resumed_id c = (case c of resumeCmd _ p _ \<Rightarrow> p | _ \<Rightarrow> 0)"

definition hub_answer :: "codecs \<Rightarrow> cmd \<Rightarrow> hub \<Rightarrow> bytes list" where
  "hub_answer cb cmd h =
     (let h' = fst (hub_step cb cmd h)
      in case snd (last (h_replies h')) of
           JoinReply jr \<Rightarrow>
             (case hello_reply cb jr of
                Inl out \<Rightarrow> out
              | Inr (pid, gen) \<Rightarrow> (case find_client h' pid of Some c \<Rightarrow> cl_out c | None \<Rightarrow> []))
         | ResumeReply rr \<Rightarrow>
             (case resume_reply cb (resumed_id cmd) rr of
                Inl out \<Rightarrow> out
              | Inr (pid, gen) \<Rightarrow> (case find_client h' pid of Some c \<Rightarrow> cl_out c | None \<Rightarrow> []))
         | _ \<Rightarrow> [])"

definition answer_after :: "codecs \<Rightarrow> cmd list \<Rightarrow> 'r Options \<Rightarrow> int \<Rightarrow> conn \<Rightarrow> bytes \<Rightarrow> bytes \<Rightarrow> relay \<Rightarrow> bytes list" where
  "answer_after cb before opts now k tok frame R =
     (case hello cb opts now k tok (Binary frame) R of
        (Inl out, R') \<Rightarrow> out
      | (Inr (a, cmd), R') \<Rightarrow> hub_answer cb cmd (fst (run cb (hc_hub (rl_heap R' ! a)) before)))"

abbreviation first_answer :: "codecs \<Rightarrow> 'r Options \<Rightarrow> int \<Rightarrow> conn \<Rightarrow> bytes \<Rightarrow> bytes \<Rightarrow> relay \<Rightarrow> bytes list" where
  "first_answer cb \<equiv> answer_after cb []"

definition errors_encode :: "codecs \<Rightarrow> bool" where
  "errors_encode cb \<longleftrightarrow> (\<forall>code msg. length msg \<le> 64 \<longrightarrow> (\<exists>f. Encode (cError cb) MsgError \<lparr>e_Code = code, e_Msg = msg\<rparr> = Inr f))"

text \<open>A refusal that the client reads while it waits for its answer.\<close>

lemma refusal_read:
  assumes "codecs_ok cb" "errors_encode cb" "length msg \<le> 64" "want \<noteq> MsgError"
  shows "awaitReply cb want (map Some (error_frame cb code msg) @ rest) = Some (Inl (RelayRefused code msg), rest)"
proof -
  obtain f where f: "Encode (cError cb) MsgError \<lparr>e_Code = code, e_Msg = msg\<rparr> = Inr f"
    using assms(2,3) by (auto simp: errors_encode_def)
  have "cbor_roundtrip (cError cb)" using assms(1) by (simp add: codecs_ok_def)
  from Encode_decodes [OF this f] obtain r where "Decode f = Inr (MsgError, r)"
    "Body (cError cb) r = Inr \<lparr>e_Code = code, e_Msg = msg\<rparr>" by blast
  with f assms(4) show ?thesis by (simp add: writeFrame_def readFrame_c_def relayError_def)
qed

lemma answer_read:
  assumes "cbor_roundtrip cd" "Encode cd want v = Inr f"
  shows "\<exists>raw. awaitReply cb want (Some f # rest) = Some (Inr raw, rest) \<and> Body cd raw = Inr v"
  using Encode_decodes [OF assms] by (auto simp: readFrame_c_def)

lemma hello_decodes:
  assumes "cbor_roundtrip cd" "Encode cd t v = Inr f"
  shows "\<exists>raw. readFrame (Binary f) = Inr (t, raw) \<and> Body cd raw = Inr v"
  using Encode_decodes [OF assms] by (auto simp: readFrame_def)

lemma first_write:
  "c_wok c = [] \<Longrightarrow> Encode cd t v = Inr f \<Longrightarrow> writeFrame_c cd t v c = (c\<lparr>c_sent := c_sent c @ [f]\<rparr>, None)"
  by (simp add: writeFrame_c_def conn_write_def)

lemma hub_answer_join:
  assumes "hub_inv h" "find_client h (h_nextID h) = None" "\<forall>q d. find_client h q = Some d \<longrightarrow> length (cl_out d) < 64"
    and "join_answer cb isC tok h = Inr g"
  shows "hub_answer cb (joinCmd k isC tok) h =
     (if int (length (h_clients h)) < h_max h then [g] else error_frame cb ErrCodeSessionFull ''session full'')"
proof (cases "int (length (h_clients h)) < h_max h")
  case True
  have "length (cl_out d) < sendBuffer" if "find_client h q = Some d" for q d
    using assms(3) that by (auto simp: sendBuffer_def)
  note js = join_step [OF assms(1) True assms(2) this assms(4), where k = k]
  show ?thesis using js(1,2,7) True by (simp add: hub_answer_def hello_reply_def)
next
  case False
  have "hub_step cb (joinCmd k isC tok) h = (handleJoin cb k isC tok h, False)"
    using assms(1) False by (simp add: hub_step_def handle_cmd_def handleJoin_def hub_inv_def reply_def count_error_def)
  with False show ?thesis by (simp add: hub_answer_def handleJoin_def reply_def hello_reply_def)
qed

lemma hello_join:
  assumes "codecs_ok cb" "Encode (cJoinSession cb) MsgJoinSession \<lparr>js_SessionID = sid\<rparr> = Inr f"
  shows "hello cb opts now k tok (Binary f) R =
     ((case registry_get sid R of
         None \<Rightarrow> Inl (error_frame cb ErrCodeSessionNotFound ''session not found'')
       | Some a \<Rightarrow> Inr (a, joinCmd k False tok)), R)"
proof -
  have "cbor_roundtrip (cJoinSession cb)" using assms(1) by (simp add: codecs_ok_def)
  from hello_decodes [OF this assms(2)] show ?thesis
    by (auto simp: hello_def helloJoin_def split: option.split)
qed

lemma hello_create:
  assumes "codecs_ok cb"
    and "Encode (cCreateSession cb) MsgCreateSession \<lparr>cs_SessionID = sid, cs_MaxParticipants = 0\<rparr> = Inr f"
  shows "hello cb opts now k tok (Binary f) R =
     (case registry_create sid (o_MaxParticipants opts) now R of
        (Inl (code, msg), R') \<Rightarrow> (Inl (error_frame cb code msg), R')
      | (Inr a, R') \<Rightarrow> (Inr (a, joinCmd k True tok), R'))"
proof -
  have "cbor_roundtrip (cCreateSession cb)" using assms(1) by (simp add: codecs_ok_def)
  from hello_decodes [OF this assms(2)] show ?thesis
    by (auto simp: hello_def helloCreate_def Let_def split: sum.split prod.split)
qed

text \<open>
  C12. A join request ends the way the relay's state says: without such a session the client gets an
  error that is \<open>ErrSessionNotFound\<close>, at the participant cap one that is \<open>ErrSessionFull\<close>, and
  otherwise it knows itself by the id of its new slot, the session's host and the slot's resume
  token.
\<close>

theorem join_request_outcomes:
  assumes "codecs_ok cb" "errors_encode cb" "c_wok c = []"
    and "Encode (cJoinSession cb) MsgJoinSession \<lparr>js_SessionID = c_sid c\<rparr> = Inr f"
    and rds_def: "rds = map Some (first_answer cb opts now k tok f R) @ rest"
  shows "(registry_get (c_sid c) R = None \<longrightarrow>
       (\<exists>e. joinRequest cb rds c = Some (Inl e, rest) \<and> errors_Is e ErrSessionNotFound)) \<and>
     (\<forall>a h. registry_get (c_sid c) R = Some a \<longrightarrow> h = hc_hub (rl_heap R ! a) \<longrightarrow> hub_inv h \<longrightarrow>
        find_client h (h_nextID h) = None \<longrightarrow> (\<forall>q d. find_client h q = Some d \<longrightarrow> length (cl_out d) < 64) \<longrightarrow>
        (\<exists>g. Encode (cJoinResult cb) MsgJoinResult \<lparr>jr_OK = True, jr_Err = '''', jr_ParticipantID = h_nextID h,
             jr_Peers = peersExcept (h_nextID h) h, jr_HostID = h_host h, jr_ResumeToken = tok\<rparr> = Inr g) \<longrightarrow>
        (if int (length (h_clients h)) < h_max h
         then \<exists>c'. joinRequest cb rds c = Some (Inr c', rest) \<and> c_self c' = h_nextID h \<and>
                c_hostID c' = h_host h \<and> c_resumeToken c' = tok
         else \<exists>e. joinRequest cb rds c = Some (Inl e, rest) \<and> errors_Is e ErrSessionFull))"
proof (intro conjI impI allI)
  note w = first_write [OF assms(3,4)] and hello = hello_join [OF assms(1,4)]
  show "\<exists>e. joinRequest cb rds c = Some (Inl e, rest) \<and> errors_Is e ErrSessionNotFound" if "registry_get (c_sid c) R = None"
    using that refusal_read [OF assms(1,2), of "''session not found''" MsgJoinResult ErrCodeSessionNotFound rest]
    by (simp add: rds_def answer_after_def hello joinRequest_def w errors_Is_def RelayError_Is_def)
  fix a h
  assume a: "registry_get (c_sid c) R = Some a" and h: "h = hc_hub (rl_heap R ! a)" and inv: "hub_inv h"
    and free: "find_client h (h_nextID h) = None"
    and room: "\<forall>q d. find_client h q = Some d \<longrightarrow> length (cl_out d) < 64"
    and enc: "\<exists>g. Encode (cJoinResult cb) MsgJoinResult \<lparr>jr_OK = True, jr_Err = '''', jr_ParticipantID = h_nextID h,
             jr_Peers = peersExcept (h_nextID h) h, jr_HostID = h_host h, jr_ResumeToken = tok\<rparr> = Inr g"
  show "if int (length (h_clients h)) < h_max h
         then \<exists>c'. joinRequest cb rds c = Some (Inr c', rest) \<and> c_self c' = h_nextID h \<and>
                c_hostID c' = h_host h \<and> c_resumeToken c' = tok
         else \<exists>e. joinRequest cb rds c = Some (Inl e, rest) \<and> errors_Is e ErrSessionFull"
  proof -
    from enc obtain g where g: "join_answer cb False tok h = Inr g" by (auto simp: join_answer_def)
    have rds: "rds = map Some (if int (length (h_clients h)) < h_max h then [g] else error_frame cb ErrCodeSessionFull ''session full'') @ rest"
      using hub_answer_join [OF inv free room g, of k] a by (simp add: rds_def answer_after_def hello h [symmetric])
    have "cbor_roundtrip (cJoinResult cb)" using assms(1) by (simp add: codecs_ok_def)
    from answer_read [OF this g [unfolded join_answer_def, simplified]] obtain raw where
      "awaitReply cb MsgJoinResult (Some g # rest) = Some (Inr raw, rest)"
      "Body (cJoinResult cb) raw = Inr \<lparr>jr_OK = True, jr_Err = [], jr_ParticipantID = h_nextID h,
         jr_Peers = peersExcept (h_nextID h) h, jr_HostID = h_host h, jr_ResumeToken = tok\<rparr>" by blast
    then show ?thesis
      using refusal_read [OF assms(1,2), of "''session full''" MsgJoinResult ErrCodeSessionFull rest]
      by (simp add: rds joinRequest_def w errors_Is_def RelayError_Is_def del: awaitReply.simps)
  qed
qed

text \<open>A hub that runs on keeps its invariant and limits, and its ids unless somebody joins.\<close>

lemma run_on:
  "run cb h0 cs = (h, []) \<Longrightarrow> \<not> h_done h \<Longrightarrow> hub_inv h0 \<Longrightarrow>
   hub_inv h \<and> static h = static h0 \<and> ((\<forall>k isC tok. joinCmd k isC tok \<notin> set cs) \<longrightarrow> keeps_ids h0 h)"
proof (induction cs arbitrary: h0)
  case (Cons c cs)
  obtain h1 s where h1: "hub_step cb c h0 = (h1, s)" by (cases "hub_step cb c h0")
  have s: "\<not> s" using Cons.prems(1,2) h1 by (auto simp: shutdown_def)
  then have inv: "hub_inv h1" using hub_step_wf [OF Cons.prems(3) h1] by blast
  have ids: "keeps_ids h0 h1" if "\<forall>k isC tok. c \<noteq> joinCmd k isC tok"
  proof -
    obtain h2 where h2: "handle_cmd cb c h0 = (h2, False)" "drainEvictions cb h2 = (h1, s)"
      using h1 s by (auto simp: hub_step_def split: prod.splits if_splits)
    have "keeps_ids h0 h2" using keeps_ids_handle_cmd [OF Cons.prems(3) h2(1)] that by blast
    moreover have "keeps_ids h2 h1"
      using keeps_ids_drainEvictions [OF h2(2)] handle_cmd_wf [OF Cons.prems(3), of cb c] h2(1) by simp
    ultimately show ?thesis by (rule keeps_ids_trans)
  qed
  from Cons.IH [OF _ Cons.prems(2) inv] Cons.prems(1) h1 s
  have "hub_inv h \<and> static h = static h1 \<and> ((\<forall>k isC tok. joinCmd k isC tok \<notin> set cs) \<longrightarrow> keeps_ids h1 h)" by simp
  with ids static_hub_step [OF h1] keeps_ids_trans show ?case by fastforce
qed simp

lemma creator_answered:
  assumes "codecs_ok cb" "errors_encode cb" "c_wok c = []"
    and "Encode (cCreateSession cb) MsgCreateSession \<lparr>cs_SessionID = c_sid c, cs_MaxParticipants = 0\<rparr> = Inr f"
    and g: "Encode (cSessionCreated cb) MsgSessionCreated \<lparr>sc_ParticipantID = p, sc_ResumeToken = tok\<rparr> = Inr g"
  shows "\<exists>c'. hostHello cb r (Some g # rest) c = Some (Inr c', rest) \<and> c_self c' = p \<and> c_hostID c' = p \<and>
      c_role c' = RoleHost \<and> c_keyed c' \<and> c_groupKey c' = NewGroupKey (r_key r) \<and> c_resumeToken c' = tok"
    and "length msg \<le> 64 \<Longrightarrow>
      hostHello cb r (map Some (error_frame cb code msg) @ rest) c = Some (Inl (RelayRefused code msg), rest)"
proof -
  note w = first_write [OF assms(3,4)]
  have "cbor_roundtrip (cSessionCreated cb)" using assms(1) by (simp add: codecs_ok_def)
  from answer_read [OF this g] obtain raw where
    "awaitReply cb MsgSessionCreated (Some g # rest) = Some (Inr raw, rest)"
    "Body (cSessionCreated cb) raw = Inr \<lparr>sc_ParticipantID = p, sc_ResumeToken = tok\<rparr>" by blast
  then show "\<exists>c'. hostHello cb r (Some g # rest) c = Some (Inr c', rest) \<and> c_self c' = p \<and> c_hostID c' = p \<and>
      c_role c' = RoleHost \<and> c_keyed c' \<and> c_groupKey c' = NewGroupKey (r_key r) \<and> c_resumeToken c' = tok"
    by (simp add: hostHello_def w del: awaitReply.simps)
  show "hostHello cb r (map Some (error_frame cb code msg) @ rest) c = Some (Inl (RelayRefused code msg), rest)"
    if "length msg \<le> 64"
    using refusal_read [OF assms(1,2) that, of MsgSessionCreated code rest] by (simp add: hostHello_def w)
qed

text \<open>
  C13. A create request ends the way the relay's state says: for a session that exists the client gets
  an error that is \<open>ErrSessionExists\<close>, at the relay's session cap one that is \<open>ErrRateLimited\<close>.
  Otherwise the session is there for others to look up, even before the creator's own command reaches
  the new hub, and whatever the hub has handled by then, as long as it still runs: the creator becomes the
  keyed host, by its own account, with the next free id and the resume token of its slot, or gets an error
  that is \<open>ErrSessionFull\<close> if joiners have filled the session. If nobody has joined by then its id is 1.
\<close>

theorem create_request_outcomes:
  assumes "codecs_ok cb" "errors_encode cb" "c_wok c = []" "0 < o_MaxParticipants opts"
    and "Encode (cCreateSession cb) MsgCreateSession \<lparr>cs_SessionID = c_sid c, cs_MaxParticipants = 0\<rparr> = Inr f"
    and "run cb (newHub (c_sid c) (o_MaxParticipants opts) (rg_grace (rl_reg R)) now (rl_metrics R)) before = (h, [])"
    and "\<not> h_done h" "find_client h (h_nextID h) = None" "\<forall>q d. find_client h q = Some d \<longrightarrow> length (cl_out d) < 64"
    and "Encode (cSessionCreated cb) MsgSessionCreated \<lparr>sc_ParticipantID = h_nextID h, sc_ResumeToken = tok\<rparr> = Inr g"
    and rds_def: "rds = map Some (answer_after cb before opts now k tok f R) @ rest"
  shows "if registry_get (c_sid c) R \<noteq> None
     then \<exists>e. hostHello cb r rds c = Some (Inl e, rest) \<and> errors_Is e ErrSessionExists
     else if rg_maxCount (rl_reg R) \<le> int (length (rg_sessions (rl_reg R)))
     then \<exists>e. hostHello cb r rds c = Some (Inl e, rest) \<and> errors_Is e ErrRateLimited
     else registry_get (c_sid c) (snd (hello cb opts now k tok (Binary f) R)) = Some (length (rl_heap R)) \<and>
       (if int (length (h_clients h)) < o_MaxParticipants opts
        then \<exists>c'. hostHello cb r rds c = Some (Inr c', rest) \<and> c_self c' = h_nextID h \<and> c_hostID c' = h_nextID h \<and>
          c_role c' = RoleHost \<and> c_keyed c' \<and> c_groupKey c' = NewGroupKey (r_key r) \<and> c_resumeToken c' = tok
        else \<exists>e. hostHello cb r rds c = Some (Inl e, rest) \<and> errors_Is e ErrSessionFull) \<and>
       ((\<forall>k isC tok. joinCmd k isC tok \<notin> set before) \<longrightarrow>
          h_nextID h = 1 \<and> int (length (h_clients h)) < o_MaxParticipants opts)"
proof -
  note hello = hello_create [OF assms(1,5)] and answered = creator_answered [OF assms(1-3,5,10)]
  note on = run_on [OF assms(6,7) hub_inv_newHub]
  consider (exists) "registry_get (c_sid c) R \<noteq> None"
    | (full) "registry_get (c_sid c) R = None" "rg_maxCount (rl_reg R) \<le> int (length (rg_sessions (rl_reg R)))"
    | (fresh) "registry_get (c_sid c) R = None" "\<not> rg_maxCount (rl_reg R) \<le> int (length (rg_sessions (rl_reg R)))"
    by blast
  then show ?thesis
  proof cases
    case exists
    then show ?thesis using answered(2) [of "''session already exists''"]
      by (simp add: rds_def answer_after_def hello registry_create_def registry_get_def errors_Is_def RelayError_Is_def Let_def)
  next
    case full
    then show ?thesis using answered(2) [of "''relay at session capacity''"]
      by (simp add: rds_def answer_after_def hello registry_create_def registry_get_def errors_Is_def RelayError_Is_def Let_def)
  next
    case fresh
    have max: "h_max h = o_MaxParticipants opts" using on by (simp add: newHub_def)
    have alone: "h_nextID h = 1 \<and> int (length (h_clients h)) < o_MaxParticipants opts"
      if "\<forall>k isC tok. joinCmd k isC tok \<notin> set before"
    proof -
      from on that have "keeps_ids (newHub (c_sid c) (o_MaxParticipants opts) (rg_grace (rl_reg R)) now (rl_metrics R)) h" by blast
      then have "h_nextID h = 1" "dom (find_client h) = {}" by (auto simp: keeps_ids_def newHub_def)
      with assms(4) show ?thesis by (cases "h_clients h") auto
    qed
    have there: "registry_get (c_sid c) (snd (hello cb opts now k tok (Binary f) R)) = Some (length (rl_heap R))"
      using fresh by (simp add: hello registry_create_def registry_get_def Let_def update_conv)
    have "join_answer cb True tok h = Inr g" using assms(10) by (simp add: join_answer_def)
    then have "rds = map Some (if int (length (h_clients h)) < o_MaxParticipants opts then [g]
        else error_frame cb ErrCodeSessionFull ''session full'') @ rest"
      using hub_answer_join [OF _ assms(8,9), of cb True tok g k] on fresh assms(6)
      by (simp add: rds_def answer_after_def hello registry_create_def registry_get_def max Let_def nth_append)
    with there alone fresh answered(1) answered(2) [of "''session full''"] show ?thesis
      by (simp add: errors_Is_def RelayError_Is_def)
  qed
qed

section \<open>Closed examples\<close>

definition demo_served :: "bool \<Rightarrow> relay" where
  "demo_served live = \<lparr>rl_reg = (newRegistry 5 0 0)\<lparr>rg_sessions := (if live then [(replicate 16 0, 0)] else [])\<rparr>,
     rl_heap = (if live then [\<lparr>hc_hub = demo_hub, hc_inbox = [], hc_gone = False\<rparr>] else []), rl_metrics = zero_Metrics\<rparr>"

lemma demo_errors_encode: "errors_encode demo_codecs"
  by (simp add: errors_encode_def Encode_def demo_codecs_def f_via_def f_pair_def f_word_def f_bytes_def f_string_def MaxFrame_def)

lemma demo_encode_requests:
  "length sid = 16 \<Longrightarrow> \<exists>f. Encode (cJoinSession demo_codecs) t \<lparr>js_SessionID = sid\<rparr> = Inr f"
  "length sid = 16 \<Longrightarrow> \<exists>f. Encode (cCreateSession demo_codecs) t \<lparr>cs_SessionID = sid, cs_MaxParticipants = n\<rparr> = Inr f"
  by (simp_all add: Encode_def demo_codecs_def f_via_def f_pair_def f_word_def f_bytes_def MaxFrame_def)

lemma demo_sid [simp]: "c_sid (demo_end p q r b) = replicate 16 0" "c_wok (demo_end p q r b) = []"
  by (simp_all add: demo_end_def)

theorem join_request_outcomes_witness:
  "\<exists>f c'. Encode (cJoinSession demo_codecs) MsgJoinSession \<lparr>js_SessionID = replicate 16 0\<rparr> = Inr f \<and>
     joinRequest demo_codecs (map Some (first_answer demo_codecs demo_opts 0 40 [4] f (demo_served True))) (demo_end 0 0 RoleNone False)
       = Some (Inr c', []) \<and> c_self c' = 4 \<and> c_hostID c' = 1"
proof -
  obtain f where f: "Encode (cJoinSession demo_codecs) MsgJoinSession \<lparr>js_SessionID = replicate 16 0\<rparr> = Inr f"
    using demo_encode_requests(1) [of "replicate 16 0" MsgJoinSession] by auto
  have enc: "\<exists>g. Encode (cJoinResult demo_codecs) MsgJoinResult \<lparr>jr_OK = True, jr_Err = [], jr_ParticipantID = h_nextID demo_hub,
      jr_Peers = peersExcept (h_nextID demo_hub) demo_hub, jr_HostID = h_host demo_hub, jr_ResumeToken = [4]\<rparr> = Inr g"
    by (rule demo_encode_JoinResult) (simp_all add: demo_hub_simps peersExcept_def)
  have reg: "registry_get (replicate 16 0) (demo_served True) = Some 0" "demo_hub = hc_hub (rl_heap (demo_served True) ! 0)"
    by (simp_all add: registry_get_def demo_served_def)
  have facts: "h_nextID demo_hub = 4" "h_host demo_hub = 1" "find_client demo_hub (h_nextID demo_hub) = None"
    "int (length (h_clients demo_hub)) < h_max demo_hub"
    by (simp_all add: demo_hub_def newHub_def)
  have room: "\<forall>q d. find_client demo_hub q = Some d \<longrightarrow> length (cl_out d) < 64" by (auto dest!: demo_room)
  note out = join_request_outcomes [where c = "demo_end 0 0 RoleNone False", simplified demo_sid, OF demo_codecs_ok demo_errors_encode refl f refl,
      where opts = demo_opts and now = 0 and k = 40 and tok = "[4]" and R = "demo_served True" and rest = "[]",
      THEN conjunct2, THEN spec, THEN spec, THEN mp, THEN mp, THEN mp, THEN mp, THEN mp, THEN mp,
      OF reg demo_hub_inv facts(3) room enc]
  with facts f show ?thesis by auto
qed

theorem create_request_outcomes_witness:
  "\<exists>f c'. Encode (cCreateSession demo_codecs) MsgCreateSession \<lparr>cs_SessionID = replicate 16 0, cs_MaxParticipants = 0\<rparr> = Inr f \<and>
     hostHello demo_codecs demo_rand (map Some (answer_after demo_codecs [statsCmd 3] demo_opts 0 40 [4] f (demo_served False)))
       (demo_end 0 0 RoleNone False) = Some (Inr c', []) \<and> c_self c' = 1 \<and> c_role c' = RoleHost"
proof -
  obtain f where f: "Encode (cCreateSession demo_codecs) MsgCreateSession \<lparr>cs_SessionID = replicate 16 0, cs_MaxParticipants = 0\<rparr> = Inr f"
    using demo_encode_requests(2) [of "replicate 16 0" MsgCreateSession 0] by auto
  obtain g where g: "Encode (cSessionCreated demo_codecs) MsgSessionCreated \<lparr>sc_ParticipantID = 1, sc_ResumeToken = [4]\<rparr> = Inr g"
    using demo_encode_SessionCreated [of "[4]" MsgSessionCreated 1] by auto
  have opts: "0 < o_MaxParticipants demo_opts" by (simp add: demo_opts_def)
  have reg: "registry_get (replicate 16 0) (demo_served False) = None"
    "\<not> rg_maxCount (rl_reg (demo_served False)) \<le> int (length (rg_sessions (rl_reg (demo_served False))))"
    by (simp_all add: registry_get_def demo_served_def newRegistry_def)
  let ?h = "handleStats 3 (newHub (replicate 16 0) (o_MaxParticipants demo_opts) (rg_grace (rl_reg (demo_served False))) 0
    (rl_metrics (demo_served False)))"
  have run: "run demo_codecs (newHub (replicate 16 0) (o_MaxParticipants demo_opts) (rg_grace (rl_reg (demo_served False))) 0
      (rl_metrics (demo_served False))) [statsCmd 3] = (?h, [])"
    by (simp add: hub_step_def handle_cmd_def handleStats_def reply_def newHub_def drainEvictions.simps)
  have h: "\<not> h_done ?h" "find_client ?h (h_nextID ?h) = None" "\<forall>q d. find_client ?h q = Some d \<longrightarrow> length (cl_out d) < 64"
    "h_nextID ?h = 1"
    by (simp_all add: handleStats_def reply_def newHub_def)
  note out = create_request_outcomes [where c = "demo_end 0 0 RoleNone False", simplified demo_sid, OF demo_codecs_ok demo_errors_encode refl opts f
      run h(1-3) g [folded h(4)] refl, where k = 40 and rest = "[]" and r = demo_rand]
  with reg f h(4) show ?thesis by auto
qed

end
