(* ===== verification/Cbor.thy ===== *)
theory Cbor
  imports DemoCodec
begin

text \<open>
  The encoding that the CBOR library gives a broadcast (RFC 8949, core deterministic form,
  integer keys), as a further instance of the codec parameter: it grows with the sender's id,
  which matters at the limit of the frame size.
\<close>

text \<open>Heads of CBOR items (RFC 8949): the major type and the shortest form of an argument.\<close>

definition cbor_head :: "byte \<Rightarrow> uint32 \<Rightarrow> bytes" where
  "cbor_head major n =
     (if n < 24 then [major + ucast n]
      else if n < 0x100 then [major + 24, ucast n]
      else if n < 0x10000 then [major + 25, ucast (drop_bit 8 n), ucast n]
      else (major + 26) # be32 n)"

definition cbor_argument :: "byte \<Rightarrow> bytes \<Rightarrow> (uint32 \<times> bytes) option" where
  "cbor_argument major bs =
     (case bs of
        [] \<Rightarrow> None
      | b # rest \<Rightarrow>
          (let i = b - major
           in if i < 24 then Some (ucast i, rest)
              else if i = 24 \<and> rest \<noteq> [] then Some (ucast (hd rest), tl rest)
              else if i = 25 \<and> 2 \<le> length rest
              then Some (push_bit 8 (ucast (rest ! 0)) OR ucast (rest ! 1), drop 2 rest)
              else if i = 26 \<and> 4 \<le> length rest then Some (of_be32 (take 4 rest), drop 4 rest)
              else None))"

lemma ucast_small: "n < 0x100 \<Longrightarrow> ucast (ucast n :: byte) = (n :: uint32)"
proof -
  assume "n < 0x100"
  then have "unat n < 256" by (simp add: word_less_nat_alt)
  then have "unat (ucast (ucast n :: byte) :: uint32) = unat n" by (simp add: unsigned_ucast_eq unsigned_take_bit_eq take_bit_nat_eq_self)
  then show ?thesis by (simp add: word_unat_eq_iff)
qed

lemma two_bytes:
  assumes "n < 0x10000"
  shows "push_bit 8 (ucast (ucast (drop_bit 8 n) :: byte)) OR ucast (ucast n :: byte) = (n :: uint32)"
proof (rule bit_word_eqI)
  fix i assume i: "i < LENGTH(32)"
  have "take_bit 16 n = n"
    using assms by (simp add: word_unat_eq_iff unsigned_take_bit_eq take_bit_nat_eq_self word_less_nat_alt)
  then have "bit n i \<Longrightarrow> i < 16" by (metis bit_take_bit_iff)
  with i show "bit (push_bit 8 (ucast (ucast (drop_bit 8 n) :: byte)) OR ucast (ucast n :: byte) :: uint32) i = bit n i"
    by (auto simp: bit_or_iff bit_push_bit_iff bit_ucast_iff bit_drop_bit_eq)
qed

lemma cbor_argument_head [simp]: "cbor_argument major (cbor_head major n @ rest) = Some (n, rest)"
proof -
  consider "n < 24" | "\<not> n < 24" "n < 0x100" | "\<not> n < 0x100" "n < 0x10000" | "\<not> n < 0x10000" by blast
  then show ?thesis
  proof cases
    case 1
    then have "n < 0x100" by (simp add: word_less_nat_alt)
    moreover have "(ucast n :: byte) < 24" using 1 by (simp add: word_less_nat_alt unsigned_ucast_eq take_bit_nat_eq_self)
    ultimately show ?thesis using 1 ucast_small [of n] by (simp add: cbor_argument_def cbor_head_def)
  next
    case 2
    then show ?thesis using ucast_small [of n] by (simp add: cbor_argument_def cbor_head_def)
  next
    case 3
    then have "\<not> n < 24" by (simp add: word_less_nat_alt)
    with 3 show ?thesis using two_bytes [of n] by (simp add: cbor_argument_def cbor_head_def)
  next
    case 4
    then have "\<not> n < 24" "\<not> n < 0x100" by (simp_all add: word_less_nat_alt)
    with 4 show ?thesis by (simp add: cbor_argument_def cbor_head_def)
  qed
qed

text \<open>A broadcast: a map of two entries, the sender under key 1 and the payload under key 2.\<close>

definition cbor_broadcast :: "Broadcast cbor" where
  "cbor_broadcast =
     \<lparr>marshal = (\<lambda>b. if length (b_Payload b) < 2 ^ 32
        then Some ([0xA2, 1] @ cbor_head 0 (b_From b) @ [2] @ cbor_head 0x40 (word_of_nat (length (b_Payload b))) @ b_Payload b)
        else None),
      unmarshal = (\<lambda>bs.
        if take 2 bs \<noteq> [0xA2, 1] then None
        else case cbor_argument 0 (drop 2 bs) of
               Some (frm, k # r) \<Rightarrow>
                 (case cbor_argument 0x40 r of
                    Some (n, p) \<Rightarrow> if k = 2 \<and> unat n = length p then Some \<lparr>b_From = frm, b_Payload = p\<rparr> else None
                  | None \<Rightarrow> None)
             | _ \<Rightarrow> None)\<rparr>"

lemma cbor_broadcast_roundtrip: "cbor_roundtrip cbor_broadcast"
  by (auto simp: cbor_roundtrip_def cbor_broadcast_def unsigned_of_nat take_bit_nat_eq_self split: if_splits)

lemma length_cbor_head:
  "n < 24 \<Longrightarrow> length (cbor_head m n) = 1" "\<not> n < 24 \<Longrightarrow> 2 \<le> length (cbor_head m n)"
  "\<not> n < 0x100 \<Longrightarrow> n < 0x10000 \<Longrightarrow> length (cbor_head m n) = 3"
  by (auto simp: cbor_head_def word_less_nat_alt)

text \<open>The largest frame a client can write does not survive stamping with an id of 24 or more.\<close>

lemma stamp_overflows:
  assumes "length payload = 65527"
  shows "\<exists>f. Encode cbor_broadcast MsgBroadcast \<lparr>b_From = 0, b_Payload = payload\<rparr> = Inr f \<and> length f = MaxFrame"
    and "24 \<le> p \<Longrightarrow> Encode cbor_broadcast MsgBroadcast \<lparr>b_From = p, b_Payload = payload\<rparr> = Inl ErrFrameTooLarge"
proof -
  have n: "length (cbor_head 0x40 (word_of_nat 65527)) = 3" by (rule length_cbor_head) (simp_all add: word_less_nat_alt)
  show "\<exists>f. Encode cbor_broadcast MsgBroadcast \<lparr>b_From = 0, b_Payload = payload\<rparr> = Inr f \<and> length f = MaxFrame"
    using n length_cbor_head(1) [of 0 0] assms by (simp add: Encode_def cbor_broadcast_def MaxFrame_def)
  show "Encode cbor_broadcast MsgBroadcast \<lparr>b_From = p, b_Payload = payload\<rparr> = Inl ErrFrameTooLarge" if "24 \<le> p"
    using n length_cbor_head(2) [of p 0] that assms by (simp add: Encode_def cbor_broadcast_def MaxFrame_def not_less)
qed

end
