(* ===== verification/Transit.thy ===== *)
theory Transit
  imports Opening Cbor
begin

text \<open>
  A message all the way: the frame a client writes (src/session/client.go), what the relay's
  read loop and hub make of it (src/relay/relay.go, src/relay/hub.go), and what the clients at
  the other ends read.
\<close>

section \<open>A frame at the relay\<close>

text \<open>
  What a frame read from the connection of participant \<open>p\<close> does to the hub, if the hub handles
  the command at once.
\<close>

definition conn_effect :: "codecs \<Rightarrow> ParticipantID \<Rightarrow> conn_action \<Rightarrow> hub \<Rightarrow> hub" where
  "conn_effect cb p act h =
     (case act of
        Command c \<Rightarrow> (case hub_step cb c h of (h', stop) \<Rightarrow> if stop then shutdown h' else h')
      | Queue g \<Rightarrow>
          (case find_client h p of
             None \<Rightarrow> h
           | Some c \<Rightarrow>
               (case chan_send sendBuffer (cl_out c) g of
                  None \<Rightarrow> h
                | Some out \<Rightarrow> set_client p (c\<lparr>cl_out := out\<rparr>) h)))"

definition frame_arrives :: "codecs \<Rightarrow> ParticipantID \<Rightarrow> bytes \<Rightarrow> hub \<Rightarrow> hub" where
  "frame_arrives cb p f h =
     (case readFrame (Binary f) of
        Inl _ \<Rightarrow> h
      | Inr (ty, raw) \<Rightarrow> fold (conn_effect cb p) (on_frame cb p ty raw) h)"

lemma frame_arrives_routed:
  assumes "Decode f = Inr (ty, raw)" and "ty = MsgBroadcast \<or> ty = MsgDirect"
    and "hub_step cb (frameCmd p ty raw) h = (h', False)"
  shows "frame_arrives cb p f h = h'"
proof -
  have "on_frame cb p ty raw = [Command (frameCmd p ty raw)]" using assms(2) by (auto simp: on_frame_def)
  with assms(1,3) show ?thesis by (simp add: frame_arrives_def readFrame_def conn_effect_def)
qed

text \<open>What a successful broadcast of a client has written.\<close>

lemma Broadcast_c_frame:
  assumes "Broadcast_c L cb n svc body a = (a', None)"
  shows "\<exists>a1 payload. seal L cb n svc body a = (a1, Inr payload) \<and>
     Encode (cBroadcast cb) MsgBroadcast \<lparr>b_From = 0, b_Payload = payload\<rparr> = Inr (last (c_sent a'))"
  using assms by (auto simp: Broadcast_c_def split: prod.splits sum.splits dest!: writeFrame_c_None)

lemma SendTo_frame:
  assumes "SendTo L cb n to svc body a = (a', None)"
  shows "\<exists>a1 payload. seal L cb n svc body a = (a1, Inr payload) \<and>
     Encode (cDirect cb) MsgDirect \<lparr>d_To = to, d_From = 0, d_Payload = payload\<rparr> = Inr (last (c_sent a'))"
  using assms by (auto simp: SendTo_def split: prod.splits sum.splits dest!: writeFrame_c_None)

section \<open>Broadcasts\<close>

text \<open>
  C4. A broadcast through the relay: when a client's \<open>Broadcast\<close> succeeds and the stamped
  frame still fits, then with room in the buffers the relay appends one frame to the outbox
  of every other participant and changes no other slot, and whoever reads that frame as a keyed
  member of the session emits exactly one event, with the sender, service, sequence number and
  body of the message, if the key it was sealed under is its group key or a superseded one it
  keeps, and nothing otherwise.
\<close>

theorem broadcast_through_relay:
  assumes "lib_ok L" and "codecs_ok cb" and "client_inv a" and "Broadcast_c L cb n svc body a = (a', None)"
    and "hub_inv h" and "\<And>k c. find_client h k = Some c \<Longrightarrow> length (cl_out c) < 64"
    and "Encode (cBroadcast cb) MsgBroadcast \<lparr>b_From = 0, b_Payload = payload\<rparr> = Inr (last (c_sent a'))"
    and "Encode (cBroadcast cb) MsgBroadcast \<lparr>b_From = c_self a, b_Payload = payload\<rparr> = Inr data"
  shows "(\<forall>q. find_client (frame_arrives cb (c_self a) (last (c_sent a')) h) q =
        (if q = c_self a then find_client h q
         else map_option (\<lambda>c. c\<lparr>cl_out := cl_out c @ [data]\<rparr>) (find_client h q))) \<and>
     (\<forall>b r. client_inv b \<longrightarrow> c_sid b = c_sid a \<longrightarrow> c_keyed b \<longrightarrow> c_self b \<noteq> c_self a \<longrightarrow>
        readLoop_c L cb [(r, Some data)] b =
          (if c_groupKey a \<in> set (c_groupKey b # c_prevKeys b)
           then emit (Frame (c_self a) \<lparr>env_ServiceID = svc, env_Seq = c_seqs a svc + 1, env_Body = body\<rparr>) b
           else b, False))"
proof -
  have rt: "cbor_roundtrip (cBroadcast cb)" using assms(2) by (simp add: codecs_ok_def)
  from Encode_decodes [OF rt assms(7)] obtain raw where
    raw: "Decode (last (c_sent a')) = Inr (MsgBroadcast, raw)" "Body (cBroadcast cb) raw = Inr \<lparr>b_From = 0, b_Payload = payload\<rparr>"
    by blast
  from Encode_decodes [OF rt assms(8)] obtain raw' where
    raw': "Decode data = Inr (MsgBroadcast, raw')" "Body (cBroadcast cb) raw' = Inr \<lparr>b_From = c_self a, b_Payload = payload\<rparr>"
    by blast
  have room: "length (cl_out c) < sendBuffer" if "find_client h k = Some c" for k c
    using assms(6) [OF that] by (simp add: sendBuffer_def)
  have enc: "Encode (cBroadcast cb) MsgBroadcast (\<lparr>b_From = 0, b_Payload = payload\<rparr>\<lparr>b_From := c_self a\<rparr>) = Inr data"
    using assms(8) by simp
  note step = broadcast_step [OF assms(5) room raw(2) enc]
  have fw: "delivers cb (c_self a) q (last (c_sent a')) data" if "q \<noteq> c_self a" for q
    using raw raw' that by (auto simp: delivers_def forwarded_def)
  show ?thesis
    using frame_arrives_routed [OF raw(1) _ step(1)] step(2)
      end_to_end_Broadcast [OF assms(1,2,3) _ _ _ assms(4) fw] by auto
qed

section \<open>Directed messages\<close>

lemma direct_step:
  assumes "hub_inv h" and "find_client h (d_To d) = Some c" and "length (cl_out c) < sendBuffer"
    and "Body (cDirect cb) raw = Inr d" and "Encode (cDirect cb) MsgDirect (d\<lparr>d_From := p\<rparr>) = Inr f"
  shows "hub_step cb (frameCmd p MsgDirect raw) h = (route cb p MsgDirect raw h, False)"
    and "find_client (route cb p MsgDirect raw h) q =
      (if q = d_To d then Some (c\<lparr>cl_out := cl_out c @ [f]\<rparr>) else find_client h q)"
proof -
  let ?h = "h\<lparr>h_metrics := (h_metrics h)
              \<lparr>FramesForwarded := FramesForwarded (h_metrics h) + 1,
               BytesForwarded := BytesForwarded (h_metrics h) + word_of_nat (length raw)\<rparr>\<rparr>"
  have r: "route cb p MsgDirect raw h = queue (d_To d) f ?h"
    using assms(2,4,5) by (simp add: route_def sendTo_def Let_def)
  have ov: "\<not> overflows c" using assms(3) by (simp add: overflows_def)
  have "h_evict (queue (d_To d) f ?h) = []"
    using assms(1,2) ov by (simp add: queue_evict hub_inv_def)
  then show "hub_step cb (frameCmd p MsgDirect raw) h = (route cb p MsgDirect raw h, False)"
    by (simp add: hub_step_def handle_cmd_def r)
  have "offer f c = c\<lparr>cl_out := cl_out c @ [f]\<rparr>"
    using assms(3) hub_inv_not_evicting [OF assms(1,2)] by (simp add: offer_def)
  moreover have "wf_map (h_clients ?h)" using hub_wf_map [OF hub_inv_wf [OF assms(1)]] by simp
  ultimately show "find_client (route cb p MsgDirect raw h) q =
      (if q = d_To d then Some (c\<lparr>cl_out := cl_out c @ [f]\<rparr>) else find_client h q)"
    using assms(2) by (simp add: r find_queue)
qed

text \<open>
  C28. A directed message through the relay: when a client's \<open>SendTo\<close> succeeds and the stamped
  frame still fits, the relay appends one frame to the outbox of the addressee and changes
  no other slot; the addressee, reading it as a keyed member of the session, emits exactly
  one event with the sender, service, sequence number and body of the message if it has the
  key, and nothing otherwise.
\<close>

theorem direct_through_relay:
  assumes "lib_ok L" and "codecs_ok cb" and "client_inv a" and "SendTo L cb n to svc body a = (a', None)"
    and "hub_inv h" and "find_client h to = Some d" and "length (cl_out d) < 64"
    and "Encode (cDirect cb) MsgDirect \<lparr>d_To = to, d_From = 0, d_Payload = payload\<rparr> = Inr (last (c_sent a'))"
    and "Encode (cDirect cb) MsgDirect \<lparr>d_To = to, d_From = c_self a, d_Payload = payload\<rparr> = Inr data"
  shows "(\<forall>q. find_client (frame_arrives cb (c_self a) (last (c_sent a')) h) q =
        (if q = to then Some (d\<lparr>cl_out := cl_out d @ [data]\<rparr>) else find_client h q)) \<and>
     (\<forall>b r. client_inv b \<longrightarrow> c_sid b = c_sid a \<longrightarrow> c_keyed b \<longrightarrow>
        readLoop_c L cb [(r, Some data)] b =
          (if c_groupKey a \<in> set (c_groupKey b # c_prevKeys b)
           then emit (Frame (c_self a) \<lparr>env_ServiceID = svc, env_Seq = c_seqs a svc + 1, env_Body = body\<rparr>) b
           else b, False))"
proof -
  have rt: "cbor_roundtrip (cDirect cb)" using assms(2) by (simp add: codecs_ok_def)
  from Encode_decodes [OF rt assms(8)] obtain raw where
    raw: "Decode (last (c_sent a')) = Inr (MsgDirect, raw)" "Body (cDirect cb) raw = Inr \<lparr>d_To = to, d_From = 0, d_Payload = payload\<rparr>"
    by blast
  from Encode_decodes [OF rt assms(9)] obtain raw' where
    raw': "Decode data = Inr (MsgDirect, raw')" "Body (cDirect cb) raw' = Inr \<lparr>d_To = to, d_From = c_self a, d_Payload = payload\<rparr>"
    by blast
  have "length (cl_out d) < sendBuffer" using assms(7) by (simp add: sendBuffer_def)
  note step = direct_step [OF assms(5) _ this raw(2), of "c_self a" data, simplified, OF assms(6,9)]
  from SendTo_frame [OF assms(4)] obtain a1 pl where
    s: "seal L cb n svc body a = (a1, Inr pl)"
      "Encode (cDirect cb) MsgDirect \<lparr>d_To = to, d_From = 0, d_Payload = pl\<rparr> = Inr (last (c_sent a'))" by blast
  from Encode_decodes [OF rt s(2)] raw have pl: "pl = payload" by auto
  show ?thesis
    using frame_arrives_routed [OF raw(1) _ step(1)] step(2)
      handle_sealed [OF assms(1,2,3) _ _ _ s(1)] read_Direct [OF raw', of L _ "[]"] by (auto simp: pl)
qed

section \<open>The limit of the frame size\<close>

lemma Broadcast_c_seq:
  "Broadcast_c L cb n svc body a = (a', None) \<Longrightarrow> c_seqs a' svc = c_seqs a svc + 1"
  by (auto simp: Broadcast_c_def split: prod.splits sum.splits dest!: seal_Inr writeFrame_c_None)

text \<open>
  C34. A broadcast can be lost without anybody being told: if the frame the client wrote no
  longer fits once the relay has put the sender's id into it, then \<open>Broadcast\<close> has reported
  success and used up a sequence number, the relay counts the frame as forwarded, and no
  participant, the sender included, is sent anything; no error is counted either.
\<close>

theorem oversize_stamp_lost:
  assumes "codecs_ok cb" and "hub_inv h" and "Broadcast_c L cb n svc body a = (a', None)"
    and "Encode (cBroadcast cb) MsgBroadcast \<lparr>b_From = 0, b_Payload = payload\<rparr> = Inr (last (c_sent a'))"
    and "Encode (cBroadcast cb) MsgBroadcast \<lparr>b_From = c_self a, b_Payload = payload\<rparr> = Inl e"
  shows "c_seqs a' svc = c_seqs a svc + 1 \<and>
     (let h' = frame_arrives cb (c_self a) (last (c_sent a')) h
      in h_clients h' = h_clients h \<and> Errors (h_metrics h') = Errors (h_metrics h) \<and>
         FramesForwarded (h_metrics h') = FramesForwarded (h_metrics h) + 1)"
proof -
  have rt: "cbor_roundtrip (cBroadcast cb)" using assms(1) by (simp add: codecs_ok_def)
  from Encode_decodes [OF rt assms(4)] obtain raw where
    raw: "Decode (last (c_sent a')) = Inr (MsgBroadcast, raw)" "Body (cBroadcast cb) raw = Inr \<lparr>b_From = 0, b_Payload = payload\<rparr>"
    by blast
  let ?h = "h\<lparr>h_metrics := (h_metrics h)
              \<lparr>FramesForwarded := FramesForwarded (h_metrics h) + 1,
               BytesForwarded := BytesForwarded (h_metrics h) + word_of_nat (length raw)\<rparr>\<rparr>"
  have "hub_step cb (frameCmd (c_self a) MsgBroadcast raw) h = (?h, False)"
    using raw(2) assms(2,5) by (simp add: hub_step_def handle_cmd_def route_def broadcastFrame_def hub_inv_def Let_def)
  from frame_arrives_routed [OF raw(1) _ this] Broadcast_c_seq [OF assms(3)] show ?thesis by simp
qed

section \<open>Closed examples\<close>

lemma demo_Broadcast_frames:
  assumes "c_keyed c" "length (c_groupKey c) = 32" "length (c_sid c) = 16" "c_wok c = []"
  shows "\<exists>c' payload. Broadcast_c demo_lib demo_codecs [] ''chat'' [42] c = (c', None) \<and>
     Encode (cBroadcast demo_codecs) MsgBroadcast \<lparr>b_From = 0, b_Payload = payload\<rparr> = Inr (last (c_sent c')) \<and>
     (\<forall>p. \<exists>data. Encode (cBroadcast demo_codecs) MsgBroadcast \<lparr>b_From = p, b_Payload = payload\<rparr> = Inr data)"
proof -
  from demo_seal [OF assms(1-3)] obtain p where
    p: "seal demo_lib demo_codecs [] ''chat'' [42] c = (c\<lparr>c_seqs := (c_seqs c)(''chat'' := c_seqs c ''chat'' + 1)\<rparr>, Inr p)" "length p \<le> 1000"
    by blast
  have enc: "\<exists>f. Encode (cBroadcast demo_codecs) MsgBroadcast \<lparr>b_From = n, b_Payload = p\<rparr> = Inr f" for n
    using p(2) by (simp add: Encode_def demo_codecs_def f_via_def f_pair_def f_word_def f_bytes_def MaxFrame_def)
  from enc [of 0] obtain f where f: "Encode (cBroadcast demo_codecs) MsgBroadcast \<lparr>b_From = 0, b_Payload = p\<rparr> = Inr f" by blast
  have "\<exists>c'. Broadcast_c demo_lib demo_codecs [] ''chat'' [42] c = (c', None) \<and> last (c_sent c') = f"
    using p(1) f assms(4) by (simp add: Broadcast_c_def writeFrame_c_def conn_write_def)
  with f enc show ?thesis by blast
qed

theorem broadcast_through_relay_witness:
  "\<exists>a' data. Broadcast_c demo_lib demo_codecs [] ''chat'' [42] (demo_end 1 1 RoleHost True) = (a', None) \<and>
     map_option cl_out (find_client (frame_arrives demo_codecs 1 (last (c_sent a')) demo_hub) 2) =
       map_option (\<lambda>c. cl_out c @ [data]) (find_client demo_hub 2) \<and>
     readLoop_c demo_lib demo_codecs [(demo_rand, Some data)] (demo_end 2 1 RoleMember True) =
       (emit (Frame 1 \<lparr>env_ServiceID = ''chat'', env_Seq = 1, env_Body = [42]\<rparr>) (demo_end 2 1 RoleMember True), False)"
proof -
  let ?a = "demo_end 1 1 RoleHost True" and ?b = "demo_end 2 1 RoleMember True"
  have fl: "c_self ?a = 1" "c_self ?b = 2" "c_seqs ?a = (\<lambda>_. 0)" "c_sid ?b = c_sid ?a" "c_keyed ?b"
    "c_groupKey ?a \<in> set (c_groupKey ?b # c_prevKeys ?b)" by (simp_all add: demo_end_def)
  from demo_Broadcast_frames [of ?a] obtain a' payload data where
    a': "Broadcast_c demo_lib demo_codecs [] ''chat'' [42] ?a = (a', None)"
      "Encode (cBroadcast demo_codecs) MsgBroadcast \<lparr>b_From = 0, b_Payload = payload\<rparr> = Inr (last (c_sent a'))"
      "Encode (cBroadcast demo_codecs) MsgBroadcast \<lparr>b_From = c_self ?a, b_Payload = payload\<rparr> = Inr data"
    by (fastforce simp: demo_end_def)
  have room: "length (cl_out c) < 64" if "find_client demo_hub k = Some c" for k c using demo_room [OF that] by simp
  note t = broadcast_through_relay [OF demo_lib_ok demo_codecs_ok demo_end_inv a'(1) demo_hub_inv room a'(2,3)]
  have "find_client (frame_arrives demo_codecs 1 (last (c_sent a')) demo_hub) 2 =
      map_option (\<lambda>c. c\<lparr>cl_out := cl_out c @ [data]\<rparr>) (find_client demo_hub 2)"
    using t [THEN conjunct1, THEN spec [where x = 2]] by (simp add: fl)
  moreover have "readLoop_c demo_lib demo_codecs [(demo_rand, Some data)] ?b =
       (emit (Frame 1 \<lparr>env_ServiceID = ''chat'', env_Seq = 1, env_Body = [42]\<rparr>) ?b, False)"
    using t [THEN conjunct2, THEN spec [where x = ?b], THEN spec [where x = demo_rand]] fl demo_end_inv by simp
  ultimately show ?thesis using a'(1) by (auto simp: option.map_comp comp_def)
qed

theorem direct_through_relay_witness:
  "\<exists>a' data. SendTo demo_lib demo_codecs [] 2 ''chat'' [42] (demo_end 1 1 RoleHost True) = (a', None) \<and>
     map_option cl_out (find_client (frame_arrives demo_codecs 1 (last (c_sent a')) demo_hub) 2) =
       map_option (\<lambda>c. cl_out c @ [data]) (find_client demo_hub 2) \<and>
     find_client (frame_arrives demo_codecs 1 (last (c_sent a')) demo_hub) 3 = find_client demo_hub 3"
proof -
  let ?a = "demo_end 1 1 RoleHost True"
  from demo_seal [of ?a] obtain p where
    p: "seal demo_lib demo_codecs [] ''chat'' [42] ?a = (?a\<lparr>c_seqs := (c_seqs ?a)(''chat'' := c_seqs ?a ''chat'' + 1)\<rparr>, Inr p)" "length p \<le> 1000"
    by (auto simp: demo_end_def)
  from demo_encode_Direct [OF p(2)] obtain f data where
    f: "Encode (cDirect demo_codecs) MsgDirect \<lparr>d_To = 2, d_From = 0, d_Payload = p\<rparr> = Inr f"
      "Encode (cDirect demo_codecs) MsgDirect \<lparr>d_To = 2, d_From = c_self ?a, d_Payload = p\<rparr> = Inr data" by meson
  have "\<exists>a'. SendTo demo_lib demo_codecs [] 2 ''chat'' [42] ?a = (a', None) \<and> last (c_sent a') = f"
    using p(1) f(1) by (simp add: SendTo_def writeFrame_c_def conn_write_def demo_end_def)
  then obtain a' where a': "SendTo demo_lib demo_codecs [] 2 ''chat'' [42] ?a = (a', None)" "last (c_sent a') = f" by blast
  obtain d where d: "find_client demo_hub 2 = Some d" by (simp add: demo_hub_simps)
  have "length (cl_out d) < 64" using demo_room [OF d] by simp
  note t = direct_through_relay [OF demo_lib_ok demo_codecs_ok demo_end_inv a'(1) demo_hub_inv d this, unfolded a'(2), OF f,
      THEN conjunct1]
  have "c_self ?a = 1" by (simp add: demo_end_def)
  with a' d t [THEN spec [where x = 2]] t [THEN spec [where x = 3]] show ?thesis by auto
qed

text \<open>A session whose codec is the library's for broadcasts, and a message that seals to 65527 bytes.\<close>

definition big_codecs :: "SealedFrame \<Rightarrow> codecs" where
  "big_codecs sf = demo_codecs\<lparr>cBroadcast := cbor_broadcast, cSealedFrame := table_cbor [(sf, replicate 65526 0)]\<rparr>"

lemma big_codecs_ok: "codecs_ok (big_codecs sf)"
  using demo_codecs_ok cbor_broadcast_roundtrip table_cbor_roundtrip [of "[(sf, replicate 65526 0)]"]
  by (simp add: codecs_ok_def big_codecs_def)

theorem oversize_stamp_lost_witness:
  "\<exists>sf a'. Broadcast_c demo_lib (big_codecs sf) [] ''chat'' [42] (demo_end 24 1 RoleMember True) = (a', None) \<and>
     length (last (c_sent a')) = 65536 \<and> c_seqs a' ''chat'' = 1 \<and>
     h_clients (frame_arrives (big_codecs sf) 24 (last (c_sent a')) demo_hub) = h_clients demo_hub"
proof -
  let ?a = "demo_end 24 1 RoleMember True"
  let ?env = "\<lparr>env_ServiceID = ''chat'', env_Seq = 1, env_Body = [42]\<rparr>"
  obtain plain where pl: "Marshal (cEnvelope demo_codecs) ?env = Some plain"
    by (simp add: Marshal_def demo_codecs_def)
  obtain sf where sf: "Seal demo_lib [] (c_groupKey ?a) plain (c_sid ?a) (c_self ?a) = Inr sf"
    by (simp add: Seal_def KeySize_def demo_lib_def demo_end_def)
  let ?cb = "big_codecs sf" and ?p = "KindSealed # replicate 65526 0"
  have pe: "EncodePayload (cSealedFrame ?cb) KindSealed sf = Inr ?p"
    by (simp add: EncodePayload_def big_codecs_def table_cbor_def)
  have big: "length ?p = 65527" by simp
  have cbs: "cBroadcast ?cb = cbor_broadcast" "cEnvelope ?cb = cEnvelope demo_codecs" by (simp_all add: big_codecs_def)
  from stamp_overflows(1) [OF big] obtain f where
    f: "Encode (cBroadcast ?cb) MsgBroadcast \<lparr>b_From = 0, b_Payload = ?p\<rparr> = Inr f" "length f = MaxFrame" unfolding cbs by blast
  have s: "seal demo_lib ?cb [] ''chat'' [42] ?a = (?a\<lparr>c_seqs := (c_seqs ?a)(''chat'' := c_seqs ?a ''chat'' + 1)\<rparr>, Inr ?p)"
    using pl sf pe by (simp add: seal_def cbs Let_def demo_end_def)
  have "\<exists>a'. Broadcast_c demo_lib ?cb [] ''chat'' [42] ?a = (a', None) \<and> last (c_sent a') = f"
    using s f(1) by (simp add: Broadcast_c_def writeFrame_c_def conn_write_def demo_end_def)
  then obtain a' where a': "Broadcast_c demo_lib ?cb [] ''chat'' [42] ?a = (a', None)" "last (c_sent a') = f" by blast
  have lost: "Encode (cBroadcast ?cb) MsgBroadcast \<lparr>b_From = c_self ?a, b_Payload = ?p\<rparr> = Inl ErrFrameTooLarge"
    unfolding cbs by (rule stamp_overflows(2) [OF big]) (simp add: demo_end_def)
  from oversize_stamp_lost [OF big_codecs_ok demo_hub_inv a'(1), unfolded a'(2), OF f(1) lost]
  have "c_seqs a' ''chat'' = 1" "h_clients (frame_arrives ?cb 24 f demo_hub) = h_clients demo_hub"
    by (simp_all add: demo_end_def Let_def)
  with a' f(2) show ?thesis by (auto simp: MaxFrame_def)
qed

end
