(* ===== verification/KeepAlive.thy ===== *)
theory KeepAlive
  imports SessionProps Relay
begin

text \<open>
  Heartbeats and read deadlines: the client's ticker and its read timeout
  (src/session/client.go, src/session/handshake.go) against the relay's idle timeout and the
  timeout of the first frame (src/relay/relay.go). Time is in nanoseconds; a read loop handles
  what it has read at once and then waits for the next message.
\<close>

section \<open>Timed reads\<close>

definition pingInterval :: int where "pingInterval = 8 * second"

definition readTimeout :: int where "readTimeout = 20 * second"

definition helloTimeout :: int where "helloTimeout = 10 * second"

text \<open>
  The results, by the time \<open>horizon\<close>, of successive reads with a fresh deadline each, for messages
  arriving at the given times; a deadline that passes yields \<open>dead\<close> and ends the loop.
\<close>

fun timed_reads :: "int \<Rightarrow> 'a \<Rightarrow> int \<Rightarrow> int \<Rightarrow> (int \<times> 'a) list \<Rightarrow> 'a list" where
  "timed_reads limit dead now horizon [] = (if horizon < now + limit then [] else [dead])"
| "timed_reads limit dead now horizon ((t, x) # as) =
     (if t < now + limit then x # timed_reads limit dead (max now t) horizon as else [dead])"

text \<open>The relay's read loop, the client's, and the first frame of a connection.\<close>

definition relay_reads :: "'r Options \<Rightarrow> int \<Rightarrow> int \<Rightarrow> (int \<times> ws_read) list \<Rightarrow> ws_read list" where
  "relay_reads opts = timed_reads (o_IdleTimeout opts) (ReadFailed (-1))"

definition client_reads :: "int \<Rightarrow> int \<Rightarrow> (int \<times> bytes) list \<Rightarrow> bytes option list" where
  "client_reads now horizon as = timed_reads readTimeout None now horizon (map (\<lambda>(t, f). (t, Some f)) as)"

definition hello_read :: "int \<Rightarrow> int \<times> ws_read \<Rightarrow> ws_read" where
  "hello_read now a = hd (timed_reads helloTimeout (ReadFailed (-1)) now (now + helloTimeout) [a])"

section \<open>A connection that is heard\<close>

text \<open>
  Something arrives for every heartbeat, at most \<open>d\<close> after its tick; anything else may arrive too.
\<close>

definition heard :: "int \<Rightarrow> int \<Rightarrow> int \<Rightarrow> (int \<times> 'a) list \<Rightarrow> bool" where
  "heard d start horizon as \<longleftrightarrow> sorted (map fst as) \<and> list_all (\<lambda>(t, _). start \<le> t) as \<and>
     (\<forall>i > 0. start + int i * pingInterval + d \<le> horizon \<longrightarrow>
        list_ex (\<lambda>(t, _). start + int i * pingInterval \<le> t \<and> t \<le> start + int i * pingInterval + d) as)"

lemma timed_reads_all:
  assumes "sorted (map fst as)" and "\<forall>(t, x) \<in> set as. now \<le> t \<and> t \<le> horizon"
    and "\<And>s. now \<le> s \<Longrightarrow> s + limit \<le> horizon \<Longrightarrow> \<exists>(t, x) \<in> set as. s < t \<and> t < s + limit"
    and "0 < limit"
  shows "timed_reads limit dead now horizon as = map snd as"
  using assms
proof (induction as arbitrary: now)
  case Nil
  show ?case
  proof (rule ccontr)
    assume "\<not> ?thesis"
    then have "now + limit \<le> horizon" by (simp split: if_splits)
    with Nil.prems(3) [of now] show False by simp
  qed
next
  case (Cons a as)
  obtain t x where a: "a = (t, x)" by fastforce
  have near: "t < now + limit"
  proof (rule ccontr)
    assume "\<not> ?thesis"
    then have "now + limit \<le> horizon" using Cons.prems(2) a by auto
    with Cons.prems(3) [of now] obtain t' x' where "(t', x') \<in> set (a # as)" "t' < now + limit" by auto
    with \<open>\<not> ?thesis\<close> Cons.prems(1) a show False by (fastforce simp: less_le_trans)
  qed
  have "timed_reads limit dead t horizon as = map snd as"
  proof (rule Cons.IH)
    show "\<forall>(s, y) \<in> set as. t \<le> s \<and> s \<le> horizon" using Cons.prems(1,2) a by fastforce
    show "\<exists>(t', y) \<in> set as. s < t' \<and> t' < s + limit" if "t \<le> s" "s + limit \<le> horizon" for s
    proof -
      have "now \<le> s" using that(1) Cons.prems(2) a by auto
      from Cons.prems(3) [OF this that(2)] that(1) a show ?thesis by auto
    qed
  qed (use Cons.prems in auto)
  moreover have "max now t = t" using Cons.prems(2) a by auto
  ultimately show ?case using near a by simp
qed

lemma heard_reads:
  assumes "heard d start horizon as" and "0 \<le> d" and "pingInterval + d < limit"
    and "list_all (\<lambda>(t, _). t \<le> horizon) as"
  shows "timed_reads limit dead start horizon as = map snd as"
proof (rule timed_reads_all)
  have p: "0 < pingInterval" by (simp add: pingInterval_def)
  show "\<exists>(t, x) \<in> set as. s < t \<and> t < s + limit" if s: "start \<le> s" "s + limit \<le> horizon" for s
  proof -
    define i where "i = nat ((s - start) div pingInterval + 1)"
    have "0 \<le> (s - start) div pingInterval" using s(1) p by (simp add: pos_imp_zdiv_nonneg_iff)
    then have i: "0 < i" "int i = (s - start) div pingInterval + 1" by (simp_all add: i_def)
    have m: "(s - start) div pingInterval * pingInterval + (s - start) mod pingInterval = s - start" by simp
    have r: "0 \<le> (s - start) mod pingInterval" "(s - start) mod pingInterval < pingInterval" using p by simp_all
    have tick: "s < start + int i * pingInterval" "start + int i * pingInterval \<le> s + pingInterval"
      unfolding i(2) distrib_right using m r by linarith+
    have "start + int i * pingInterval + d \<le> horizon" using tick(2) s(2) assms(3) by simp
    with assms(1) i(1) have "list_ex (\<lambda>(t, _). start + int i * pingInterval \<le> t \<and> t \<le> start + int i * pingInterval + d) as"
      by (simp add: heard_def)
    then obtain t x where x: "(t, x) \<in> set as" "start + int i * pingInterval \<le> t" "t \<le> start + int i * pingInterval + d"
      by (auto simp: list_ex_iff)
    then have "s < t \<and> t < s + limit" using tick assms(3) by linarith
    with x(1) show ?thesis by blast
  qed
qed (use assms in \<open>auto simp: heard_def list_all_iff pingInterval_def\<close>)

lemma pingLoop_frames:
  assumes "\<And>m. \<exists>f. Encode (cPing cb) MsgPing \<lparr>ping_Nonce = m\<rparr> = Inr f"
  shows "length (pingLoop cb m (replicate n True)) = n \<and>
     (\<forall>i < n. Encode (cPing cb) MsgPing \<lparr>ping_Nonce = m + word_of_nat (Suc i)\<rparr> = Inr (pingLoop cb m (replicate n True) ! i))"
proof (induction n arbitrary: m)
  case (Suc n)
  from assms obtain f where f: "Encode (cPing cb) MsgPing \<lparr>ping_Nonce = m + 1\<rparr> = Inr f" by blast
  have "Encode (cPing cb) MsgPing \<lparr>ping_Nonce = m + word_of_nat (Suc i)\<rparr> = Inr ((f # pingLoop cb (m + 1) (replicate n True)) ! i)"
    if "i < Suc n" for i
    using that f Suc.IH [of "m + 1"] by (cases i) (auto simp: add.assoc)
  with f Suc.IH [of "m + 1"] show ?case by simp
qed simp

lemma ping_answered:
  assumes "cbor_roundtrip (cPing cb)" and "Encode (cPing cb) MsgPing \<lparr>ping_Nonce = m\<rparr> = Inr f"
  shows "\<exists>raw. Decode f = Inr (MsgPing, raw) \<and>
     on_frame cb pid MsgPing raw = queueFrame (cPong cb) MsgPong \<lparr>pong_Nonce = m\<rparr>"
  using Encode_decodes [OF assms] by (auto simp: on_frame_def)

text \<open>
  C25. Heartbeats keep a quiet connection alive on both ends: if every message needs less than
  twelve seconds from a tick of the client's ticker (the relay's answers included) and the
  relay's idle timeout is at least the client's read timeout, then neither the relay's loop nor
  the client's ever sees a deadline pass, whatever else arrives; and each ping is answered by
  a pong with its nonce, the nonces counting up from one (modulo 32 bits).
\<close>

theorem heartbeat_keeps_alive:
  assumes "codecs_ok cb" and "\<And>m. \<exists>f. Encode (cPing cb) MsgPing \<lparr>ping_Nonce = m\<rparr> = Inr f"
    and "heard up start horizon ups" and "heard down start horizon downs"
    and "list_all (\<lambda>(t, _). t \<le> horizon) ups" and "list_all (\<lambda>(t, _). t \<le> horizon) downs"
    and "0 \<le> up" and "up \<le> down" and "down < 12 * second" and "20 * second \<le> o_IdleTimeout opts"
  shows "relay_reads opts start horizon ups = map snd ups \<and>
     client_reads start horizon downs = map (Some \<circ> snd) downs \<and>
     (\<forall>i < n. \<exists>raw. Decode (pingLoop cb 0 (replicate n True) ! i) = Inr (MsgPing, raw) \<and>
        on_frame cb pid MsgPing raw = queueFrame (cPong cb) MsgPong \<lparr>pong_Nonce = word_of_nat (i + 1)\<rparr>)"
proof (intro conjI)
  show "relay_reads opts start horizon ups = map snd ups"
    unfolding relay_reads_def using assms(3,5,7-) by (intro heard_reads) (auto simp: pingInterval_def)
  have "heard down start horizon (map (\<lambda>(t, f). (t, Some f)) downs)"
    using assms(4) by (simp add: heard_def list_all_iff list_ex_iff case_prod_beta' comp_def)
  moreover have "list_all (\<lambda>(t, _). t \<le> horizon) (map (\<lambda>(t, f). (t, Some f)) downs)"
    using assms(6) by (simp add: list_all_iff case_prod_beta')
  ultimately have "client_reads start horizon downs = map snd (map (\<lambda>(t, f). (t, Some f)) downs)"
    unfolding client_reads_def using assms(7-9) by (intro heard_reads) (auto simp: pingInterval_def readTimeout_def)
  then show "client_reads start horizon downs = map (Some \<circ> snd) downs" by (simp add: case_prod_beta' comp_def)
  have "cbor_roundtrip (cPing cb)" using assms(1) by (simp add: codecs_ok_def)
  from ping_answered [OF this] pingLoop_frames [OF assms(2), where m = 0 and n = n]
  show "\<forall>i < n. \<exists>raw. Decode (pingLoop cb 0 (replicate n True) ! i) = Inr (MsgPing, raw) \<and>
      on_frame cb pid MsgPing raw = queueFrame (cPong cb) MsgPong \<lparr>pong_Nonce = word_of_nat (i + 1)\<rparr>" by simp
qed

section \<open>A connection that falls silent\<close>

lemma timed_reads_silent:
  assumes "\<forall>(t, x) \<in> set as. t + limit \<le> horizon" and "now + limit \<le> horizon"
  shows "\<exists>pre. timed_reads limit dead now horizon as = pre @ [dead] \<and> set pre \<subseteq> snd ` set as"
  using assms
proof (induction as arbitrary: now)
  case (Cons a as)
  obtain t x where a: "a = (t, x)" by fastforce
  with Cons.prems have "max now t + limit \<le> horizon" by (auto simp: max_def)
  with Cons.IH [of "max now t"] Cons.prems(1) obtain pre where
    pre: "timed_reads limit dead (max now t) horizon as = pre @ [dead]" "set pre \<subseteq> snd ` set as" by auto
  show ?case
  proof (cases "t < now + limit")
    case True
    with pre a show ?thesis by (intro exI [of _ "x # pre"]) auto
  qed (simp add: a)
qed simp

lemma readLoop_ends: "readFrame rd = Inl e \<Longrightarrow> \<exists>acts u. readLoop cb pid (pre @ rd # rds) = Some (acts, u) \<and>
    ((\<forall>x \<in> set pre. \<exists>f. readFrame x = Inr f) \<longrightarrow> u = (CloseStatus e \<noteq> StatusNormalClosure))"
proof (induction pre)
  case (Cons x pre)
  then obtain acts u where "readLoop cb pid (pre @ rd # rds) = Some (acts, u)"
    "(\<forall>x \<in> set pre. \<exists>f. readFrame x = Inr f) \<longrightarrow> u = (CloseStatus e \<noteq> StatusNormalClosure)" by blast
  then show ?case by (cases "readFrame x") (auto split: prod.split)
qed simp

lemma readLoop_c_ends:
  "\<exists>c' reason. readLoop_c L cb (pre @ (r, None) # rds) c = (c', True) \<and> last (c_events c') = Closed reason \<and>
     (reason \<noteq> ''connection lost'' \<longrightarrow> (\<exists>(r, rd) \<in> set pre. \<exists>raw. readFrame_c rd = Inr (MsgSessionClosed, raw)))"
proof (induction pre arbitrary: c)
  case Nil
  show ?case by (simp add: readLoop_c.simps readFrame_c_def emit_def)
next
  case (Cons x pre)
  obtain r' rd where x: "x = (r', rd)" by fastforce
  show ?case
  proof (cases "readFrame_c rd")
    case (Inl e)
    then show ?thesis by (simp add: x readLoop_c.simps emit_def)
  next
    case (Inr f)
    obtain ty raw where f: "f = (ty, raw)" by fastforce
    obtain c1 stop where d: "dispatchFrame L cb r' ty raw c = (c1, stop)" by fastforce
    show ?thesis
    proof (cases stop)
      case True
      with d have "ty = MsgSessionClosed \<and> (\<exists>reason. last (c_events c1) = Closed reason)"
        by (auto simp: dispatchFrame_def emit_def Let_def split: sum.splits if_splits)
      with True d Inr f x show ?thesis by (auto simp: readLoop_c.simps)
    next
      case False
      with d Inr f x have "readLoop_c L cb ((x # pre) @ (r, None) # rds) c = readLoop_c L cb (pre @ (r, None) # rds) c1"
        by (simp add: readLoop_c.simps)
      with Cons.IH [of c1] show ?thesis by simp blast
    qed
  qed
qed

text \<open>
  C26. Silence is noticed: once nothing has arrived for the deadline, both loops have
  returned. The relay's has told the hub that the participant left, as an unexpected drop that
  keeps the slot if all it had read were well-formed frames; the client's has ended with a
  \<open>Closed\<close> event, and with the reason \<open>connection lost\<close> unless the relay closed the session.
\<close>

theorem silence_detected:
  assumes "start + o_IdleTimeout opts \<le> horizon" and "\<forall>(t, x) \<in> set ups. t + o_IdleTimeout opts \<le> horizon"
    and "start + 20 * second \<le> horizon" and "\<forall>(t, f) \<in> set downs. t + 20 * second \<le> horizon"
    and "map snd rds = client_reads start horizon downs"
  shows "(\<exists>acts u. serve_conn cb pid gen (relay_reads opts start horizon ups) = Some (acts @ [Command (leaveCmd pid gen u)]) \<and>
       ((\<forall>(t, x) \<in> set ups. \<exists>f. readFrame x = Inr f) \<longrightarrow> u)) \<and>
     (\<exists>c' reason. readLoop_c L cb rds c = (c', True) \<and> last (c_events c') = Closed reason \<and>
        (reason \<noteq> ''connection lost'' \<longrightarrow> (\<exists>(t, f) \<in> set downs. \<exists>raw. Decode f = Inr (MsgSessionClosed, raw))))"
proof
  from timed_reads_silent [of ups "o_IdleTimeout opts" horizon start "ReadFailed (-1)"] assms(1,2) obtain pre where
    pre: "relay_reads opts start horizon ups = pre @ [ReadFailed (-1)]" "set pre \<subseteq> snd ` set ups"
    by (auto simp: relay_reads_def)
  have "readFrame (ReadFailed (-1)) = Inl (ErrRead (-1))" by (simp add: readFrame_def)
  from readLoop_ends [OF this, of cb pid pre "[]"] obtain acts u where u: "readLoop cb pid (pre @ [ReadFailed (-1)]) = Some (acts, u)"
    "(\<forall>x \<in> set pre. \<exists>f. readFrame x = Inr f) \<longrightarrow> u = (CloseStatus (ErrRead (-1)) \<noteq> StatusNormalClosure)" by blast
  have "\<forall>x \<in> set pre. \<exists>f. readFrame x = Inr f" if "\<forall>(t, x) \<in> set ups. \<exists>f. readFrame x = Inr f"
    using that pre(2) by fastforce
  with u pre(1)
  show "\<exists>acts u. serve_conn cb pid gen (relay_reads opts start horizon ups) = Some (acts @ [Command (leaveCmd pid gen u)]) \<and>
      ((\<forall>(t, x) \<in> set ups. \<exists>f. readFrame x = Inr f) \<longrightarrow> u)"
    by (simp add: serve_conn_def CloseStatus_def StatusNormalClosure_def)
  have "\<exists>pre. client_reads start horizon downs = pre @ [None] \<and> set pre \<subseteq> Some ` snd ` set downs"
    using timed_reads_silent [of "map (\<lambda>(t, f). (t, Some f)) downs" readTimeout horizon start None] assms(3,4)
    by (auto simp: client_reads_def readTimeout_def image_image case_prod_beta')
  then obtain pre' r where p: "rds = pre' @ [(r, None)]" "snd ` set pre' \<subseteq> Some ` snd ` set downs"
    using assms(5) by (auto simp: map_eq_append_conv)
  have "\<exists>(t, f) \<in> set downs. \<exists>raw. Decode f = Inr (MsgSessionClosed, raw)"
    if "\<exists>(r, rd) \<in> set pre'. \<exists>raw. readFrame_c rd = Inr (MsgSessionClosed, raw)"
  proof -
    from that obtain r' rd raw where x: "(r', rd) \<in> set pre'" "readFrame_c rd = Inr (MsgSessionClosed, raw)" by blast
    then have "rd \<in> Some ` snd ` set downs" using p(2) by force
    then obtain t f where "(t, f) \<in> set downs" "rd = Some f" by auto
    with x(2) show ?thesis by (auto simp: readFrame_c_def split: sum.splits)
  qed
  with readLoop_c_ends [of L cb pre' r "[]" c] p(1)
  show "\<exists>c' reason. readLoop_c L cb rds c = (c', True) \<and> last (c_events c') = Closed reason \<and>
      (reason \<noteq> ''connection lost'' \<longrightarrow> (\<exists>(t, f) \<in> set downs. \<exists>raw. Decode f = Inr (MsgSessionClosed, raw)))"
    by blast
qed

text \<open>A connection that dawdles before its first frame is dropped without an answer.\<close>

lemma hello_late: "now + helloTimeout \<le> t \<Longrightarrow> hello cb opts now k tok (hello_read now (t, rd)) R = (Inl [], R)"
  by (simp add: hello_read_def hello_def readFrame_def)

text \<open>
  Twelve seconds are the exact margin: a pong that comes at once and the next one twelve
  seconds late end the connection, although the pings were never more than eight seconds apart.
\<close>

lemma heartbeat_margin_tight:
  "heard (12 * second) 0 (28 * second) [(8 * second, f), (28 * second, g)] \<and>
   client_reads 0 (28 * second) [(8 * second, f), (28 * second, g)] = [Some f, None]"
proof -
  have "0 + int i * pingInterval + 12 * second \<le> 28 * second \<longleftrightarrow> i \<le> 2" for i :: nat
    by (auto simp: pingInterval_def)
  then have "heard (12 * second) 0 (28 * second) [(8 * second, f), (28 * second, g)]"
    by (auto simp: heard_def pingInterval_def)
  then show ?thesis by (simp add: client_reads_def readTimeout_def)
qed

section \<open>Closed examples\<close>

lemma demo_ping_encodes: "\<exists>f. Encode (cPing demo_codecs) MsgPing \<lparr>ping_Nonce = m\<rparr> = Inr f"
  by (simp add: Encode_def demo_codecs_def f_via_def f_word_def MaxFrame_def)

lemma demo_heard: "heard second 0 (10 * second) [(9 * second, x)]"
proof -
  have "i = 1" if "0 < i" "0 + int i * pingInterval + second \<le> 10 * second" for i :: nat
    using that by (auto simp: pingInterval_def)
  then show ?thesis by (force simp: heard_def pingInterval_def)
qed

theorem heartbeat_keeps_alive_witness:
  "relay_reads (demo_opts\<lparr>o_IdleTimeout := 90 * second\<rparr>) 0 (10 * second) [(9 * second, Binary [1])] = [Binary [1]] \<and>
   client_reads 0 (10 * second) [(9 * second, [2])] = [Some [2]]"
  using heartbeat_keeps_alive [OF demo_codecs_ok demo_ping_encodes demo_heard demo_heard, of "Binary [1]" "[2]"
      "demo_opts\<lparr>o_IdleTimeout := 90 * second\<rparr>" 0 0]
  by simp

theorem silence_detected_witness:
  "\<exists>acts. serve_conn demo_codecs 3 1 (relay_reads (demo_opts\<lparr>o_IdleTimeout := 90 * second\<rparr>) 0 (100 * second) []) =
     Some (acts @ [Command (leaveCmd 3 1 True)])"
  using silence_detected [of 0 "demo_opts\<lparr>o_IdleTimeout := 90 * second\<rparr>" "100 * second" "[]" "[]"
      "[(demo_rand, None)]" demo_codecs 3 1 demo_lib "demo_end 3 3 RoleNone False"]
  by (auto simp: client_reads_def readTimeout_def)

end
