(* ===== verification/Lifecycle.thy ===== *)
theory Lifecycle
  imports Transit KeepAlive
begin

text \<open>
  How a client's connection ends and comes back: \<open>Close\<close>, \<open>CloseNow\<close> and \<open>Reconnect\<close>
  (src/session/client.go) against the relay's read loop, the hub and the opening exchange.
\<close>

section \<open>Resuming\<close>

lemma hello_resume:
  assumes "codecs_ok cb"
    and "Encode (cResumeSession cb) MsgResumeSession \<lparr>rs_SessionID = sid, rs_ParticipantID = p, rs_Token = t\<rparr> = Inr f"
  shows "hello cb opts now k tok (Binary f) R =
     ((case registry_get sid R of
         None \<Rightarrow> Inl (error_frame cb ErrCodeSessionNotFound ''session not found'')
       | Some a \<Rightarrow> Inr (a, resumeCmd k p t)), R)"
proof -
  have "cbor_roundtrip (cResumeSession cb)" using assms(1) by (simp add: codecs_ok_def)
  from hello_decodes [OF this assms(2)] show ?thesis
    by (auto simp: hello_def resume_def split: option.split)
qed

lemma resume_first_answer:
  assumes "codecs_ok cb"
    and "Encode (cResumeSession cb) MsgResumeSession \<lparr>rs_SessionID = sid, rs_ParticipantID = p, rs_Token = t\<rparr> = Inr f"
    and "registry_get sid R = Some a" and "hub_inv (hc_hub (rl_heap R ! a))"
  shows "(\<And>c. find_client (hc_hub (rl_heap R ! a)) p = Some c \<Longrightarrow> cl_token c \<noteq> t) \<Longrightarrow>
      first_answer cb opts now k tok f R = error_frame cb ErrCodeResumeRejected ''cannot resume session''"
    and "find_client (hc_hub (rl_heap R ! a)) p = Some c \<Longrightarrow> cl_token c = t \<Longrightarrow>
      Encode (cJoinResult cb) MsgJoinResult \<lparr>jr_OK = True, jr_Err = '''', jr_ParticipantID = p,
        jr_Peers = peersExcept p (hc_hub (rl_heap R ! a)), jr_HostID = h_host (hc_hub (rl_heap R ! a)), jr_ResumeToken = t\<rparr> = Inr g \<Longrightarrow>
      first_answer cb opts now k tok f R = take 64 (g # (if cl_held c then cl_out c else []))"
proof -
  let ?h = "hc_hub (rl_heap R ! a)"
  note hello = hello_resume [OF assms(1,2), of opts now k tok R]
  show "first_answer cb opts now k tok f R = error_frame cb ErrCodeResumeRejected ''cannot resume session''"
    if "\<And>c. find_client ?h p = Some c \<Longrightarrow> cl_token c \<noteq> t"
  proof -
    have "hub_step cb (resumeCmd k p t) ?h = (handleResume cb k p t ?h, False)"
      "snd (last (h_replies (handleResume cb k p t ?h))) = ResumeReply \<lparr>rrep_ok = False, rrep_errC = ErrCodeResumeRejected,
         rrep_errS = ''cannot resume session'', rrep_gen = 0\<rparr>"
      using that assms(4)
      by (auto simp: hub_step_def handle_cmd_def handleResume_def hub_inv_def reply_def count_error_def Let_def split: option.split)
    then show ?thesis by (simp add: answer_after_def hub_answer_def hello assms(3) resume_reply_def)
  qed
  show "first_answer cb opts now k tok f R = take 64 (g # (if cl_held c then cl_out c else []))"
    if c: "find_client ?h p = Some c" "cl_token c = t" and g: "Encode (cJoinResult cb) MsgJoinResult \<lparr>jr_OK = True, jr_Err = '''',
        jr_ParticipantID = p, jr_Peers = peersExcept p ?h, jr_HostID = h_host ?h, jr_ResumeToken = t\<rparr> = Inr g"
  proof -
    note r = resume_ok [OF assms(4) c(1) g [folded c(2)], of k, unfolded c(2)]
    have "\<exists>gen. snd (last (h_replies (handleResume cb k p t ?h))) =
        ResumeReply \<lparr>rrep_ok = True, rrep_errC = 0, rrep_errS = '''', rrep_gen = gen\<rparr>"
      using c g by (simp add: handleResume_def reply_def Let_def)
    then show ?thesis
      using r(1) r(3) [of p] by (auto simp: answer_after_def hub_answer_def hello assms(3) resume_reply_def resumed_id_def sendBuffer_def)
  qed
qed

text \<open>What a client keeps across a reconnect, and what is buffered for it.\<close>

definition reconnected :: "'p Client \<Rightarrow> 'p Client \<Rightarrow> bool" where
  "reconnected c c' \<longleftrightarrow> c_sid c' = c_sid c \<and> c_self c' = c_self c \<and> c_role c' = c_role c \<and> c_keyed c' = c_keyed c \<and>
     c_groupKey c' = c_groupKey c \<and> c_prevKeys c' = c_prevKeys c \<and> c_pairwise c' = c_pairwise c \<and>
     c_seqs c' = c_seqs c \<and> c_resumeToken c' = c_resumeToken c \<and> c_events c' = []"

definition buffered :: "client \<Rightarrow> bytes list" where
  "buffered d = (if cl_held d then take 63 (cl_out d) else [])"

abbreviation resume_request :: "'p Client \<Rightarrow> ResumeSession" where
  "resume_request c \<equiv> \<lparr>rs_SessionID = c_sid c, rs_ParticipantID = c_self c, rs_Token = c_resumeToken c\<rparr>"

abbreviation resume_result :: "'p Client \<Rightarrow> hub \<Rightarrow> JoinResult" where
  "resume_result c h \<equiv> \<lparr>jr_OK = True, jr_Err = [], jr_ParticipantID = c_self c, jr_Peers = peersExcept (c_self c) h,
     jr_HostID = h_host h, jr_ResumeToken = c_resumeToken c\<rparr>"

lemma Reconnect_reads:
  assumes "dial_url net (c_relayURL c) (c_sid c) = None"
    and "Encode (cResumeSession cb) MsgResumeSession (resume_request c) = Inr f"
  shows "awaitReply cb MsgJoinResult rds = Some (Inl e, rest) \<Longrightarrow> Reconnect cb net [] rds c = Some (Inl e, rest)"
    and "awaitReply cb MsgJoinResult rds = Some (Inr raw, rest) \<Longrightarrow> Body (cJoinResult cb) raw = Inr (resume_result c h) \<Longrightarrow>
      \<exists>c'. Reconnect cb net [] rds c = Some (Inr c', rest) \<and> reconnected c c'"
proof -
  have w: "writeFrame_c (cResumeSession cb) MsgResumeSession (resume_request c) (c\<lparr>c_wok := []\<rparr>) =
      (c\<lparr>c_wok := [], c_sent := c_sent c @ [f]\<rparr>, None)"
    using first_write [of "c\<lparr>c_wok := []\<rparr>", OF _ assms(2)] by simp
  show "awaitReply cb MsgJoinResult rds = Some (Inl e, rest) \<Longrightarrow> Reconnect cb net [] rds c = Some (Inl e, rest)"
    by (simp add: Reconnect_def assms(1) w)
  show "\<exists>c'. Reconnect cb net [] rds c = Some (Inr c', rest) \<and> reconnected c c'"
    if "awaitReply cb MsgJoinResult rds = Some (Inr raw, rest)" "Body (cJoinResult cb) raw = Inr (resume_result c h)"
    using that by (simp add: Reconnect_def assms(1) w reconnected_def)
qed

lemma Reconnect_back:
  assumes "codecs_ok cb" "dial_url net (c_relayURL c) (c_sid c) = None"
    and "Encode (cResumeSession cb) MsgResumeSession (resume_request c) = Inr f"
    and "registry_get (c_sid c) R = Some a" "hub_inv (hc_hub (rl_heap R ! a))"
    and "find_client (hc_hub (rl_heap R ! a)) (c_self c) = Some d" "cl_token d = c_resumeToken c"
    and "Encode (cJoinResult cb) MsgJoinResult (resume_result c (hc_hub (rl_heap R ! a))) = Inr g"
  shows "\<exists>c'. Reconnect cb net [] (map Some (first_answer cb opts now k tok f R) @ rest) c =
     Some (Inr c', map Some (buffered d) @ rest) \<and> reconnected c c'"
proof -
  have ans: "first_answer cb opts now k tok f R = g # buffered d"
    using resume_first_answer(2) [OF assms(1,3,4,5,6,7,8), where opts = opts and now = now and k = k and tok = tok]
    by (simp add: buffered_def)
  have "cbor_roundtrip (cJoinResult cb)" using assms(1) by (simp add: codecs_ok_def)
  from answer_read [OF this assms(8), of cb "map Some (buffered d) @ rest"] obtain raw where
    "awaitReply cb MsgJoinResult (map Some (first_answer cb opts now k tok f R) @ rest) = Some (Inr raw, map Some (buffered d) @ rest)"
    "Body (cJoinResult cb) raw = Inr (resume_result c (hc_hub (rl_heap R ! a)))" by (auto simp: ans)
  with Reconnect_reads(2) [OF assms(2,3)] show ?thesis by blast
qed

lemma Reconnect_rejected:
  assumes "codecs_ok cb" "errors_encode cb" "dial_url net (c_relayURL c) (c_sid c) = None"
    and "Encode (cResumeSession cb) MsgResumeSession (resume_request c) = Inr f"
    and "registry_get (c_sid c) R = Some a" "hub_inv (hc_hub (rl_heap R ! a))"
    and "\<And>d. find_client (hc_hub (rl_heap R ! a)) (c_self c) = Some d \<Longrightarrow> cl_token d \<noteq> c_resumeToken c"
  shows "Reconnect cb net [] (map Some (first_answer cb opts now k tok f R) @ rest) c =
     Some (Inl (RelayRefused ErrCodeResumeRejected ''cannot resume session''), rest)"
proof -
  have "first_answer cb opts now k tok f R = error_frame cb ErrCodeResumeRejected ''cannot resume session''"
    by (rule resume_first_answer(1) [OF assms(1,4,5,6,7)])
  then show ?thesis
    using refusal_read [OF assms(1,2), of "''cannot resume session''" MsgJoinResult ErrCodeResumeRejected rest]
    by (intro Reconnect_reads(1) [OF assms(3,4)]) simp
qed

text \<open>
  C10. A reconnect ends the way the relay's state says. Without such a session the client gets an
  error that is \<open>ErrSessionNotFound\<close>; if its slot is gone or has another token, one with the
  resume-rejected code. Otherwise the client is back with the id, role, keys and sequence
  numbers it had and a fresh event stream, and what is left for its read loop is
  exactly what the relay had buffered while the slot was held, up to the 63 frames that fit
  behind the answer.
\<close>

theorem reconnect_outcomes:
  assumes "codecs_ok cb" "errors_encode cb" "dial_url net (c_relayURL c) (c_sid c) = None"
    and "Encode (cResumeSession cb) MsgResumeSession (resume_request c) = Inr f"
    and rds_def: "rds = map Some (first_answer cb opts now k tok f R) @ rest"
  shows "(registry_get (c_sid c) R = None \<longrightarrow>
       (\<exists>e. Reconnect cb net [] rds c = Some (Inl e, rest) \<and> errors_Is e ErrSessionNotFound)) \<and>
     (\<forall>a h. registry_get (c_sid c) R = Some a \<longrightarrow> h = hc_hub (rl_heap R ! a) \<longrightarrow> hub_inv h \<longrightarrow>
        ((\<forall>d. find_client h (c_self c) = Some d \<longrightarrow> cl_token d \<noteq> c_resumeToken c) \<longrightarrow>
           Reconnect cb net [] rds c = Some (Inl (RelayRefused ErrCodeResumeRejected ''cannot resume session''), rest)) \<and>
        (\<forall>d g. find_client h (c_self c) = Some d \<longrightarrow> cl_token d = c_resumeToken c \<longrightarrow>
           Encode (cJoinResult cb) MsgJoinResult (resume_result c h) = Inr g \<longrightarrow>
           (\<exists>c'. Reconnect cb net [] rds c = Some (Inr c', map Some (buffered d) @ rest) \<and> reconnected c c')))"
proof (intro conjI impI allI)
  note refuse = refusal_read [OF assms(1,2), where want = MsgJoinResult and rest = rest]
    and reads = Reconnect_reads(1) [OF assms(3,4)]
  show "\<exists>e. Reconnect cb net [] rds c = Some (Inl e, rest) \<and> errors_Is e ErrSessionNotFound" if "registry_get (c_sid c) R = None"
    using that reads [of rds _ rest] refuse [of "''session not found''" ErrCodeSessionNotFound]
      hello_resume [OF assms(1,4), of opts now k tok R]
    by (simp add: rds_def answer_after_def hub_answer_def errors_Is_def RelayError_Is_def)
  fix a h
  assume a: "registry_get (c_sid c) R = Some a" and h: "h = hc_hub (rl_heap R ! a)" and inv: "hub_inv h"
  show "Reconnect cb net [] rds c = Some (Inl (RelayRefused ErrCodeResumeRejected ''cannot resume session''), rest)"
    if "\<forall>d. find_client h (c_self c) = Some d \<longrightarrow> cl_token d \<noteq> c_resumeToken c"
    unfolding rds_def using that inv by (intro Reconnect_rejected [OF assms(1-4) a]) (simp_all add: h)
  show "\<exists>c'. Reconnect cb net [] rds c = Some (Inr c', map Some (buffered d) @ rest) \<and> reconnected c c'"
    if "find_client h (c_self c) = Some d" "cl_token d = c_resumeToken c" "Encode (cJoinResult cb) MsgJoinResult (resume_result c h) = Inr g" for d g
    unfolding rds_def using that by (intro Reconnect_back [OF assms(1,3,4) a]) (simp_all add: inv h [symmetric])
qed

section \<open>The two ways to close\<close>

text \<open>
  How a connection ends on the client's side: with a close frame or by dropping it. What the
  relay's next read returns then is up to the websocket library (\<open>ends\<close>): the code of a close frame
  is reported, and a dropped connection is no close frame.
\<close>

datatype conn_end = CloseFrame int | Dropped

definition Client_Close :: conn_end where "Client_Close = CloseFrame StatusNormalClosure"

definition Client_CloseNow :: conn_end where "Client_CloseNow = Dropped"

definition ws_ok :: "(conn_end \<Rightarrow> ws_read) \<Rightarrow> bool" where
  "ws_ok ends \<longleftrightarrow> (\<forall>code. ends (CloseFrame code) = ReadFailed code) \<and>
     (\<exists>st. ends Dropped = ReadFailed st \<and> st \<noteq> StatusNormalClosure)"

lemma serve_conn_end:
  assumes "ws_ok ends" and "\<forall>x \<in> set rds. \<exists>f. readFrame x = Inr f" and "e = Client_Close \<or> e = Client_CloseNow"
  shows "\<exists>acts. serve_conn cb p g (rds @ [ends e]) = Some (acts @ [Command (leaveCmd p g (e = Client_CloseNow))])"
proof -
  obtain st where st: "ends e = ReadFailed st" "(st \<noteq> StatusNormalClosure) = (e = Client_CloseNow)"
    using assms(1,3) by (auto simp: ws_ok_def Client_Close_def Client_CloseNow_def)
  have rf: "readFrame (ends e) = Inl (ErrRead st)" by (simp add: st readFrame_def)
  from readLoop_ends [OF rf, of cb p rds "[]"] assms(2) obtain acts u where
    "readLoop cb p (rds @ [ends e]) = Some (acts, u)" "u = (CloseStatus (ErrRead st) \<noteq> StatusNormalClosure)" by blast
  with st(2) show ?thesis by (auto simp: serve_conn_def CloseStatus_def)
qed

lemma leave_step:
  assumes "hub_inv h" "find_client h p = Some d" "\<not> cl_held d" "find_client h q \<noteq> None" "q \<noteq> p" "find_client h 0 = None"
    and "\<forall>k e. find_client h k = Some e \<longrightarrow> length (cl_out e) < sendBuffer"
    and "Encode (cParticipantLeft cb) MsgParticipantLeft \<lparr>pl_ParticipantID = p\<rparr> = Inr bye"
  shows "\<exists>h'. hub_step cb (leaveCmd p (cl_gen d) False) h = (h', False) \<and>
     (\<forall>k. find_client h' k = (if k = p then None
        else map_option (\<lambda>e. e\<lparr>cl_out := cl_out e @ [bye]\<rparr>) (find_client h k)))"
proof -
  let ?h = "h\<lparr>h_clients := AList.delete p (h_clients h), h_kicks := h_kicks h @ [cl_kick d]\<rparr>"
  let ?h' = "broadcastFrame (cParticipantLeft cb) MsgParticipantLeft \<lparr>pl_ParticipantID = p\<rparr> 0 ?h"
  have wf: "wf_map (h_clients ?h)" using hub_wf_map [OF hub_inv_wf [OF assms(1)]] by simp
  have fnd: "find_client ?h k = (if k = p then None else find_client h k)" for k by simp
  have "map_of (AList.delete p (h_clients h)) q \<noteq> None" using assms(4,5) by simp
  then have "AList.delete p (h_clients h) \<noteq> []" by (metis map_of.simps(1))
  then have "handle_cmd cb (leaveCmd p (cl_gen d) False) h = (?h', False)"
    using assms(2,3) by (simp add: handle_cmd_def handleLeave_def removeParticipant_def)
  moreover have "h_evict ?h' = []"
    using wf assms(1,7) by (intro no_overflow_fan_out) (auto simp: fnd hub_inv_def split: if_splits)
  moreover have "offer bye e = e\<lparr>cl_out := cl_out e @ [bye]\<rparr>" if "find_client h k = Some e" for k e
    using assms(7) that hub_inv_not_evicting [OF assms(1) that] by (simp add: offer_def)
  then have "find_client ?h' k = (if k = p then None else map_option (\<lambda>e. e\<lparr>cl_out := cl_out e @ [bye]\<rparr>) (find_client h k))" for k
    using assms(2,6) by (cases "k = 0"; cases "find_client h k") (auto simp: find_broadcastFrame [OF wf] fnd assms(8))
  ultimately show ?thesis using hub_step_quiet by blast
qed

text \<open>
  C20. \<open>Close\<close> leaves for good: whatever was read before, the relay tells the hub that the
  participant left cleanly; the hub removes the slot, grace or not, and sends every other participant
  one notice; and from then on the relay rejects a reconnect of that client.
\<close>

theorem close_leaves_for_good:
  assumes "codecs_ok cb" "errors_encode cb" "ws_ok ends" and "\<forall>x \<in> set rds. \<exists>f. readFrame x = Inr f"
    and "hub_inv h" "find_client h (c_self c) = Some d" "\<not> cl_held d"
    and "find_client h q \<noteq> None" "q \<noteq> c_self c" "find_client h 0 = None"
    and "\<forall>k e. find_client h k = Some e \<longrightarrow> length (cl_out e) < 64"
    and "Encode (cParticipantLeft cb) MsgParticipantLeft \<lparr>pl_ParticipantID = c_self c\<rparr> = Inr bye"
    and "dial_url net (c_relayURL c) (c_sid c) = None"
    and "Encode (cResumeSession cb) MsgResumeSession (resume_request c) = Inr f"
  shows "\<exists>acts h'. serve_conn cb (c_self c) (cl_gen d) (rds @ [ends Client_Close]) =
       Some (acts @ [Command (leaveCmd (c_self c) (cl_gen d) False)]) \<and>
     hub_step cb (leaveCmd (c_self c) (cl_gen d) False) h = (h', False) \<and>
     (\<forall>k. find_client h' k = (if k = c_self c then None
        else map_option (\<lambda>e. e\<lparr>cl_out := cl_out e @ [bye]\<rparr>) (find_client h k))) \<and>
     (\<forall>R a rest. registry_get (c_sid c) R = Some a \<longrightarrow> hc_hub (rl_heap R ! a) = h' \<longrightarrow>
        Reconnect cb net [] (map Some (first_answer cb opts now k tok f R) @ rest) c =
          Some (Inl (RelayRefused ErrCodeResumeRejected ''cannot resume session''), rest))"
proof -
  obtain acts where acts: "serve_conn cb (c_self c) (cl_gen d) (rds @ [ends Client_Close]) =
      Some (acts @ [Command (leaveCmd (c_self c) (cl_gen d) False)])"
    using serve_conn_end [OF assms(3,4), of Client_Close cb] by (auto simp: Client_Close_def Client_CloseNow_def)
  have room: "\<forall>k e. find_client h k = Some e \<longrightarrow> length (cl_out e) < sendBuffer"
    using assms(11) by (simp add: sendBuffer_def)
  from leave_step [OF assms(5-10) room assms(12)] obtain h' where
    h': "hub_step cb (leaveCmd (c_self c) (cl_gen d) False) h = (h', False)"
      "\<forall>k. find_client h' k = (if k = c_self c then None
        else map_option (\<lambda>e. e\<lparr>cl_out := cl_out e @ [bye]\<rparr>) (find_client h k))" by blast
  have inv: "hub_inv h'" using hub_step_wf [OF assms(5) h'(1)] by simp
  have "Reconnect cb net [] (map Some (first_answer cb opts now k tok f R) @ rest) c =
      Some (Inl (RelayRefused ErrCodeResumeRejected ''cannot resume session''), rest)"
    if "registry_get (c_sid c) R = Some a" "hc_hub (rl_heap R ! a) = h'" for R a rest
    using Reconnect_rejected [OF assms(1,2,13,14) that(1)] that(2) inv h'(2) by simp
  with acts h' show ?thesis by blast
qed

section \<open>Away and back\<close>

text \<open>A client that broadcasts a list of messages, and the frames it writes.\<close>

type_synonym message = "bytes \<times> string \<times> bytes"

fun broadcast_all :: "'p cryptolib \<Rightarrow> codecs \<Rightarrow> message list \<Rightarrow> 'p Client \<Rightarrow> ('p Client \<times> bytes list) option" where
  "broadcast_all L cb [] a = Some (a, [])"
| "broadcast_all L cb ((n, svc, body) # ms) a =
     (case Broadcast_c L cb n svc body a of
        (a1, None) \<Rightarrow> map_option (\<lambda>(a', fs). (a', last (c_sent a1) # fs)) (broadcast_all L cb ms a1)
      | (_, Some _) \<Rightarrow> None)"

text \<open>The events these messages are at another end.\<close>

fun sent_events :: "ParticipantID \<Rightarrow> (string \<Rightarrow> uint64) \<Rightarrow> message list \<Rightarrow> Event list" where
  "sent_events p seqs [] = []"
| "sent_events p seqs ((n, svc, body) # ms) =
     Frame p \<lparr>env_ServiceID = svc, env_Seq = seqs svc + 1, env_Body = body\<rparr> #
       sent_events p (seqs(svc := seqs svc + 1)) ms"

text \<open>\<open>data\<close> is what the relay makes of the broadcast frame \<open>f\<close> of participant \<open>p\<close>.\<close>

definition stamped :: "codecs \<Rightarrow> ParticipantID \<Rightarrow> bytes \<Rightarrow> bytes \<Rightarrow> bool" where
  "stamped cb p f data \<longleftrightarrow> (\<exists>raw b. Decode f = Inr (MsgBroadcast, raw) \<and> Body (cBroadcast cb) raw = Inr b \<and>
     Encode (cBroadcast cb) MsgBroadcast (b\<lparr>b_From := p\<rparr>) = Inr data)"

lemma stamped_delivers: "codecs_ok cb \<Longrightarrow> stamped cb p f data \<Longrightarrow> q \<noteq> p \<Longrightarrow> delivers cb p q f data"
proof -
  assume ok: "codecs_ok cb" and s: "stamped cb p f data" and q: "q \<noteq> p"
  have "cbor_roundtrip (cBroadcast cb)" using ok by (simp add: codecs_ok_def)
  with s q show ?thesis by (fastforce simp: stamped_def delivers_def forwarded_def dest: Encode_decodes)
qed

lemma arrives_all:
  assumes "list_all2 (stamped cb q) frames datas" and "hub_inv h"
    and "\<forall>k c. find_client h k = Some c \<longrightarrow> length (cl_out c) + length datas \<le> sendBuffer"
  shows "let h' = fold (frame_arrives cb q) frames h
     in hub_inv h' \<and> map fst (h_clients h') = map fst (h_clients h) \<and> h_host h' = h_host h \<and>
        (\<forall>k. find_client h' k = (if k = q then find_client h k
           else map_option (\<lambda>c. c\<lparr>cl_out := cl_out c @ datas\<rparr>) (find_client h k)))"
  using assms
proof (induction arbitrary: h rule: list_all2_induct)
  case Nil
  then show ?case by (simp add: option.map_ident)
next
  case (Cons f frames d datas)
  from Cons(1) obtain raw b where b: "Decode f = Inr (MsgBroadcast, raw)" "Body (cBroadcast cb) raw = Inr b"
    "Encode (cBroadcast cb) MsgBroadcast (b\<lparr>b_From := q\<rparr>) = Inr d" by (auto simp: stamped_def)
  let ?h = "route cb q MsgBroadcast raw h"
  have room: "length (cl_out c) < sendBuffer" if "find_client h k = Some c" for k c
    using Cons.prems(2) that by fastforce
  note step = broadcast_step [OF Cons.prems(1) room b(2,3)]
  have inv: "hub_inv ?h" using hub_step_wf [OF Cons.prems(1) step(1)] by simp
  have fa: "frame_arrives cb q f h = ?h" using frame_arrives_routed [OF b(1) _ step(1)] by simp
  have "\<forall>k c. find_client ?h k = Some c \<longrightarrow> length (cl_out c) + length datas \<le> sendBuffer"
    using Cons.prems(2) by (fastforce simp: step(2) split: if_splits)
  from Cons.IH [OF inv this] map_fst_route_broadcast [OF hub_wf_map [OF hub_inv_wf [OF Cons.prems(1)]] b(2), of q]
  show ?case by (simp add: Let_def fa step(2) option.map_comp comp_def)
qed

lemma Broadcast_c_keeps:
  "Broadcast_c L cb n svc body a = (a', None) \<Longrightarrow> c_self a' = c_self a \<and> c_groupKey a' = c_groupKey a \<and>
     c_sid a' = c_sid a \<and> c_seqs a' = (c_seqs a)(svc := c_seqs a svc + 1)"
  by (auto simp: Broadcast_c_def split: prod.splits sum.splits dest!: seal_Inr writeFrame_c_None)

lemma readLoop_c_step:
  "readLoop_c L cb [x] b = (b', False) \<Longrightarrow> readLoop_c L cb (x # rds) b = readLoop_c L cb rds b'"
  by (cases x) (auto simp: readLoop_c.simps split: sum.splits prod.splits bool.splits)

lemma read_all:
  assumes "lib_ok L" "codecs_ok cb" "c_self b \<noteq> c_self a" "c_sid b = c_sid a" "c_keyed b"
    and "c_groupKey a \<in> set (c_groupKey b # c_prevKeys b)"
    and "client_inv a" "client_inv b" "broadcast_all L cb ms a = Some (a', frames)"
    and "list_all2 (stamped cb (c_self a)) frames datas"
  shows "readLoop_c L cb (map (\<lambda>d. (r, Some d)) datas) b =
     (b\<lparr>c_events := c_events b @ sent_events (c_self a) (c_seqs a) ms\<rparr>, False)"
  using assms(3-)
proof (induction ms arbitrary: a b frames datas)
  case (Cons m ms)
  obtain n svc body where m: "m = (n, svc, body)" by (cases m)
  from Cons.prems(7) m obtain a1 fs where
    a1: "Broadcast_c L cb n svc body a = (a1, None)" "broadcast_all L cb ms a1 = Some (a', fs)" "frames = last (c_sent a1) # fs"
    by (auto split: prod.splits option.splits)
  with Cons.prems(8) obtain d ds where
    d: "datas = d # ds" "stamped cb (c_self a) (last (c_sent a1)) d" "list_all2 (stamped cb (c_self a)) fs ds"
    by (auto simp: list_all2_Cons1)
  let ?b = "emit (Frame (c_self a) \<lparr>env_ServiceID = svc, env_Seq = c_seqs a svc + 1, env_Body = body\<rparr>) b"
  note k = Broadcast_c_keeps [OF a1(1)]
  have one: "readLoop_c L cb [(r, Some d)] b = (?b, False)"
    using end_to_end_Broadcast [OF assms(1,2) Cons.prems(5,6,2,3) a1(1) stamped_delivers [OF assms(2) d(2)], of r]
      Cons.prems(1,4) by auto
  have "client_inv a1" using inv_Broadcast_c [OF Cons.prems(5)] a1(1) by (metis fst_conv)
  moreover have "client_inv ?b" using Cons.prems(6) by simp
  ultimately
  have "readLoop_c L cb (map (\<lambda>d. (r, Some d)) ds) ?b =
      (?b\<lparr>c_events := c_events ?b @ sent_events (c_self a) (c_seqs a1) ms\<rparr>, False)"
    using Cons.IH [of ?b a1 fs ds] Cons.prems k a1(2) d(3) by (simp add: emit_def fun_upd_def)
  moreover have "readLoop_c L cb (map (\<lambda>d. (r, Some d)) datas) b = readLoop_c L cb (map (\<lambda>d. (r, Some d)) ds) ?b"
    using readLoop_c_step [OF one] by (simp add: d(1))
  ultimately show ?case using k by (simp add: m emit_def)
qed simp

lemma held_and_filled:
  assumes "hub_inv h" "find_client h p = Some d" "\<not> cl_held d" "0 < h_grace h" "q \<noteq> p"
    and "list_all2 (stamped cb q) frames datas" "length datas \<le> sendBuffer"
    and "\<forall>k e. find_client h k = Some e \<longrightarrow> length (cl_out e) + length datas \<le> sendBuffer"
  shows "let h' = fold (frame_arrives cb q) frames (holdSlot d h)
     in hub_step cb (leaveCmd p (cl_gen d) True) h = (holdSlot d h, False) \<and> hub_inv h' \<and>
        peersExcept p h' = peersExcept p h \<and> h_host h' = h_host h \<and>
        find_client h' p = Some (d\<lparr>cl_held := True, cl_gen := cl_gen d + 1, cl_out := datas, cl_timer := Some (cl_gen d + 1)\<rparr>)"
proof -
  let ?h = "holdSlot d h"
  have s: "hub_step cb (leaveCmd p (cl_gen d) True) h = (?h, False)" using assms(1-4) by (rule leave_unexpected)
  have inv: "hub_inv ?h" using hub_step_wf [OF assms(1) s] by simp
  have p: "cl_id d = p" using hub_inv_client [OF assms(1,2)] by (simp add: client_wf_def)
  have "\<forall>k e. find_client ?h k = Some e \<longrightarrow> length (cl_out e) + length datas \<le> sendBuffer"
    using assms(7,8) by (auto simp: find_holdSlot [OF p] split: if_splits)
  note all = arrives_all [OF assms(6) inv this, unfolded Let_def]
  have "map fst (h_clients ?h) = map fst (h_clients h)" "h_host ?h = h_host h"
    using alist_update_eq_map [OF hub_wf_map [OF hub_inv_wf [OF assms(1)]] assms(2)] p
    by (simp_all add: holdSlot_def set_client_def case_prod_unfold)
  with all s assms(5) show ?thesis by (simp add: Let_def peersExcept_def find_holdSlot [OF p])
qed

section \<open>Closed examples\<close>

definition demo_ends :: "conn_end \<Rightarrow> ws_read" where
  "demo_ends e = (case e of CloseFrame code \<Rightarrow> ReadFailed code | Dropped \<Rightarrow> ReadFailed (-1))"

lemma demo_ends_ok: "ws_ok demo_ends"
  by (simp add: ws_ok_def demo_ends_def StatusNormalClosure_def)

text \<open>A keyed end with the token of its slot in the demonstration hub.\<close>

definition demo_member :: "ParticipantID \<Rightarrow> bytes \<Rightarrow> (bytes \<times> nat) Client" where
  "demo_member p token = (demo_end p 1 RoleMember True)\<lparr>c_resumeToken := token\<rparr>"

lemma demo_member_simps [simp]:
  "c_self (demo_member p t) = p" "c_sid (demo_member p t) = replicate 16 0" "c_resumeToken (demo_member p t) = t"
  "c_relayURL (demo_member p t) = []" "c_keyed (demo_member p t)" "c_groupKey (demo_member p t) = replicate 32 7"
  by (simp_all add: demo_member_def demo_end_def)

lemma demo_member_inv: "client_inv (demo_member p t)"
  using demo_end_inv [of p 1 RoleMember True] by (simp add: demo_member_def client_inv_def)

lemma demo_resume_encodes:
  "length t \<le> 100 \<Longrightarrow> \<exists>f. Encode (cResumeSession demo_codecs) MsgResumeSession
     \<lparr>rs_SessionID = replicate 16 0, rs_ParticipantID = p, rs_Token = t\<rparr> = Inr f"
  by (simp add: Encode_def demo_codecs_def f_via_def f_pair_def f_word_def f_bytes_def MaxFrame_def)

definition demo_at :: "hub \<Rightarrow> relay" where
  "demo_at h = \<lparr>rl_reg = (newRegistry 5 0 0)\<lparr>rg_sessions := [(replicate 16 0, 0)]\<rparr>,
     rl_heap = [\<lparr>hc_hub = h, hc_inbox = [], hc_gone = False\<rparr>], rl_metrics = zero_Metrics\<rparr>"

lemma demo_at_simps [simp]: "registry_get (replicate 16 0) (demo_at h) = Some 0" "hc_hub (rl_heap (demo_at h) ! 0) = h"
  by (simp_all add: demo_at_def registry_get_def)

theorem reconnect_outcomes_witness:
  "\<exists>f c'. Reconnect demo_codecs demo_net [] (map Some (first_answer demo_codecs demo_opts 0 40 [] f (demo_at demo_hub)))
     (demo_member 3 [9]) = Some (Inr c', [Some [5], Some [6]])"
proof -
  let ?c = "demo_member 3 [9]"
  obtain f where f: "Encode (cResumeSession demo_codecs) MsgResumeSession (resume_request ?c) = Inr f"
    using demo_resume_encodes [of "[9]" 3] by auto
  obtain g where g: "Encode (cJoinResult demo_codecs) MsgJoinResult (resume_result ?c demo_hub) = Inr g"
    using demo_encode_JoinResult [of "peersExcept 3 demo_hub" "[9]"] by fastforce
  have dial: "dial_url demo_net (c_relayURL ?c) (c_sid ?c) = None" by (simp add: demo_dial)
  note out = reconnect_outcomes [OF demo_codecs_ok demo_errors_encode dial f refl, where opts = demo_opts and now = 0 and
      k = 40 and tok = "[]" and R = "demo_at demo_hub" and rest = "[]", THEN conjunct2, THEN spec [where x = 0],
      THEN spec [where x = demo_hub], simplified, THEN mp, OF demo_hub_inv]
  from out g have "\<exists>c'. Reconnect demo_codecs demo_net [] (map Some (first_answer demo_codecs demo_opts 0 40 [] f (demo_at demo_hub))) ?c =
      Some (Inr c', map Some (buffered demo_held))" by auto
  then show ?thesis by (auto simp: buffered_def)
qed

theorem close_leaves_for_good_witness:
  "\<exists>acts h'. serve_conn demo_codecs 2 1 [demo_ends Client_Close] = Some (acts @ [Command (leaveCmd 2 1 False)]) \<and>
     hub_step demo_codecs (leaveCmd 2 1 False) demo_hub = (h', False) \<and> find_client h' 2 = None"
proof -
  let ?c = "demo_member 2 [8]"
  obtain f where f: "Encode (cResumeSession demo_codecs) MsgResumeSession (resume_request ?c) = Inr f"
    using demo_resume_encodes [of "[8]" 2] by auto
  obtain bye where bye: "Encode (cParticipantLeft demo_codecs) MsgParticipantLeft \<lparr>pl_ParticipantID = c_self ?c\<rparr> = Inr bye"
    using demo_encodes(1) by blast
  have dial: "dial_url demo_net (c_relayURL ?c) (c_sid ?c) = None" by (simp add: demo_dial)
  have d: "find_client demo_hub (c_self ?c) = Some (demo_client 2 20 [8])" "find_client demo_hub 1 \<noteq> None" "find_client demo_hub 0 = None"
    by (simp_all add: demo_hub_def)
  have room: "\<forall>k e. find_client demo_hub k = Some e \<longrightarrow> length (cl_out e) < 64" by (auto dest!: demo_room)
  have rds: "\<forall>x \<in> set []. \<exists>f. readFrame x = Inr f" by simp
  have "\<not> cl_held (demo_client 2 20 [8])" "1 \<noteq> c_self ?c" by simp_all
  from close_leaves_for_good [OF demo_codecs_ok demo_errors_encode demo_ends_ok rds demo_hub_inv d(1) this(1) d(2) this(2) d(3) room bye dial f,
      where opts = demo_opts and now = 0 and k = 40 and tok = "[]"]
  obtain acts h' where "serve_conn demo_codecs (c_self ?c) (cl_gen (demo_client 2 20 [8])) ([] @ [demo_ends Client_Close]) =
      Some (acts @ [Command (leaveCmd (c_self ?c) (cl_gen (demo_client 2 20 [8])) False)])"
    "hub_step demo_codecs (leaveCmd (c_self ?c) (cl_gen (demo_client 2 20 [8])) False) demo_hub = (h', False)"
    "\<forall>k. find_client h' k = (if k = c_self ?c then None
        else map_option (\<lambda>e. e\<lparr>cl_out := cl_out e @ [bye]\<rparr>) (find_client demo_hub k))" by (elim exE conjE)
  then show ?thesis by auto
qed

end
