(* ===== verification/Service.thy ===== *)
theory Service
  imports SessionProps
begin

text \<open>
  The interfaces of the service layer (src/service/service.go, base.go and the types of mux.go
  and ctl.go). A Go interface is a record of its methods over the state of whatever implements
  it: \<open>conn_ops\<close> is Conn with the optional Promoter, \<open>service_ops\<close> is Service with the optional
  MemberObserver and Promotable. What a service does to the outside goes through \<open>io\<close>: the
  connection and the merged event stream. Maps that the code iterates over are association
  lists, whose order stands for the iteration order.
\<close>

section \<open>Connections\<close>

record 'c promoter_ops =
  pr_BecomeHost :: "'c \<Rightarrow> 'c"
  pr_SetHostID :: "ParticipantID \<Rightarrow> 'c \<Rightarrow> 'c"
  pr_ClaimHost :: "'c \<Rightarrow> 'c \<times> session_error option"
  pr_RotateForMigration :: "'c \<Rightarrow> 'c"
  pr_RekeyWithNewHost :: "'c \<Rightarrow> 'c \<times> session_error option"

record 'c conn_ops =
  cn_Broadcast :: "string \<Rightarrow> bytes \<Rightarrow> 'c \<Rightarrow> 'c \<times> session_error option"
  cn_SendTo :: "ParticipantID \<Rightarrow> string \<Rightarrow> bytes \<Rightarrow> 'c \<Rightarrow> 'c \<times> session_error option"
  cn_Self :: "'c \<Rightarrow> ParticipantID"
  cn_HostID :: "'c \<Rightarrow> ParticipantID"
  cn_Role :: "'c \<Rightarrow> Role"
  cn_Promoter :: "'c promoter_ops option"

section \<open>Contexts\<close>

record Context =
  cx_Self :: ParticipantID
  cx_HostID :: ParticipantID
  cx_Host :: bool

definition zero_Context :: Context where
  "zero_Context = \<lparr>cx_Self = 0, cx_HostID = 0, cx_Host = False\<rparr>"

text \<open>The context a mux derives from its connection.\<close>

definition conn_context :: "'c conn_ops \<Rightarrow> 'c \<Rightarrow> Context" where
  "conn_context C c = \<lparr>cx_Self = cn_Self C c, cx_HostID = cn_HostID C c, cx_Host = (cn_Role C c = RoleHost)\<rparr>"

type_synonym Base = "Context option"

definition SetContext :: "Context \<Rightarrow> Base \<Rightarrow> Base" where
  "SetContext ctx b = Some ctx"

definition Ctx :: "Base \<Rightarrow> Context" where
  "Ctx b = (case b of Some p \<Rightarrow> p | None \<Rightarrow> zero_Context)"

section \<open>Events\<close>

record ServiceInfo =
  si_ID :: string
  si_Version :: int

record Roster =
  ro_Members :: "(ParticipantID \<times> Role) list"
  ro_Names :: "(ParticipantID \<times> runes) list"
  ro_Endpoints :: "(ParticipantID \<times> string) list"
  ro_PushKey :: string
  ro_Services :: "ServiceInfo list"

datatype svc_error =
    BadBody wire_error
  | AnnounceFromNonHost ParticipantID
  | SnapshotFromNonHost ParticipantID
  | RestoreFailed string svc_error
  | SnapshotFailed string svc_error
  | EncodingFailed
  | SendFailed session_error
  | TooLong
  | OversizedFrom ParticipantID
  | NotAttached
  | RandFailed

datatype mux_event =
    Desync ParticipantID string uint64 uint64
  | ServiceError ParticipantID string svc_error
  | SessionEvent Event
  | Promoted ParticipantID
  | RosterEvent Roster
  | Message ParticipantID runes

section \<open>Services\<close>

record 'c io =
  io_client :: 'c
  io_events :: "mux_event list"
  io_closed :: bool

text \<open>\<open>emit\<close> as one step; its interleaving with shutdown is in MuxClose.\<close>

definition emit_m :: "mux_event \<Rightarrow> 'c io \<Rightarrow> 'c io" where
  "emit_m e w = (if io_closed w then w else w\<lparr>io_events := io_events w @ [e]\<rparr>)"

definition io_Broadcast :: "'c conn_ops \<Rightarrow> string \<Rightarrow> bytes \<Rightarrow> 'c io \<Rightarrow> 'c io \<times> session_error option" where
  "io_Broadcast C sid body w =
     (case cn_Broadcast C sid body (io_client w) of (c, e) \<Rightarrow> (w\<lparr>io_client := c\<rparr>, e))"

definition io_SendTo :: "'c conn_ops \<Rightarrow> ParticipantID \<Rightarrow> string \<Rightarrow> bytes \<Rightarrow> 'c io \<Rightarrow> 'c io \<times> session_error option" where
  "io_SendTo C to sid body w =
     (case cn_SendTo C to sid body (io_client w) of (c, e) \<Rightarrow> (w\<lparr>io_client := c\<rparr>, e))"

record ('c, 's) service_ops =
  so_ID :: string
  so_Version :: int
  so_Attach :: "Context \<Rightarrow> 's \<Rightarrow> 's"
  so_HandleFrame :: "ParticipantID \<Rightarrow> bytes \<Rightarrow> 's \<Rightarrow> 'c io \<Rightarrow> 's \<times> 'c io \<times> svc_error option"
  so_Snapshot :: "'s \<Rightarrow> svc_error + bytes"
  so_Restore :: "bytes \<Rightarrow> 's \<Rightarrow> 'c io \<Rightarrow> 's \<times> 'c io \<times> svc_error option"
  so_MemberObserver :: "((ParticipantID \<Rightarrow> Role \<Rightarrow> 's \<Rightarrow> 'c io \<Rightarrow> 's \<times> 'c io) \<times>
                         (ParticipantID \<Rightarrow> 's \<Rightarrow> 'c io \<Rightarrow> 's \<times> 'c io)) option"
  so_OnPromote :: "('s \<Rightarrow> 'c io \<Rightarrow> 's \<times> 'c io) option"

section \<open>The session client as a connection\<close>

text \<open>
  The mux drives a session client together with a supply of random bytes, of which every send
  and every key change takes the next.
\<close>

type_synonym 'p live = "'p Client \<times> nat"

definition client_promoter :: "'p cryptolib \<Rightarrow> codecs \<Rightarrow> (nat \<Rightarrow> rand) \<Rightarrow> 'p live promoter_ops" where
  "client_promoter L cb rs =
     \<lparr>pr_BecomeHost = (\<lambda>(c, i). (BecomeHost c, i)),
      pr_SetHostID = (\<lambda>p (c, i). (SetHostID p c, i)),
      pr_ClaimHost = (\<lambda>(c, i). case ClaimHost cb c of (c', e) \<Rightarrow> ((c', i), e)),
      pr_RotateForMigration = (\<lambda>(c, i). (RotateForMigration (rs i) c, i + 1)),
      pr_RekeyWithNewHost = (\<lambda>(c, i). case RekeyWithNewHost L cb (rs i) c of (c', e) \<Rightarrow> ((c', i + 1), e))\<rparr>"

definition client_conn :: "'p cryptolib \<Rightarrow> codecs \<Rightarrow> (nat \<Rightarrow> rand) \<Rightarrow> 'p live conn_ops" where
  "client_conn L cb rs =
     \<lparr>cn_Broadcast = (\<lambda>sid body (c, i).
        case Broadcast_c L cb (r_nonce (rs i) 0) sid body c of (c', e) \<Rightarrow> ((c', i + 1), e)),
      cn_SendTo = (\<lambda>to sid body (c, i).
        case SendTo L cb (r_nonce (rs i) to) to sid body c of (c', e) \<Rightarrow> ((c', i + 1), e)),
      cn_Self = (\<lambda>(c, i). c_self c), cn_HostID = (\<lambda>(c, i). c_hostID c), cn_Role = (\<lambda>(c, i). c_role c),
      cn_Promoter = Some (client_promoter L cb rs)\<rparr>"

section \<open>The contract of a connection\<close>

text \<open>
  What the mux relies on: sending changes neither identity nor role, and a promotion makes the
  connection the host under its own id, after which the key change and the announcement to the
  relay keep it so; following another host only changes the host id.
\<close>

locale connection =
  fixes C :: "'c conn_ops"
  assumes send_keeps:
    "cn_Broadcast C s b c = (c', e) \<Longrightarrow> cn_Self C c' = cn_Self C c \<and> cn_HostID C c' = cn_HostID C c \<and> cn_Role C c' = cn_Role C c"
    "cn_SendTo C to s b c = (c', e) \<Longrightarrow> cn_Self C c' = cn_Self C c \<and> cn_HostID C c' = cn_HostID C c \<and> cn_Role C c' = cn_Role C c"
  and promoted:
    "cn_Promoter C = Some P \<Longrightarrow> cn_Self C (pr_RotateForMigration P (pr_BecomeHost P c)) = cn_Self C c"
    "cn_Promoter C = Some P \<Longrightarrow> cn_HostID C (pr_RotateForMigration P (pr_BecomeHost P c)) = cn_Self C c"
    "cn_Promoter C = Some P \<Longrightarrow> cn_Role C (pr_RotateForMigration P (pr_BecomeHost P c)) = RoleHost"
  and followed:
    "cn_Promoter C = Some P \<Longrightarrow> cn_Self C (pr_SetHostID P p c) = cn_Self C c"
    "cn_Promoter C = Some P \<Longrightarrow> cn_HostID C (pr_SetHostID P p c) = p"
    "cn_Promoter C = Some P \<Longrightarrow> cn_Role C (pr_SetHostID P p c) = cn_Role C c"
  and promoter_keeps:
    "cn_Promoter C = Some P \<Longrightarrow> pr_ClaimHost P c = (c', e) \<Longrightarrow>
       cn_Self C c' = cn_Self C c \<and> cn_HostID C c' = cn_HostID C c \<and> cn_Role C c' = cn_Role C c"
    "cn_Promoter C = Some P \<Longrightarrow> pr_RekeyWithNewHost P c = (c', e) \<Longrightarrow>
       cn_Self C c' = cn_Self C c \<and> cn_HostID C c' = cn_HostID C c \<and> cn_Role C c' = cn_Role C c"
begin

lemma context_Broadcast: "io_Broadcast C s b w = (w', e) \<Longrightarrow> conn_context C (io_client w') = conn_context C (io_client w)"
  using send_keeps(1) by (auto simp: io_Broadcast_def conn_context_def split: prod.splits)

lemma context_SendTo: "io_SendTo C to s b w = (w', e) \<Longrightarrow> conn_context C (io_client w') = conn_context C (io_client w)"
  using send_keeps(2) by (auto simp: io_SendTo_def conn_context_def split: prod.splits)

lemma context_promoted:
  "cn_Promoter C = Some P \<Longrightarrow> conn_context C (pr_RotateForMigration P (pr_BecomeHost P c)) =
     \<lparr>cx_Self = cn_Self C c, cx_HostID = cn_Self C c, cx_Host = True\<rparr>"
  using promoted by (simp add: conn_context_def)

end

lemma seal_fields:
  "seal L cb n s b c = (c', x) \<Longrightarrow> c_self c' = c_self c \<and> c_hostID c' = c_hostID c \<and> c_role c' = c_role c"
  by (auto simp: seal_def Let_def split: if_splits option.splits sum.splits)

lemma writeFrame_c_fields:
  "writeFrame_c cd t b c = (c', e) \<Longrightarrow> c_self c' = c_self c \<and> c_hostID c' = c_hostID c \<and> c_role c' = c_role c"
  by (drule only_writes_writeFrame_c) (simp add: only_writes_fields)

lemma Broadcast_c_fields:
  "Broadcast_c L cb n s b c = (c', e) \<Longrightarrow> c_self c' = c_self c \<and> c_hostID c' = c_hostID c \<and> c_role c' = c_role c"
  by (auto simp: Broadcast_c_def split: prod.splits sum.splits dest!: seal_fields writeFrame_c_fields)

lemma SendTo_fields:
  "SendTo L cb n to s b c = (c', e) \<Longrightarrow> c_self c' = c_self c \<and> c_hostID c' = c_hostID c \<and> c_role c' = c_role c"
  by (auto simp: SendTo_def split: prod.splits sum.splits dest!: seal_fields writeFrame_c_fields)

lemma RekeyWithNewHost_fields:
  "RekeyWithNewHost L cb r c = (c', e) \<Longrightarrow> c_self c' = c_self c \<and> c_hostID c' = c_hostID c \<and> c_role c' = c_role c"
  by (auto simp: RekeyWithNewHost_def Let_def split: if_splits sum.splits dest!: writeFrame_c_fields)

lemma RotateForMigration_fields:
  "c_self (RotateForMigration r c) = c_self c" "c_hostID (RotateForMigration r c) = c_hostID c"
  "c_role (RotateForMigration r c) = c_role c"
  by (simp_all add: RotateForMigration_def pushPrevKey_def)

interpretation session_conn: connection "client_conn L cb rs"
  for L :: "'p cryptolib" and cb :: codecs and rs :: "nat \<Rightarrow> rand"
proof
  fix c c' :: "'p live" and s b to e and P :: "'p live promoter_ops" and p
  let ?C = "client_conn L cb rs"
  obtain d i where [simp]: "c = (d, i)" by (cases c)
  show "cn_Broadcast ?C s b c = (c', e) \<Longrightarrow>
      cn_Self ?C c' = cn_Self ?C c \<and> cn_HostID ?C c' = cn_HostID ?C c \<and> cn_Role ?C c' = cn_Role ?C c"
    by (auto simp: client_conn_def split: prod.splits dest!: Broadcast_c_fields)
  show "cn_SendTo ?C to s b c = (c', e) \<Longrightarrow>
      cn_Self ?C c' = cn_Self ?C c \<and> cn_HostID ?C c' = cn_HostID ?C c \<and> cn_Role ?C c' = cn_Role ?C c"
    by (auto simp: client_conn_def split: prod.splits dest!: SendTo_fields)
  show "cn_Promoter ?C = Some P \<Longrightarrow> pr_ClaimHost P c = (c', e) \<Longrightarrow>
      cn_Self ?C c' = cn_Self ?C c \<and> cn_HostID ?C c' = cn_HostID ?C c \<and> cn_Role ?C c' = cn_Role ?C c"
    by (auto simp: client_conn_def client_promoter_def ClaimHost_def split: prod.splits dest!: writeFrame_c_fields)
  show "cn_Promoter ?C = Some P \<Longrightarrow> pr_RekeyWithNewHost P c = (c', e) \<Longrightarrow>
      cn_Self ?C c' = cn_Self ?C c \<and> cn_HostID ?C c' = cn_HostID ?C c \<and> cn_Role ?C c' = cn_Role ?C c"
    by (auto simp: client_conn_def client_promoter_def split: prod.splits dest!: RekeyWithNewHost_fields)
qed (auto simp: client_conn_def client_promoter_def RotateForMigration_fields BecomeHost_def SetHostID_def split: prod.splits)

end
