(* ===== verification/Ctl.thy ===== *)
theory Ctl
  imports Service
begin

text \<open>
  The control service (src/service/ctl.go) and the state of the mux it belongs to (the struct of
  src/service/mux.go). In the code the two point to each other, so the operations here take and
  return the whole mux. \<open>C\<close> is the connection and \<open>cc\<close> the CBOR codec of the control messages,
  whose law is that decoding returns the encoded message with the entries of its maps in some
  order.
\<close>

section \<open>Messages\<close>

definition CtlID :: string where "CtlID = ''ctl''"

abbreviation ctlKindAnnounce :: uint8 where "ctlKindAnnounce \<equiv> 1"
abbreviation ctlKindSnapshotReq :: uint8 where "ctlKindSnapshotReq \<equiv> 2"
abbreviation ctlKindSnapshot :: uint8 where "ctlKindSnapshot \<equiv> 3"
abbreviation ctlKindIdentity :: uint8 where "ctlKindIdentity \<equiv> 4"

definition maxNameLen :: nat where "maxNameLen = 24"

record ctlMsg =
  ct_Kind :: uint8
  ct_Roster :: "(uint32 \<times> uint8) list"
  ct_Services :: "ServiceInfo list"
  ct_Snapshots :: "(string \<times> bytes) list"
  ct_Name :: runes
  ct_Names :: "(uint32 \<times> runes) list"
  ct_Endpoint :: string
  ct_Endpoints :: "(uint32 \<times> string) list"
  ct_PushKey :: string

definition zero_ctlMsg :: ctlMsg where
  "zero_ctlMsg = \<lparr>ct_Kind = 0, ct_Roster = [], ct_Services = [], ct_Snapshots = [], ct_Name = [], ct_Names = [],
     ct_Endpoint = [], ct_Endpoints = [], ct_PushKey = []\<rparr>"

definition same_msg :: "ctlMsg \<Rightarrow> ctlMsg \<Rightarrow> bool" where
  "same_msg m m' \<longleftrightarrow> ct_Kind m' = ct_Kind m \<and> mset (ct_Roster m') = mset (ct_Roster m) \<and>
     ct_Services m' = ct_Services m \<and> mset (ct_Snapshots m') = mset (ct_Snapshots m) \<and> ct_Name m' = ct_Name m \<and>
     mset (ct_Names m') = mset (ct_Names m) \<and> ct_Endpoint m' = ct_Endpoint m \<and>
     mset (ct_Endpoints m') = mset (ct_Endpoints m) \<and> ct_PushKey m' = ct_PushKey m"

definition ctl_codec_ok :: "ctlMsg cbor \<Rightarrow> bool" where
  "ctl_codec_ok cc \<longleftrightarrow> (\<forall>m b. marshal cc m = Some b \<longrightarrow> (\<exists>m'. unmarshal cc b = Some m' \<and> same_msg m m'))"

section \<open>State\<close>

record ctlService =
  ctl_base :: Base
  ctl_roster :: "(ParticipantID \<times> Role) list"
  ctl_names :: "(ParticipantID \<times> runes) list"
  ctl_endpoints :: "(ParticipantID \<times> string) list"
  ctl_pushKey :: string
  ctl_selfName :: runes
  ctl_selfEndpoint :: string

definition newCtl :: ctlService where
  "newCtl = \<lparr>ctl_base = None, ctl_roster = [], ctl_names = [], ctl_endpoints = [], ctl_pushKey = [],
     ctl_selfName = [], ctl_selfEndpoint = []\<rparr>"

type_synonym SuccessorPolicy = "(ParticipantID \<times> Role) list \<Rightarrow> ParticipantID"

datatype ('c, 's) svc = CtlSvc | AppSvc "('c, 's) service_ops" 's

datatype mux_cmd = CmdName runes | CmdEndpoint string | CmdPushKey string

record ('c, 's) Mux =
  m_io :: "'c io"
  m_services :: "(string \<times> ('c, 's) svc) list"
  m_ctl :: ctlService
  m_cmds :: "mux_cmd list"
  m_lastSeq :: "ParticipantID \<times> string \<Rightarrow> uint64"
  m_successor :: SuccessorPolicy
  m_reconnectable :: bool

definition ctl_Ctx :: "('c, 's) Mux \<Rightarrow> Context" where
  "ctl_Ctx m = Ctx (ctl_base (m_ctl m))"

definition mux_emit :: "mux_event \<Rightarrow> ('c, 's) Mux \<Rightarrow> ('c, 's) Mux" where
  "mux_emit e m = m\<lparr>m_io := emit_m e (m_io m)\<rparr>"

definition ctl_Broadcast :: "'c conn_ops \<Rightarrow> bytes \<Rightarrow> ('c, 's) Mux \<Rightarrow> ('c, 's) Mux \<times> session_error option" where
  "ctl_Broadcast C body m = (case io_Broadcast C CtlID body (m_io m) of (w, e) \<Rightarrow> (m\<lparr>m_io := w\<rparr>, e))"

definition ctl_SendTo :: "'c conn_ops \<Rightarrow> ParticipantID \<Rightarrow> bytes \<Rightarrow> ('c, 's) Mux \<Rightarrow> ('c, 's) Mux \<times> session_error option" where
  "ctl_SendTo C to body m = (case io_SendTo C to CtlID body (m_io m) of (w, e) \<Rightarrow> (m\<lparr>m_io := w\<rparr>, e))"

section \<open>Names\<close>

definition sanitizeName :: "runes \<Rightarrow> runes" where
  "sanitizeName s0 =
     (let s = filter (\<lambda>r. \<not> IsControl r) (TrimSpace s0)
      in if length s > maxNameLen then take maxNameLen s else s)"

section \<open>Announcing\<close>

definition ctl_Version :: int where "ctl_Version = 1"

text \<open>The control service's own state travels in announcements, so its snapshot is empty.\<close>

definition ctl_Snapshot :: "svc_error + bytes" where "ctl_Snapshot = Inr []"

definition svc_info :: "('c, 's) svc \<Rightarrow> ServiceInfo" where
  "svc_info s = (case s of CtlSvc \<Rightarrow> \<lparr>si_ID = CtlID, si_Version = ctl_Version\<rparr>
     | AppSvc ops _ \<Rightarrow> \<lparr>si_ID = so_ID ops, si_Version = so_Version ops\<rparr>)"

text \<open>\<open>maps.Copy\<close>, and the copies of the maps that an event carries away from the service.\<close>

definition maps_Copy :: "('k \<times> 'v) list \<Rightarrow> ('k \<times> 'v) list \<Rightarrow> ('k \<times> 'v) list" where
  "maps_Copy dst src = fold (\<lambda>(k, v). AList.update k v) src dst"

definition rosterCopy :: "ctlService \<Rightarrow> (ParticipantID \<times> Role) list" where
  "rosterCopy c = maps_Copy [] (ctl_roster c)"

definition namesCopy :: "ctlService \<Rightarrow> (ParticipantID \<times> runes) list" where
  "namesCopy c = maps_Copy [] (ctl_names c)"

definition endpointsCopy :: "ctlService \<Rightarrow> (ParticipantID \<times> string) list" where
  "endpointsCopy c = maps_Copy [] (ctl_endpoints c)"

definition roster3 :: "ServiceInfo list \<Rightarrow> ctlService \<Rightarrow> Roster" where
  "roster3 infos c = \<lparr>ro_Members = rosterCopy c, ro_Names = namesCopy c, ro_Endpoints = endpointsCopy c,
     ro_PushKey = ctl_pushKey c, ro_Services = infos\<rparr>"

text \<open>The entries of a map for the members of the roster that are not blank.\<close>

definition member_entries :: "(ParticipantID \<times> Role) list \<Rightarrow> (ParticipantID \<times> 'a list) list \<Rightarrow> (ParticipantID \<times> 'a list) list" where
  "member_entries roster vals =
     List.map_filter (\<lambda>(pid, _). case map_of vals pid of
        Some v \<Rightarrow> if v \<noteq> [] then Some (pid, v) else None | None \<Rightarrow> None) roster"

definition announce_msg :: "('c, 's) Mux \<Rightarrow> ctlMsg" where
  "announce_msg m =
     (let c = m_ctl m
      in zero_ctlMsg\<lparr>ct_Kind := ctlKindAnnounce, ct_Roster := ctl_roster c,
           ct_Names := member_entries (ctl_roster c) (ctl_names c),
           ct_Endpoints := member_entries (ctl_roster c) (ctl_endpoints c),
           ct_PushKey := ctl_pushKey c, ct_Services := map (svc_info \<circ> snd) (m_services m)\<rparr>)"

definition announce :: "'c conn_ops \<Rightarrow> ctlMsg cbor \<Rightarrow> ('c, 's) Mux \<Rightarrow> ('c, 's) Mux" where
  "announce C cc m =
     (case Marshal cc (announce_msg m) of
        None \<Rightarrow> m
      | Some body \<Rightarrow>
          (let m1 = fst (ctl_Broadcast C body m)
           in mux_emit (RosterEvent (roster3 (map (svc_info \<circ> snd) (m_services m)) (m_ctl m1))) m1))"

definition setName :: "'c conn_ops \<Rightarrow> ctlMsg cbor \<Rightarrow> runes \<Rightarrow> ('c, 's) Mux \<Rightarrow> ('c, 's) Mux" where
  "setName C cc name0 m =
     (let name = sanitizeName name0
      in if name = [] then m
         else
           (let m1 = m\<lparr>m_ctl := (m_ctl m)\<lparr>ctl_selfName := name,
                        ctl_names := AList.update (cx_Self (ctl_Ctx m)) name (ctl_names (m_ctl m))\<rparr>\<rparr>
            in if cx_Host (ctl_Ctx m1) then announce C cc m1
               else case Marshal cc (zero_ctlMsg\<lparr>ct_Kind := ctlKindIdentity, ct_Name := name\<rparr>) of
                      None \<Rightarrow> m1
                    | Some body \<Rightarrow> fst (ctl_SendTo C (cx_HostID (ctl_Ctx m1)) body m1)))"

definition setEndpoint :: "'c conn_ops \<Rightarrow> ctlMsg cbor \<Rightarrow> string \<Rightarrow> ('c, 's) Mux \<Rightarrow> ('c, 's) Mux" where
  "setEndpoint C cc ep m =
     (let m1 = m\<lparr>m_ctl := (m_ctl m)\<lparr>ctl_selfEndpoint := ep,
                  ctl_endpoints := AList.update (cx_Self (ctl_Ctx m)) ep (ctl_endpoints (m_ctl m))\<rparr>\<rparr>
      in if cx_Host (ctl_Ctx m1) then announce C cc m1
         else case Marshal cc (zero_ctlMsg\<lparr>ct_Kind := ctlKindIdentity, ct_Endpoint := ep\<rparr>) of
                None \<Rightarrow> m1
              | Some body \<Rightarrow> fst (ctl_SendTo C (cx_HostID (ctl_Ctx m1)) body m1))"

definition setPushKey :: "'c conn_ops \<Rightarrow> ctlMsg cbor \<Rightarrow> string \<Rightarrow> ('c, 's) Mux \<Rightarrow> ('c, 's) Mux" where
  "setPushKey C cc key m =
     (if \<not> cx_Host (ctl_Ctx m) then m
      else announce C cc (m\<lparr>m_ctl := (m_ctl m)\<lparr>ctl_pushKey := key\<rparr>\<rparr>))"

definition ctl_Attach :: "Context \<Rightarrow> ctlService \<Rightarrow> ctlService" where
  "ctl_Attach ctx c =
     (let c1 = c\<lparr>ctl_base := SetContext ctx (ctl_base c)\<rparr>
      in if cx_Host ctx then c1\<lparr>ctl_roster := AList.update (cx_Self ctx) RoleHost (ctl_roster c1)\<rparr> else c1)"

section \<open>Frames\<close>

definition handleAnnounce :: "ParticipantID \<Rightarrow> ctlMsg \<Rightarrow> ('c, 's) Mux \<Rightarrow> ('c, 's) Mux \<times> svc_error option" where
  "handleAnnounce frm msg m =
     (if frm \<noteq> cx_HostID (ctl_Ctx m) then (m, Some (AnnounceFromNonHost frm))
      else
        (let c = (m_ctl m)\<lparr>ctl_roster := ct_Roster msg, ctl_names := ct_Names msg,
                   ctl_endpoints := ct_Endpoints msg, ctl_pushKey := ct_PushKey msg\<rparr>
         in (mux_emit (RosterEvent (roster3 (ct_Services msg) c)) (m\<lparr>m_ctl := c\<rparr>), None)))"

definition handleIdentity :: "'c conn_ops \<Rightarrow> ctlMsg cbor \<Rightarrow> ParticipantID \<Rightarrow> ctlMsg \<Rightarrow> ('c, 's) Mux \<Rightarrow>
    ('c, 's) Mux \<times> svc_error option" where
  "handleIdentity C cc frm msg m =
     (if \<not> cx_Host (ctl_Ctx m) then (m, None)
      else
        (let c = m_ctl m;
             c1 = (if ct_Name msg \<noteq> [] then c\<lparr>ctl_names := AList.update frm (sanitizeName (ct_Name msg)) (ctl_names c)\<rparr> else c);
             c2 = (if ct_Endpoint msg \<noteq> [] then c1\<lparr>ctl_endpoints := AList.update frm (ct_Endpoint msg) (ctl_endpoints c1)\<rparr> else c1)
         in (announce C cc (m\<lparr>m_ctl := c2\<rparr>), None)))"

fun snapshot_blobs :: "(string \<times> ('c, 's) svc) list \<Rightarrow> svc_error + (string \<times> bytes) list" where
  "snapshot_blobs [] = Inr []"
| "snapshot_blobs ((sid, s) # rest) =
     (if sid = CtlID then snapshot_blobs rest
      else case (case s of CtlSvc \<Rightarrow> ctl_Snapshot | AppSvc ops st \<Rightarrow> so_Snapshot ops st) of
             Inl e \<Rightarrow> Inl (SnapshotFailed sid e)
           | Inr b \<Rightarrow>
               (case snapshot_blobs rest of
                  Inl e \<Rightarrow> Inl e
                | Inr blobs \<Rightarrow> Inr (if b \<noteq> [] then (sid, b) # blobs else blobs)))"

definition sendSnapshot :: "'c conn_ops \<Rightarrow> ctlMsg cbor \<Rightarrow> ParticipantID \<Rightarrow> ('c, 's) Mux \<Rightarrow>
    ('c, 's) Mux \<times> svc_error option" where
  "sendSnapshot C cc to m =
     (case snapshot_blobs (m_services m) of
        Inl e \<Rightarrow> (m, Some e)
      | Inr blobs \<Rightarrow>
          (case Marshal cc (zero_ctlMsg\<lparr>ct_Kind := ctlKindSnapshot, ct_Snapshots := blobs\<rparr>) of
             None \<Rightarrow> (m, Some EncodingFailed)
           | Some body \<Rightarrow>
               (case ctl_SendTo C to body m of (m1, e) \<Rightarrow> (m1, map_option SendFailed e))))"

definition handleSnapshotReq :: "'c conn_ops \<Rightarrow> ctlMsg cbor \<Rightarrow> ParticipantID \<Rightarrow> ('c, 's) Mux \<Rightarrow>
    ('c, 's) Mux \<times> svc_error option" where
  "handleSnapshotReq C cc frm m =
     (if \<not> cx_Host (ctl_Ctx m) then (m, None) else sendSnapshot C cc frm m)"

fun restore_blobs :: "(string \<times> bytes) list \<Rightarrow> ('c, 's) Mux \<Rightarrow> ('c, 's) Mux \<times> svc_error option" where
  "restore_blobs [] m = (m, None)"
| "restore_blobs ((sid, blob) # rest) m =
     (case (if sid = CtlID then None else map_of (m_services m) sid) of
        Some (AppSvc ops st) \<Rightarrow>
          (case so_Restore ops blob st (m_io m) of
             (st', w, e) \<Rightarrow>
               (let m1 = m\<lparr>m_io := w, m_services := AList.update sid (AppSvc ops st') (m_services m)\<rparr>
                in case e of Some err \<Rightarrow> (m1, Some (RestoreFailed sid err)) | None \<Rightarrow> restore_blobs rest m1))
      | _ \<Rightarrow> restore_blobs rest m)"

definition handleSnapshot :: "ParticipantID \<Rightarrow> ctlMsg \<Rightarrow> ('c, 's) Mux \<Rightarrow> ('c, 's) Mux \<times> svc_error option" where
  "handleSnapshot frm msg m =
     (if frm \<noteq> cx_HostID (ctl_Ctx m) then (m, Some (SnapshotFromNonHost frm))
      else restore_blobs (ct_Snapshots msg) m)"

definition ctl_HandleFrame :: "'c conn_ops \<Rightarrow> ctlMsg cbor \<Rightarrow> ParticipantID \<Rightarrow> bytes \<Rightarrow> ('c, 's) Mux \<Rightarrow>
    ('c, 's) Mux \<times> svc_error option" where
  "ctl_HandleFrame C cc frm body m =
     (case Body cc body of
        Inl e \<Rightarrow> (m, Some (BadBody e))
      | Inr msg \<Rightarrow>
          if ct_Kind msg = ctlKindAnnounce then handleAnnounce frm msg m
          else if ct_Kind msg = ctlKindIdentity then handleIdentity C cc frm msg m
          else if ct_Kind msg = ctlKindSnapshotReq then handleSnapshotReq C cc frm m
          else if ct_Kind msg = ctlKindSnapshot then handleSnapshot frm msg m
          else (m, None))"

section \<open>Membership\<close>

definition ctl_MemberKeyed :: "'c conn_ops \<Rightarrow> ctlMsg cbor \<Rightarrow> ParticipantID \<Rightarrow> Role \<Rightarrow> ('c, 's) Mux \<Rightarrow> ('c, 's) Mux" where
  "ctl_MemberKeyed C cc pid role m =
     (if \<not> cx_Host (ctl_Ctx m) then m
      else announce C cc (m\<lparr>m_ctl := (m_ctl m)\<lparr>ctl_roster := AList.update pid role (ctl_roster (m_ctl m))\<rparr>\<rparr>))"

definition forget_member :: "ParticipantID \<Rightarrow> ctlService \<Rightarrow> ctlService" where
  "forget_member pid c = c\<lparr>ctl_roster := AList.delete pid (ctl_roster c), ctl_names := AList.delete pid (ctl_names c),
     ctl_endpoints := AList.delete pid (ctl_endpoints c)\<rparr>"

definition ctl_MemberLeft :: "'c conn_ops \<Rightarrow> ctlMsg cbor \<Rightarrow> ParticipantID \<Rightarrow> ('c, 's) Mux \<Rightarrow> ('c, 's) Mux" where
  "ctl_MemberLeft C cc pid m =
     (if \<not> cx_Host (ctl_Ctx m) then m
      else announce C cc (m\<lparr>m_ctl := forget_member pid (m_ctl m)\<rparr>))"

definition electSuccessor :: "ParticipantID \<Rightarrow> ('c, 's) Mux \<Rightarrow> ParticipantID" where
  "electSuccessor leaver m =
     (let candidates = filter (\<lambda>(pid, _). pid \<noteq> leaver) (ctl_roster (m_ctl m));
          s = m_successor m candidates
      in if s \<notin> fst ` set candidates then 0 else s)"

definition assumeHost :: "'c conn_ops \<Rightarrow> ctlMsg cbor \<Rightarrow> ParticipantID \<Rightarrow> ('c, 's) Mux \<Rightarrow> ('c, 's) Mux" where
  "assumeHost C cc leaver m =
     (let c = forget_member leaver (m_ctl m)
      in announce C cc (m\<lparr>m_ctl := c\<lparr>ctl_roster := AList.update (cx_Self (ctl_Ctx m)) RoleHost (ctl_roster c)\<rparr>\<rparr>))"

definition requestSnapshot :: "'c conn_ops \<Rightarrow> ctlMsg cbor \<Rightarrow> ('c, 's) Mux \<Rightarrow> ('c, 's) Mux" where
  "requestSnapshot C cc m =
     (case Marshal cc (zero_ctlMsg\<lparr>ct_Kind := ctlKindSnapshotReq\<rparr>) of
        None \<Rightarrow> m
      | Some body \<Rightarrow> fst (ctl_SendTo C (cx_HostID (ctl_Ctx m)) body m))"

end
