(* ===== verification/Chat.thy ===== *)
theory Chat
  imports Service
begin

text \<open>
  The chat service (src/service/chat/chat.go): messages with random ids, a history of the last
  200 that late joiners get as a snapshot, and the rule that an id in the history is not emitted
  again. The history's lock makes each operation one step. The CBOR codecs of its messages are
  arguments with their round-trip law.
\<close>

section \<open>State\<close>

definition chat_ID :: string where "chat_ID = ''chat''"
definition historyCap :: nat where "historyCap = 200"
definition maxText :: nat where "maxText = 4096"

record chat_msg =
  cm_ID :: uint64
  cm_Text :: runes

record storedMsg =
  sm_ID :: uint64
  sm_From :: ParticipantID
  sm_Text :: runes

record chat_codecs =
  cMsg :: "chat_msg cbor"
  cSnapshot :: "storedMsg list cbor"

definition chat_codecs_ok :: "chat_codecs \<Rightarrow> bool" where
  "chat_codecs_ok K \<longleftrightarrow> cbor_roundtrip (cMsg K) \<and> cbor_roundtrip (cSnapshot K)"

record chat =
  ch_base :: Base
  ch_history :: "storedMsg list"

definition chat_New :: chat where
  "chat_New = \<lparr>ch_base = None, ch_history = []\<rparr>"

definition chat_Attach :: "Context \<Rightarrow> chat \<Rightarrow> chat" where
  "chat_Attach ctx s = s\<lparr>ch_base := SetContext ctx (ch_base s)\<rparr>"

section \<open>Operations\<close>

definition chat_record :: "uint64 \<Rightarrow> ParticipantID \<Rightarrow> runes \<Rightarrow> chat \<Rightarrow> chat \<times> bool" where
  "chat_record pid frm text s =
     (if \<exists>m \<in> set (ch_history s). sm_ID m = pid then (s, False)
      else
        (let h = ch_history s @ [\<lparr>sm_ID = pid, sm_From = frm, sm_Text = text\<rparr>]
         in (s\<lparr>ch_history := (if length h > historyCap then drop (length h - historyCap) h else h)\<rparr>, True)))"

text \<open>\<open>randomID\<close>, given what reading eight random bytes returns.\<close>

definition randomID :: "bytes option \<Rightarrow> svc_error + uint64" where
  "randomID rnd = (case rnd of None \<Rightarrow> Inl RandFailed | Some b \<Rightarrow> Inr (word_rcat b))"

definition Say :: "'c conn_ops \<Rightarrow> chat_codecs \<Rightarrow> bytes option \<Rightarrow> runes \<Rightarrow> chat \<Rightarrow> 'c io \<Rightarrow>
    chat \<times> 'c io \<times> svc_error option" where
  "Say C K rnd text0 s w =
     (let text = TrimSpace text0
      in if text = [] then (s, w, None)
         else if length (utf8 text) > maxText then (s, w, Some TooLong)
         else case randomID rnd of
           Inl e \<Rightarrow> (s, w, Some e)
         | Inr mid \<Rightarrow>
             (case Marshal (cMsg K) \<lparr>cm_ID = mid, cm_Text = text\<rparr> of
                None \<Rightarrow> (s, w, Some EncodingFailed)
              | Some body \<Rightarrow>
                  if ch_base s = None then (s, w, Some NotAttached)
                  else (case io_Broadcast C chat_ID body w of
                          (w1, Some e) \<Rightarrow> (s, w1, Some (SendFailed e))
                        | (w1, None) \<Rightarrow>
                            (fst (chat_record mid (cx_Self (Ctx (ch_base s))) text s),
                             emit_m (Message (cx_Self (Ctx (ch_base s))) text) w1, None))))"

definition chat_HandleFrame :: "chat_codecs \<Rightarrow> ParticipantID \<Rightarrow> bytes \<Rightarrow> chat \<Rightarrow> 'c io \<Rightarrow>
    chat \<times> 'c io \<times> svc_error option" where
  "chat_HandleFrame K frm body s w =
     (case Body (cMsg K) body of
        Inl e \<Rightarrow> (s, w, Some (BadBody e))
      | Inr m \<Rightarrow>
          if length (utf8 (cm_Text m)) > maxText then (s, w, Some (OversizedFrom frm))
          else (case chat_record (cm_ID m) frm (cm_Text m) s of
                  (s', False) \<Rightarrow> (s', w, None)
                | (s', True) \<Rightarrow> (s', emit_m (Message frm (cm_Text m)) w, None)))"

definition chat_Snapshot :: "chat_codecs \<Rightarrow> chat \<Rightarrow> svc_error + bytes" where
  "chat_Snapshot K s =
     (if ch_history s = [] then Inr []
      else case Marshal (cSnapshot K) (ch_history s) of None \<Rightarrow> Inl EncodingFailed | Some b \<Rightarrow> Inr b)"

fun restore_all :: "storedMsg list \<Rightarrow> chat \<Rightarrow> 'c io \<Rightarrow> chat \<times> 'c io" where
  "restore_all [] s w = (s, w)"
| "restore_all (m # ms) s w =
     (case chat_record (sm_ID m) (sm_From m) (sm_Text m) s of
        (s', True) \<Rightarrow> restore_all ms s' (emit_m (Message (sm_From m) (sm_Text m)) w)
      | (s', False) \<Rightarrow> restore_all ms s' w)"

definition chat_Restore :: "chat_codecs \<Rightarrow> bytes \<Rightarrow> chat \<Rightarrow> 'c io \<Rightarrow> chat \<times> 'c io \<times> svc_error option" where
  "chat_Restore K blob s w =
     (case Body (cSnapshot K) blob of
        Inl e \<Rightarrow> (s, w, Some (BadBody e))
      | Inr ms \<Rightarrow> (case restore_all ms s w of (s', w') \<Rightarrow> (s', w', None)))"

definition chat_ops :: "chat_codecs \<Rightarrow> ('c, chat) service_ops" where
  "chat_ops K =
     \<lparr>so_ID = chat_ID, so_Version = 1, so_Attach = chat_Attach, so_HandleFrame = chat_HandleFrame K,
      so_Snapshot = chat_Snapshot K, so_Restore = chat_Restore K,
      so_MemberObserver = None, so_OnPromote = None\<rparr>"

section \<open>The history\<close>

definition chat_inv :: "chat \<Rightarrow> bool" where
  "chat_inv s \<longleftrightarrow> length (ch_history s) \<le> historyCap \<and> distinct (map sm_ID (ch_history s))"

lemma chat_inv_New [simp]: "chat_inv chat_New"
  by (simp add: chat_inv_def chat_New_def)

lemma chat_inv_Attach [simp]: "chat_inv (chat_Attach ctx s) = chat_inv s"
  by (simp add: chat_inv_def chat_Attach_def)

lemma chat_inv_record:
  assumes "chat_inv s" "chat_record i f t s = (s', new)"
  shows "chat_inv s'"
proof (cases "\<exists>m \<in> set (ch_history s). sm_ID m = i")
  case False
  let ?h = "ch_history s @ [\<lparr>sm_ID = i, sm_From = f, sm_Text = t\<rparr>]"
  have "distinct (map sm_ID ?h)" using assms(1) False by (auto simp: chat_inv_def)
  then have "distinct (map sm_ID (drop n ?h))" for n by (metis distinct_drop drop_map)
  moreover have "s' = s\<lparr>ch_history := (if length ?h > historyCap then drop (length ?h - historyCap) ?h else ?h)\<rparr>"
    using assms(2) False by (simp add: chat_record_def Let_def)
  ultimately show ?thesis using \<open>distinct (map sm_ID ?h)\<close> by (simp only: chat_inv_def) (simp del: drop_append map_append)
qed (use assms in \<open>simp add: chat_record_def\<close>)

lemma chat_inv_restore_all: "chat_inv s \<Longrightarrow> restore_all ms s w = (s', w') \<Longrightarrow> chat_inv s'"
  by (induction ms s w rule: restore_all.induct) (auto split: prod.splits bool.splits dest: chat_inv_record)

lemma chat_inv_HandleFrame: "chat_inv s \<Longrightarrow> chat_HandleFrame K frm b s w = (s', w', e) \<Longrightarrow> chat_inv s'"
  by (auto simp: chat_HandleFrame_def split: sum.splits if_splits prod.splits bool.splits dest: chat_inv_record)

lemma chat_inv_Restore: "chat_inv s \<Longrightarrow> chat_Restore K b s w = (s', w', e) \<Longrightarrow> chat_inv s'"
  by (auto simp: chat_Restore_def split: sum.splits prod.splits dest: chat_inv_restore_all)

lemma chat_inv_Say: "chat_inv s \<Longrightarrow> Say C K i t s w = (s', w', e) \<Longrightarrow> chat_inv s'"
  by (auto simp: Say_def Let_def split: sum.splits if_splits option.splits prod.splits dest: chat_inv_record [OF _ surjective_pairing])

text \<open>What a chat service takes in, by either path, and what it lets through the first time.\<close>

fun first_seen :: "uint64 set \<Rightarrow> storedMsg list \<Rightarrow> storedMsg list" where
  "first_seen seen [] = []"
| "first_seen seen (m # ms) =
     (if sm_ID m \<in> seen then first_seen seen ms else m # first_seen (insert (sm_ID m) seen) ms)"

lemma chat_record_room:
  "length (ch_history s) < historyCap \<Longrightarrow> sm_ID m \<notin> sm_ID ` set (ch_history s) \<Longrightarrow>
     chat_record (sm_ID m) (sm_From m) (sm_Text m) s = (s\<lparr>ch_history := ch_history s @ [m]\<rparr>, True)"
  by (auto simp: chat_record_def Let_def image_iff)

lemma chat_record_known:
  "sm_ID m \<in> sm_ID ` set (ch_history s) \<Longrightarrow> chat_record (sm_ID m) f t s = (s, False)"
  by (auto simp: chat_record_def)

lemma restore_all_first_seen:
  assumes "length (ch_history s) + length (first_seen (sm_ID ` set (ch_history s)) ms) \<le> historyCap" "\<not> io_closed w"
  shows "restore_all ms s w =
     (s\<lparr>ch_history := ch_history s @ first_seen (sm_ID ` set (ch_history s)) ms\<rparr>,
      w\<lparr>io_events := io_events w @ map (\<lambda>m. Message (sm_From m) (sm_Text m))
                                    (first_seen (sm_ID ` set (ch_history s)) ms)\<rparr>)"
  using assms
proof (induction ms arbitrary: s w)
  case (Cons m ms)
  show ?case
  proof (cases "sm_ID m \<in> sm_ID ` set (ch_history s)")
    case True
    with Cons show ?thesis by (simp add: chat_record_known)
  next
    case False
    with Cons.prems have r: "chat_record (sm_ID m) (sm_From m) (sm_Text m) s = (s\<lparr>ch_history := ch_history s @ [m]\<rparr>, True)"
      by (intro chat_record_room) auto
    show ?thesis
      using Cons.IH [of "s\<lparr>ch_history := ch_history s @ [m]\<rparr>" "emit_m (Message (sm_From m) (sm_Text m)) w"]
        Cons.prems False r by (simp add: emit_m_def)
  qed
qed simp

lemma first_seen_distinct: "distinct (map sm_ID ms) \<Longrightarrow> seen \<inter> sm_ID ` set ms = {} \<Longrightarrow> first_seen seen ms = ms"
  by (induction ms arbitrary: seen) auto

lemma set_first_seen: "sm_ID ` set (first_seen seen ms) = sm_ID ` set ms - seen"
  by (induction ms arbitrary: seen) (auto simp: insert_Diff_if)

lemma distinct_first_seen: "distinct (map sm_ID (first_seen seen ms))"
  by (induction ms arbitrary: seen) (auto simp flip: image_set simp: set_first_seen)

text \<open>A live frame is the delivery of one stored message.\<close>

lemma HandleFrame_restore:
  assumes "chat_codecs_ok K" "Marshal (cMsg K) \<lparr>cm_ID = sm_ID m, cm_Text = sm_Text m\<rparr> = Some body"
    "length (utf8 (sm_Text m)) \<le> maxText"
  shows "chat_HandleFrame K (sm_From m) body s w = (case restore_all [m] s w of (s', w') \<Rightarrow> (s', w', None))"
proof -
  have "Body (cMsg K) body = Inr \<lparr>cm_ID = sm_ID m, cm_Text = sm_Text m\<rparr>"
    using Body_roundtrip assms(1,2) by (auto simp: chat_codecs_ok_def Marshal_def)
  with assms(3) show ?thesis
    by (auto simp: chat_HandleFrame_def split: prod.split bool.split)
qed

section \<open>The contract of a service with snapshots\<close>

text \<open>
  What the control service relies on when it brings a late joiner up to date: attaching a
  context does not touch what the service shows (its \<open>view\<close>), and a fresh service that restores
  a snapshot shows what the one it was taken from shows.
\<close>

locale snapshot_service =
  fixes ops :: "('c, 's) service_ops" and good fresh :: "'s \<Rightarrow> bool" and view :: "'s \<Rightarrow> 'v"
  assumes attach_view: "view (so_Attach ops ctx s) = view s"
    and attach_fresh: "fresh s \<Longrightarrow> fresh (so_Attach ops ctx s)"
    and fresh_view: "fresh s \<Longrightarrow> fresh t \<Longrightarrow> view s = view t"
    and empty_snapshot: "good s \<Longrightarrow> so_Snapshot ops s = Inr [] \<Longrightarrow> fresh t \<Longrightarrow> view t = view s"
    and restore_snapshot: "good s \<Longrightarrow> so_Snapshot ops s = Inr b \<Longrightarrow> b \<noteq> [] \<Longrightarrow> fresh t \<Longrightarrow> \<not> io_closed w \<Longrightarrow>
      \<exists>t' w'. so_Restore ops b t w = (t', w', None) \<and> view t' = view s"
begin

text \<open>The joiner's service after the host's snapshot, applied only if it is not empty.\<close>

lemma catches_up:
  assumes "good s" and "fresh t" and "so_Snapshot ops s = Inr b" and "\<not> io_closed w"
  shows "\<exists>t' w'. (if b = [] then (t, w, None) else so_Restore ops b t w) = (t', w', None) \<and> view t' = view s"
  using assms empty_snapshot restore_snapshot by (cases "b = []") auto

end

lemma Snapshot_Restore:
  assumes "chat_codecs_ok K" "chat_inv s" "chat_Snapshot K s = Inr b" "b \<noteq> []" "ch_history t = []" "\<not> io_closed w"
  shows "chat_Restore K b t w = (t\<lparr>ch_history := ch_history s\<rparr>,
     w\<lparr>io_events := io_events w @ map (\<lambda>m. Message (sm_From m) (sm_Text m)) (ch_history s)\<rparr>, None)"
proof -
  have "Body (cSnapshot K) b = Inr (ch_history s)"
    using assms(1,3,4) Body_roundtrip [of "cSnapshot K" "ch_history s" b]
    by (auto simp: chat_codecs_ok_def chat_Snapshot_def Marshal_def split: if_splits option.splits)
  moreover have "first_seen {} (ch_history s) = ch_history s"
    using assms(2) by (intro first_seen_distinct) (auto simp: chat_inv_def)
  ultimately show ?thesis
    using restore_all_first_seen [of t "ch_history s" w] assms(2,5,6)
    by (simp add: chat_Restore_def chat_inv_def)
qed

text \<open>
  A codec that encodes a non-empty history as no bytes at all would make an empty snapshot
  ambiguous; CBOR never does.
\<close>

definition never_empty :: "'a cbor \<Rightarrow> bool" where
  "never_empty c \<longleftrightarrow> (\<forall>v. marshal c v \<noteq> Some [])"

interpretation chat_service: snapshot_service "chat_ops K :: ('c, chat) service_ops"
  "\<lambda>s. chat_inv s \<and> chat_codecs_ok K \<and> never_empty (cSnapshot K)" "\<lambda>t. ch_history t = []" ch_history
  for K :: chat_codecs
proof
  fix s t :: chat and b and w :: "'c io" and ctx
  show "ch_history (so_Attach (chat_ops K :: ('c, chat) service_ops) ctx s) = ch_history s"
    by (simp add: chat_ops_def chat_Attach_def)
  show "ch_history s = [] \<Longrightarrow> ch_history (so_Attach (chat_ops K :: ('c, chat) service_ops) ctx s) = []"
    by (simp add: chat_ops_def chat_Attach_def)
  show "ch_history s = [] \<Longrightarrow> ch_history t = [] \<Longrightarrow> ch_history s = ch_history t" by simp
  show "chat_inv s \<and> chat_codecs_ok K \<and> never_empty (cSnapshot K) \<Longrightarrow>
      so_Snapshot (chat_ops K :: ('c, chat) service_ops) s = Inr [] \<Longrightarrow> ch_history t = [] \<Longrightarrow> ch_history t = ch_history s"
    by (auto simp: chat_ops_def chat_Snapshot_def never_empty_def Marshal_def split: if_splits option.splits)
  show "chat_inv s \<and> chat_codecs_ok K \<and> never_empty (cSnapshot K) \<Longrightarrow>
      so_Snapshot (chat_ops K :: ('c, chat) service_ops) s = Inr b \<Longrightarrow> b \<noteq> [] \<Longrightarrow> ch_history t = [] \<Longrightarrow> \<not> io_closed w \<Longrightarrow>
      \<exists>t' w'. so_Restore (chat_ops K) b t w = (t', w', None) \<and> ch_history t' = ch_history s"
    using Snapshot_Restore [of K s b t w] by (simp add: chat_ops_def)
qed

section \<open>Properties\<close>

text \<open>
  The two ways a message reaches the service: in a live frame, or among others in a snapshot.
\<close>

datatype chat_input = Live ParticipantID bytes | Blob bytes

fun chat_feed :: "chat_codecs \<Rightarrow> chat_input list \<Rightarrow> chat \<Rightarrow> 'c io \<Rightarrow> chat \<times> 'c io" where
  "chat_feed K [] s w = (s, w)"
| "chat_feed K (Live frm body # ins) s w =
     (case chat_HandleFrame K frm body s w of (s', w', _) \<Rightarrow> chat_feed K ins s' w')"
| "chat_feed K (Blob b # ins) s w =
     (case chat_Restore K b s w of (s', w', _) \<Rightarrow> chat_feed K ins s' w')"

fun carries :: "chat_codecs \<Rightarrow> chat_input \<Rightarrow> storedMsg list \<Rightarrow> bool" where
  "carries K (Live frm body) ms \<longleftrightarrow> (\<exists>m. ms = [m] \<and> sm_From m = frm \<and> length (utf8 (sm_Text m)) \<le> maxText \<and>
     Marshal (cMsg K) \<lparr>cm_ID = sm_ID m, cm_Text = sm_Text m\<rparr> = Some body)"
| "carries K (Blob b) ms \<longleftrightarrow> Marshal (cSnapshot K) ms = Some b"

lemma restore_all_append:
  "restore_all (ms @ ms') s w = (case restore_all ms s w of (s', w') \<Rightarrow> restore_all ms' s' w')"
  by (induction ms s w rule: restore_all.induct) (auto split: prod.splits bool.splits)

lemma chat_feed_restore:
  assumes "chat_codecs_ok K" "list_all2 (carries K) ins mss"
  shows "chat_feed K ins s w = restore_all (concat mss) s w"
  using assms(2)
proof (induction ins mss arbitrary: s w rule: list_all2_induct)
  case (Cons i ins ms mss)
  show ?case
  proof (cases i)
    case (Live frm body)
    with Cons.hyps(1) obtain m where "ms = [m]" "sm_From m = frm" "length (utf8 (sm_Text m)) \<le> maxText"
      "Marshal (cMsg K) \<lparr>cm_ID = sm_ID m, cm_Text = sm_Text m\<rparr> = Some body" by auto
    with Live Cons.IH show ?thesis
      using HandleFrame_restore [OF assms(1), of m body s w]
      by (auto simp: restore_all_append [of "[m]", simplified] split: prod.split bool.split)
  next
    case (Blob b)
    with Cons.hyps(1) assms(1) have "Body (cSnapshot K) b = Inr ms"
      by (auto simp: chat_codecs_ok_def Marshal_def intro: Body_roundtrip)
    with Blob Cons.IH show ?thesis by (simp add: chat_Restore_def restore_all_append split: prod.split)
  qed
qed simp

text \<open>
  C16. Live and snapshot deliveries add up to one emission each: whatever messages reach a chat
  service in what order, as live frames or inside snapshots, as long as no more than 200
  different ids are involved each of them is emitted exactly once, at its first arrival, and
  the history is the list of them in that order.
\<close>

theorem chat_exactly_once:
  assumes "chat_codecs_ok K" and "list_all2 (carries K) ins mss" and "card (sm_ID ` set (concat mss)) \<le> 200"
    and "ch_history s = []" and "\<not> io_closed w" and "chat_feed K ins s w = (s', w')"
  shows "\<exists>ds. io_events w' = io_events w @ map (\<lambda>m. Message (sm_From m) (sm_Text m)) ds \<and> ch_history s' = ds \<and>
     distinct (map sm_ID ds) \<and> sm_ID ` set ds = sm_ID ` set (concat mss) \<and> ds = first_seen {} (concat mss)"
proof -
  let ?ms = "concat mss"
  have "length (first_seen {} ?ms) = card (set (map sm_ID (first_seen {} ?ms)))"
    by (metis distinct_card distinct_first_seen length_map)
  also have "\<dots> = card (sm_ID ` set ?ms)" by (simp only: set_map set_first_seen Diff_empty)
  finally have "length (first_seen {} ?ms) \<le> historyCap" using assms(3) by (simp add: historyCap_def)
  then show ?thesis
    using restore_all_first_seen [of s ?ms w] assms(4-6) set_first_seen [of "{}" ?ms] distinct_first_seen [of "{}" ?ms]
      chat_feed_restore [OF assms(1,2), of s w] by (auto simp del: set_concat)
qed

text \<open>
  Past the cap a message can be emitted again: with a full history, one new message pushes
  out the oldest, and if that one arrives again it is emitted again.
\<close>

lemma chat_reemits_after_cap:
  assumes "chat_inv s" and "ch_history s = old # rest" and "length (ch_history s) = 200"
    and "sm_ID m \<notin> sm_ID ` set (ch_history s)" and "\<not> io_closed w"
  shows "\<exists>s'. restore_all [m, old] s w =
     (s', w\<lparr>io_events := io_events w @ [Message (sm_From m) (sm_Text m), Message (sm_From old) (sm_Text old)]\<rparr>)"
proof -
  have "sm_ID m \<noteq> sm_ID old" "sm_ID old \<notin> sm_ID ` set rest" "length rest = 199"
    using assms(1-4) by (auto simp: chat_inv_def)
  moreover have r: "chat_record (sm_ID m) (sm_From m) (sm_Text m) s = (s\<lparr>ch_history := rest @ [m]\<rparr>, True)"
    using assms(2-4) by (auto simp: chat_record_def Let_def historyCap_def image_iff)
  ultimately have "\<exists>s'. chat_record (sm_ID old) (sm_From old) (sm_Text old) (s\<lparr>ch_history := rest @ [m]\<rparr>) = (s', True)"
    by (auto simp: chat_record_def Let_def image_iff)
  with r assms(5) show ?thesis by (auto simp: emit_m_def)
qed

section \<open>Closed examples\<close>

definition demo_stored :: "nat \<Rightarrow> storedMsg" where
  "demo_stored n = \<lparr>sm_ID = word_of_nat n, sm_From = 2, sm_Text = [104, 105]\<rparr>"

definition demo_chat :: chat_codecs where
  "demo_chat = \<lparr>cMsg = table_cbor [(\<lparr>cm_ID = 1, cm_Text = [104, 105]\<rparr>, [1])],
     cSnapshot = table_cbor [([demo_stored 1, demo_stored 2], [2])]\<rparr>"

lemma demo_chat_ok: "chat_codecs_ok demo_chat"
  by (simp add: chat_codecs_ok_def demo_chat_def table_cbor_roundtrip)

definition demo_io :: "unit io" where
  "demo_io = \<lparr>io_client = (), io_events = [], io_closed = False\<rparr>"

theorem chat_exactly_once_witness:
  "\<exists>s' w'. chat_feed demo_chat [Live 2 [1], Blob [2]] chat_New demo_io = (s', w') \<and>
     io_events w' = [Message 2 [104, 105], Message 2 [104, 105]] \<and> ch_history s' = [demo_stored 1, demo_stored 2]"
proof -
  obtain s' w' where r: "chat_feed demo_chat [Live 2 [1], Blob [2]] chat_New demo_io = (s', w')" by fastforce
  have c: "list_all2 (carries demo_chat) [Live 2 [1], Blob [2]] [[demo_stored 1], [demo_stored 1, demo_stored 2]]"
    by (simp add: demo_chat_def table_cbor_def Marshal_def demo_stored_def maxText_def utf8_def utf8_rune_def)
  have "first_seen {} (concat [[demo_stored 1], [demo_stored 1, demo_stored 2]]) = [demo_stored 1, demo_stored 2]"
    by (simp add: demo_stored_def)
  with chat_exactly_once [OF demo_chat_ok c _ _ _ r] r show ?thesis
    by (simp add: chat_New_def demo_io_def demo_stored_def card_insert_if)
qed

end
