(* ===== verification/Mux.thy ===== *)
theory Mux
  imports Ctl Chat
begin

text \<open>
  The mux (src/service/mux.go): routing of session events to the control service and the
  registered services, sequence supervision, host migration, and the local commands. The
  routing goroutine is a list of what its select receives: the next local command, a session
  event, or the end of the event stream. The flag of a step tells whether the loop ends.
\<close>

section \<open>Electing a successor\<close>

definition successor_visit :: "ParticipantID \<times> Role \<Rightarrow> ParticipantID \<times> ParticipantID \<Rightarrow> ParticipantID \<times> ParticipantID" where
  "successor_visit = (\<lambda>(pid, r) (member, any).
     (if (r = RoleHost \<or> r = RoleMember) \<and> (member = 0 \<or> pid < member) then pid else member,
      if any = 0 \<or> pid < any then pid else any))"

definition DefaultSuccessorPolicy :: SuccessorPolicy where
  "DefaultSuccessorPolicy candidates =
     (let (member, any) = fold successor_visit candidates (0, 0) in if member \<noteq> 0 then member else any)"

section \<open>Construction\<close>

definition attach_svc :: "Context \<Rightarrow> ('c, 's) svc \<Rightarrow> ('c, 's) svc" where
  "attach_svc ctx s = (case s of CtlSvc \<Rightarrow> CtlSvc | AppSvc ops st \<Rightarrow> AppSvc ops (so_Attach ops ctx st))"

definition attach_all :: "Context \<Rightarrow> ('c, 's) Mux \<Rightarrow> ('c, 's) Mux" where
  "attach_all ctx m =
     m\<lparr>m_services := map (\<lambda>(k, s). (k, attach_svc ctx s)) (m_services m),
       m_ctl := (if CtlSvc \<in> snd ` set (m_services m) then ctl_Attach ctx (m_ctl m) else m_ctl m)\<rparr>"

record ('c, 's) mux_config =
  mc_successor :: SuccessorPolicy
  mc_pendingSvcs :: "(('c, 's) service_ops \<times> 's) list"

definition WithServices :: "(('c, 's) service_ops \<times> 's) list \<Rightarrow> ('c, 's) mux_config \<Rightarrow> ('c, 's) mux_config" where
  "WithServices svcs m = m\<lparr>mc_pendingSvcs := mc_pendingSvcs m @ svcs\<rparr>"

definition WithSuccessor :: "SuccessorPolicy \<Rightarrow> ('c, 's) mux_config \<Rightarrow> ('c, 's) mux_config" where
  "WithSuccessor p m = m\<lparr>mc_successor := p\<rparr>"

text \<open>
  Registration and attachment, service by service: the control service first, then the pending
  ones; a later service with the same id takes the place of an earlier one.
\<close>

definition register_svc :: "Context \<Rightarrow> ('c, 's) service_ops \<times> 's \<Rightarrow> ('c, 's) Mux \<Rightarrow> ('c, 's) Mux" where
  "register_svc ctx = (\<lambda>(ops, st) m.
     m\<lparr>m_services := AList.update (so_ID ops) (AppSvc ops (so_Attach ops ctx st)) (m_services m)\<rparr>)"

definition NewMux :: "'c conn_ops \<Rightarrow> 'c \<Rightarrow> (('c, 's) mux_config \<Rightarrow> ('c, 's) mux_config) list \<Rightarrow> ('c, 's) Mux" where
  "NewMux C c opts =
     (let cfg = fold (\<lambda>opt g. opt g) opts \<lparr>mc_successor = DefaultSuccessorPolicy, mc_pendingSvcs = []\<rparr>;
          ctx = conn_context C c
      in fold (register_svc ctx) (mc_pendingSvcs cfg)
           \<lparr>m_io = \<lparr>io_client = c, io_events = [], io_closed = False\<rparr>, m_services = [(CtlID, CtlSvc)],
            m_ctl = ctl_Attach ctx newCtl, m_cmds = [], m_lastSeq = (\<lambda>_. 0), m_successor = mc_successor cfg,
            m_reconnectable = False\<rparr>)"

definition SetReconnectable :: "('c, 's) Mux \<Rightarrow> ('c, 's) Mux" where
  "SetReconnectable m = m\<lparr>m_reconnectable := True\<rparr>"

definition mux_shutdown :: "('c, 's) Mux \<Rightarrow> ('c, 's) Mux" where
  "mux_shutdown m = m\<lparr>m_io := (m_io m)\<lparr>io_closed := True\<rparr>\<rparr>"

definition Rebind :: "'c conn_ops \<Rightarrow> 'c \<Rightarrow> ('c, 's) Mux \<Rightarrow> ('c, 's) Mux" where
  "Rebind C c m = attach_all (conn_context C c) (m\<lparr>m_io := (m_io m)\<lparr>io_client := c\<rparr>\<rparr>)"

section \<open>Local commands\<close>

definition cmdsCap :: nat where "cmdsCap = 8"

definition post_cmd :: "mux_cmd \<Rightarrow> ('c, 's) Mux \<Rightarrow> ('c, 's) Mux" where
  "post_cmd cmd m =
     (case chan_send cmdsCap (m_cmds m) cmd of None \<Rightarrow> m | Some q \<Rightarrow> m\<lparr>m_cmds := q\<rparr>)"

definition SetName :: "runes \<Rightarrow> ('c, 's) Mux \<Rightarrow> ('c, 's) Mux" where "SetName name = post_cmd (CmdName name)"
definition SetEndpoint :: "string \<Rightarrow> ('c, 's) Mux \<Rightarrow> ('c, 's) Mux" where "SetEndpoint ep = post_cmd (CmdEndpoint ep)"
definition SetPushKey :: "string \<Rightarrow> ('c, 's) Mux \<Rightarrow> ('c, 's) Mux" where "SetPushKey key = post_cmd (CmdPushKey key)"

definition run_cmd :: "'c conn_ops \<Rightarrow> ctlMsg cbor \<Rightarrow> mux_cmd \<Rightarrow> ('c, 's) Mux \<Rightarrow> ('c, 's) Mux" where
  "run_cmd C cc cmd m =
     (case cmd of CmdName n \<Rightarrow> setName C cc n m | CmdEndpoint ep \<Rightarrow> setEndpoint C cc ep m
      | CmdPushKey key \<Rightarrow> setPushKey C cc key m)"

section \<open>Routing\<close>

text \<open>One service's reaction to a frame.\<close>

definition svc_HandleFrame :: "'c conn_ops \<Rightarrow> ctlMsg cbor \<Rightarrow> string \<Rightarrow> ('c, 's) svc \<Rightarrow> ParticipantID \<Rightarrow> bytes \<Rightarrow>
    ('c, 's) Mux \<Rightarrow> ('c, 's) Mux \<times> svc_error option" where
  "svc_HandleFrame C cc sid s frm body m =
     (case s of
        CtlSvc \<Rightarrow> ctl_HandleFrame C cc frm body m
      | AppSvc ops st \<Rightarrow>
          (case so_HandleFrame ops frm body st (m_io m) of
             (st', w, e) \<Rightarrow> (m\<lparr>m_io := w, m_services := AList.update sid (AppSvc ops st') (m_services m)\<rparr>, e)))"

definition handleFrame :: "'c conn_ops \<Rightarrow> ctlMsg cbor \<Rightarrow> ParticipantID \<Rightarrow> Envelope \<Rightarrow> ('c, 's) Mux \<Rightarrow> ('c, 's) Mux" where
  "handleFrame C cc frm env m =
     (case map_of (m_services m) (env_ServiceID env) of
        None \<Rightarrow> m
      | Some s \<Rightarrow>
          (let k = (frm, env_ServiceID env);
               last = m_lastSeq m k;
               m1 = (if env_Seq env \<noteq> last + 1
                     then mux_emit (Desync frm (env_ServiceID env) (last + 1) (env_Seq env)) m else m);
               m2 = m1\<lparr>m_lastSeq := (m_lastSeq m1)(k := env_Seq env)\<rparr>
           in case svc_HandleFrame C cc (env_ServiceID env) s frm (env_Body env) m2 of
                (m3, Some err) \<Rightarrow> mux_emit (ServiceError frm (env_ServiceID env) err) m3
              | (m3, None) \<Rightarrow> m3))"

text \<open>The observers among the services, in the order of the map.\<close>

definition observe_keyed :: "'c conn_ops \<Rightarrow> ctlMsg cbor \<Rightarrow> ParticipantID \<Rightarrow> Role \<Rightarrow> string \<Rightarrow> ('c, 's) Mux \<Rightarrow> ('c, 's) Mux" where
  "observe_keyed C cc pid role sid m =
     (case map_of (m_services m) sid of
        Some CtlSvc \<Rightarrow> ctl_MemberKeyed C cc pid role m
      | Some (AppSvc ops st) \<Rightarrow>
          (case so_MemberObserver ops of
             Some (keyed, left) \<Rightarrow>
               (case keyed pid role st (m_io m) of
                  (st', w) \<Rightarrow> m\<lparr>m_io := w, m_services := AList.update sid (AppSvc ops st') (m_services m)\<rparr>)
           | None \<Rightarrow> m)
      | None \<Rightarrow> m)"

definition observe_left :: "'c conn_ops \<Rightarrow> ctlMsg cbor \<Rightarrow> ParticipantID \<Rightarrow> string \<Rightarrow> ('c, 's) Mux \<Rightarrow> ('c, 's) Mux" where
  "observe_left C cc pid sid m =
     (case map_of (m_services m) sid of
        Some CtlSvc \<Rightarrow> ctl_MemberLeft C cc pid m
      | Some (AppSvc ops st) \<Rightarrow>
          (case so_MemberObserver ops of
             Some (keyed, left) \<Rightarrow>
               (case left pid st (m_io m) of
                  (st', w) \<Rightarrow> m\<lparr>m_io := w, m_services := AList.update sid (AppSvc ops st') (m_services m)\<rparr>)
           | None \<Rightarrow> m)
      | None \<Rightarrow> m)"

definition observeMembers :: "(string \<Rightarrow> ('c, 's) Mux \<Rightarrow> ('c, 's) Mux) \<Rightarrow> ('c, 's) Mux \<Rightarrow> ('c, 's) Mux" where
  "observeMembers fn m = fold fn (map fst (m_services m)) m"

definition promote_svc :: "string \<Rightarrow> ('c, 's) Mux \<Rightarrow> ('c, 's) Mux" where
  "promote_svc sid m =
     (case map_of (m_services m) sid of
        Some (AppSvc ops st) \<Rightarrow>
          (case so_OnPromote ops of
             Some f \<Rightarrow>
               (case f st (m_io m) of
                  (st', w) \<Rightarrow> m\<lparr>m_io := w, m_services := AList.update sid (AppSvc ops st') (m_services m)\<rparr>)
           | None \<Rightarrow> m)
      | _ \<Rightarrow> m)"

definition set_client_m :: "'c \<Rightarrow> ('c, 's) Mux \<Rightarrow> ('c, 's) Mux" where
  "set_client_m c m = m\<lparr>m_io := (m_io m)\<lparr>io_client := c\<rparr>\<rparr>"

definition maybeMigrate :: "'c conn_ops \<Rightarrow> ctlMsg cbor \<Rightarrow> ParticipantID \<Rightarrow> ('c, 's) Mux \<Rightarrow> ('c, 's) Mux" where
  "maybeMigrate C cc left m =
     (case cn_Promoter C of
        None \<Rightarrow> m
      | Some P \<Rightarrow>
          if left \<noteq> cn_HostID C (io_client (m_io m)) then m
          else
            (let successor = electSuccessor left m
             in if successor = 0 then m
                else
                  (let c = io_client (m_io m);
                       amNew = (successor = cn_Self C c);
                       c1 = (if amNew then pr_RotateForMigration P (pr_BecomeHost P c) else pr_SetHostID P successor c);
                       m1 = attach_all (conn_context C c1) (set_client_m c1 m)
                   in if amNew
                      then
                        (let m2 = fold promote_svc (map fst (m_services m1)) m1;
                             m3 = assumeHost C cc left m2;
                             m4 = set_client_m (fst (pr_ClaimHost P (io_client (m_io m3)))) m3
                         in mux_emit (Promoted (cn_Self C (io_client (m_io m4)))) m4)
                      else set_client_m (fst (pr_RekeyWithNewHost P (io_client (m_io m1)))) m1)))"

definition dispatch :: "'c conn_ops \<Rightarrow> ctlMsg cbor \<Rightarrow> Event \<Rightarrow> ('c, 's) Mux \<Rightarrow> ('c, 's) Mux \<times> bool" where
  "dispatch C cc ev m =
     (case ev of
        Frame frm env \<Rightarrow> (handleFrame C cc frm env m, False)
      | MemberKeyed pid role \<Rightarrow>
          (mux_emit (SessionEvent ev) (observeMembers (observe_keyed C cc pid role) m), False)
      | MemberLeft pid \<Rightarrow>
          (maybeMigrate C cc pid (mux_emit (SessionEvent ev) (observeMembers (observe_left C cc pid) m)), False)
      | Closed reason \<Rightarrow> (mux_emit (SessionEvent ev) m, True)
      | MemberJoined pid \<Rightarrow> (mux_emit (SessionEvent ev) m, False))"

datatype run_input = TakeCmd | TakeEvent Event | StreamEnd

fun mux_loop :: "'c conn_ops \<Rightarrow> ctlMsg cbor \<Rightarrow> run_input list \<Rightarrow> ('c, 's) Mux \<Rightarrow> ('c, 's) Mux \<times> bool" where
  "mux_loop C cc [] m = (m, False)"
| "mux_loop C cc (TakeCmd # ins) m =
     (case m_cmds m of
        [] \<Rightarrow> mux_loop C cc ins m
      | cmd # rest \<Rightarrow> mux_loop C cc ins (run_cmd C cc cmd (m\<lparr>m_cmds := rest\<rparr>)))"
| "mux_loop C cc (TakeEvent ev # ins) m =
     (case dispatch C cc ev m of (m', True) \<Rightarrow> (m', True) | (m', False) \<Rightarrow> mux_loop C cc ins m')"
| "mux_loop C cc (StreamEnd # ins) m = (m, True)"

definition mux_run :: "'c conn_ops \<Rightarrow> ctlMsg cbor \<Rightarrow> bool \<Rightarrow> run_input list \<Rightarrow> ('c, 's) Mux \<Rightarrow> ('c, 's) Mux \<times> bool" where
  "mux_run C cc requestSnap ins m =
     (let m0 = (if requestSnap \<and> cn_Role C (io_client (m_io m)) \<noteq> RoleHost then requestSnapshot C cc m else m)
      in case mux_loop C cc ins m0 of
           (m1, False) \<Rightarrow> (m1, False)
         | (m1, True) \<Rightarrow> (if m_reconnectable m1 then m1 else mux_shutdown m1, True))"

end
