(* ===== verification/Migration.thy ===== *)
theory Migration
  imports Mux
begin

text \<open>
  Host migration at the level of the mux: the successor every end computes from its roster, and
  what a departure of the host does to the connection of each survivor.
\<close>

section \<open>Electing a successor\<close>

definition least_id :: "ParticipantID set \<Rightarrow> ParticipantID" where
  "least_id A = (if A = {} then 0 else Min A)"

lemma least_id_insert:
  assumes "finite A" "0 \<notin> A" "p \<noteq> 0"
  shows "least_id (insert p A) = (if least_id A = 0 \<or> p < least_id A then p else least_id A)"
proof (cases "A = {}")
  case False
  then have "Min A \<noteq> 0" using assms Min_in by metis
  moreover have "Min (insert p A) = min p (Min A)" using False assms(1) by simp
  ultimately show ?thesis using False unfolding least_id_def min_def by (simp del: Min_insert add: less_le)
qed (simp add: least_id_def)

definition seated :: "(ParticipantID \<times> Role) set \<Rightarrow> ParticipantID set" where
  "seated R = {p. (p, RoleHost) \<in> R \<or> (p, RoleMember) \<in> R}"

lemma seated_insert:
  "seated (insert (p, r) R) = (if r = RoleHost \<or> r = RoleMember then insert p (seated R) else seated R)"
  by (auto simp: seated_def)

lemma seated_subset: "seated R \<subseteq> fst ` R"
  by (force simp: seated_def)

lemma successor_scan:
  "0 \<notin> fst ` set cs \<Longrightarrow> finite R \<Longrightarrow> 0 \<notin> fst ` R \<Longrightarrow>
     fold successor_visit cs (least_id (seated R), least_id (fst ` R)) =
       (least_id (seated (set cs \<union> R)), least_id (fst ` (set cs \<union> R)))"
proof (induction cs arbitrary: R)
  case (Cons c cs)
  obtain p r where [simp]: "c = (p, r)" by (cases c)
  have p: "p \<noteq> 0" using Cons.prems(1) by auto
  have f: "finite (fst ` R)" "finite (seated R)" "0 \<notin> seated R"
    using Cons.prems seated_subset [of R] finite_subset by blast+
  have "successor_visit c (least_id (seated R), least_id (fst ` R)) =
      (least_id (seated (insert c R)), least_id (fst ` insert c R))"
    using least_id_insert [OF f(1) Cons.prems(3) p] least_id_insert [OF f(2,3) p]
    by (auto simp: successor_visit_def seated_insert)
  moreover have "0 \<notin> fst ` insert c R" using Cons.prems(3) p by simp
  ultimately show ?case using Cons.IH [of "insert c R"] Cons.prems by simp
qed simp

lemma finite_seated: "finite R \<Longrightarrow> finite (seated R)"
  using seated_subset [of R] finite_subset by blast

lemma DefaultSuccessorPolicy_eq:
  assumes "0 \<notin> fst ` set cs"
  shows "DefaultSuccessorPolicy cs =
     (if seated (set cs) \<noteq> {} then Min (seated (set cs)) else if cs \<noteq> [] then Min (fst ` set cs) else 0)"
proof -
  have scan: "fold successor_visit cs (0, 0) = (least_id (seated (set cs)), least_id (fst ` set cs))"
    using successor_scan [OF assms, of "{}"] by (simp add: least_id_def seated_def)
  have "Min (seated (set cs)) \<noteq> 0" if "seated (set cs) \<noteq> {}"
    using assms seated_subset [of "set cs"] Min_in [OF finite_seated that] by (metis List.finite_set subsetD)
  then show ?thesis
    unfolding DefaultSuccessorPolicy_def scan by (auto simp: least_id_def Let_def)
qed

lemma DefaultSuccessorPolicy_in:
  assumes "0 \<notin> fst ` set cs" "cs \<noteq> []"
  shows "DefaultSuccessorPolicy cs \<in> fst ` set cs"
proof (cases "seated (set cs) = {}")
  case True
  then show ?thesis using DefaultSuccessorPolicy_eq [OF assms(1)] assms(2) Min_in [of "fst ` set cs"] by auto
next
  case False
  then show ?thesis
    using DefaultSuccessorPolicy_eq [OF assms(1)] Min_in [OF finite_seated False] seated_subset [of "set cs"]
    by (metis List.finite_set subsetD)
qed

lemma DefaultSuccessorPolicy_set:
  "0 \<notin> fst ` set cs \<Longrightarrow> set cs = set cs' \<Longrightarrow> DefaultSuccessorPolicy cs = DefaultSuccessorPolicy cs'"
  using DefaultSuccessorPolicy_eq [of cs] DefaultSuccessorPolicy_eq [of cs'] by (metis set_empty)

text \<open>
  The default successor is determined by who is in the roster, not by the order of a map:
  it is the lowest id among hosts and members, or the lowest of all ids if there is none, or 0
  for an empty roster, so all ends with the same roster elect the same successor.
\<close>

theorem DefaultSuccessorPolicy_lowest:
  assumes "0 \<notin> fst ` set cs"
  shows "DefaultSuccessorPolicy cs =
     (let ms = {p. (p, RoleHost) \<in> set cs \<or> (p, RoleMember) \<in> set cs}
      in if ms \<noteq> {} then Min ms else if cs \<noteq> [] then Min (fst ` set cs) else 0)"
  unfolding DefaultSuccessorPolicy_eq [OF assms] Let_def seated_def ..

section \<open>The state a service call leaves alone\<close>

lemma io_mux_emit [simp]: "io_client (m_io (mux_emit e m)) = io_client (m_io m)"
  by (simp add: mux_emit_def emit_m_def)

lemma mux_emit_fields [simp]:
  "m_services (mux_emit e m) = m_services m" "m_ctl (mux_emit e m) = m_ctl m"
  "m_successor (mux_emit e m) = m_successor m" "io_closed (m_io (mux_emit e m)) = io_closed (m_io m)"
  by (simp_all add: mux_emit_def emit_m_def)

lemma ctl_Broadcast_fields:
  "ctl_Broadcast C b m = (m', e) \<Longrightarrow> m_services m' = m_services m \<and> m_ctl m' = m_ctl m \<and>
     io_events (m_io m') = io_events (m_io m) \<and> io_closed (m_io m') = io_closed (m_io m) \<and> m_lastSeq m' = m_lastSeq m"
  by (auto simp: ctl_Broadcast_def io_Broadcast_def split: prod.splits)

lemma ctl_SendTo_fields:
  "ctl_SendTo C to b m = (m', e) \<Longrightarrow> m_services m' = m_services m \<and> m_ctl m' = m_ctl m \<and>
     io_events (m_io m') = io_events (m_io m) \<and> io_closed (m_io m') = io_closed (m_io m) \<and> m_lastSeq m' = m_lastSeq m"
  by (auto simp: ctl_SendTo_def io_SendTo_def split: prod.splits)

lemma announce_services [simp]: "m_services (announce C cc m) = m_services m"
  and announce_ctl [simp]: "m_ctl (announce C cc m) = m_ctl m"
  using ctl_Broadcast_fields [of C _ m, OF surjective_pairing]
  by (auto simp: announce_def Let_def split: option.splits)

context connection
begin

lemma context_ctl_Broadcast:
  "ctl_Broadcast C b m = (m', e) \<Longrightarrow> conn_context C (io_client (m_io m')) = conn_context C (io_client (m_io m))"
  by (auto simp: ctl_Broadcast_def split: prod.splits dest: context_Broadcast)

lemma context_announce: "conn_context C (io_client (m_io (announce C cc m))) = conn_context C (io_client (m_io m))"
  using context_ctl_Broadcast [of _ m, OF surjective_pairing]
  by (auto simp: announce_def Let_def split: option.splits)

lemma context_assumeHost: "conn_context C (io_client (m_io (assumeHost C cc l m))) = conn_context C (io_client (m_io m))"
  by (simp add: assumeHost_def Let_def context_announce)

lemma context_set_client:
  "conn_context C c = conn_context C (io_client (m_io m)) \<Longrightarrow>
     conn_context C (io_client (m_io (set_client_m c m))) = conn_context C (io_client (m_io m))"
  by (simp add: set_client_m_def)

lemma context_ClaimHost:
  "cn_Promoter C = Some P \<Longrightarrow> conn_context C (fst (pr_ClaimHost P c)) = conn_context C c"
  using promoter_keeps(1) [of P c, OF _ surjective_pairing] by (simp add: conn_context_def)

lemma context_Rekey:
  "cn_Promoter C = Some P \<Longrightarrow> conn_context C (fst (pr_RekeyWithNewHost P c)) = conn_context C c"
  using promoter_keeps(2) [of P c, OF _ surjective_pairing] by (simp add: conn_context_def)

end

text \<open>Services without the Promotable interface, like those of this repository.\<close>

definition no_promotables :: "('c, 's) Mux \<Rightarrow> bool" where
  "no_promotables m \<longleftrightarrow> (\<forall>(k, s) \<in> set (m_services m). case s of CtlSvc \<Rightarrow> True | AppSvc ops _ \<Rightarrow> so_OnPromote ops = None)"

lemma promote_svc_None: "no_promotables m \<Longrightarrow> promote_svc k m = m"
  by (auto simp: promote_svc_def no_promotables_def split: option.splits svc.splits dest!: map_of_SomeD)

lemma fold_promote_None: "no_promotables m \<Longrightarrow> fold promote_svc ks m = m"
  by (induction ks) (simp_all add: promote_svc_None)

lemma no_promotables_attach [simp]: "no_promotables (attach_all ctx m) = no_promotables m"
  by (auto simp: no_promotables_def attach_all_def attach_svc_def split: svc.splits)

lemma no_promotables_set_client [simp]: "no_promotables (set_client_m c m) = no_promotables m"
  by (simp add: no_promotables_def set_client_m_def)

lemma io_attach_all [simp]: "m_io (attach_all ctx m) = m_io m"
  by (simp add: attach_all_def)

lemma io_set_client [simp]: "io_client (m_io (set_client_m c m)) = c"
  by (simp add: set_client_m_def)

context connection
begin

lemma maybeMigrate_context:
  assumes "cn_Promoter C = Some P" "cn_HostID C (io_client (m_io m)) = left" "electSuccessor left m = s" "s \<noteq> 0"
    "no_promotables m" "cn_Role C (io_client (m_io m)) \<noteq> RoleHost"
  shows "conn_context C (io_client (m_io (maybeMigrate C cc left m))) =
     \<lparr>cx_Self = cn_Self C (io_client (m_io m)), cx_HostID = s, cx_Host = (s = cn_Self C (io_client (m_io m)))\<rparr>"
proof (cases "s = cn_Self C (io_client (m_io m))")
  case True
  let ?c = "pr_RotateForMigration P (pr_BecomeHost P (io_client (m_io m)))"
  let ?m = "attach_all (conn_context C ?c) (set_client_m ?c m)"
  have f: "fold promote_svc (map fst (m_services ?m)) ?m = ?m" using assms(5) by (intro fold_promote_None) simp
  let ?m3 = "assumeHost C cc left ?m"
  have "conn_context C (io_client (m_io (maybeMigrate C cc left m))) = conn_context C (fst (pr_ClaimHost P (io_client (m_io ?m3))))"
    using assms(1-4) True f by (simp add: maybeMigrate_def Let_def)
  also have "\<dots> = conn_context C ?c" by (simp add: context_ClaimHost [OF assms(1)] context_assumeHost)
  finally show ?thesis using True context_promoted [OF assms(1)] by simp
next
  case False
  then have "conn_context C (io_client (m_io (maybeMigrate C cc left m))) = conn_context C (pr_SetHostID P s (io_client (m_io m)))"
    using assms(1-4) by (simp add: maybeMigrate_def Let_def context_Rekey)
  then show ?thesis using followed [OF assms(1)] assms(6) False by (simp add: conn_context_def)
qed

end

section \<open>Migration across ends\<close>

definition plain_services :: "('c, 's) Mux \<Rightarrow> bool" where
  "plain_services m \<longleftrightarrow> no_promotables m \<and>
     (\<forall>(k, s) \<in> set (m_services m). case s of CtlSvc \<Rightarrow> True | AppSvc ops _ \<Rightarrow> so_MemberObserver ops = None)"

lemma observe_left_plain:
  "plain_services m \<Longrightarrow> \<not> cx_Host (ctl_Ctx m) \<Longrightarrow> observe_left C cc p k m = m"
  by (auto simp: observe_left_def plain_services_def ctl_MemberLeft_def split: option.splits svc.splits dest!: map_of_SomeD)

lemma observeMembers_plain:
  "plain_services m \<Longrightarrow> \<not> cx_Host (ctl_Ctx m) \<Longrightarrow> observeMembers (observe_left C cc p) m = m"
proof -
  assume "plain_services m" "\<not> cx_Host (ctl_Ctx m)"
  then have "fold (observe_left C cc p) ks m = m" for ks
    by (induction ks) (simp_all add: observe_left_plain)
  then show ?thesis by (simp add: observeMembers_def)
qed

lemma dispatch_left_plain:
  "plain_services m \<Longrightarrow> \<not> cx_Host (ctl_Ctx m) \<Longrightarrow>
     dispatch C cc (MemberLeft p) m = (maybeMigrate C cc p (mux_emit (SessionEvent (MemberLeft p)) m), False)"
  by (simp add: dispatch_def observeMembers_plain)

lemma electSuccessor_mux_emit [simp]: "electSuccessor l (mux_emit e m) = electSuccessor l m"
  by (simp add: electSuccessor_def)

lemma no_promotables_mux_emit [simp]: "no_promotables (mux_emit e m) = no_promotables m"
  by (simp add: no_promotables_def)

lemma electSuccessor_default:
  assumes "m_successor m = DefaultSuccessorPolicy" "0 \<notin> fst ` set (ctl_roster (m_ctl m))"
    "\<exists>p \<in> fst ` set (ctl_roster (m_ctl m)). p \<noteq> left"
  shows "electSuccessor left m = DefaultSuccessorPolicy (filter (\<lambda>(p, _). p \<noteq> left) (ctl_roster (m_ctl m)))"
    and "electSuccessor left m \<in> fst ` set (ctl_roster (m_ctl m)) - {left, 0}"
proof -
  let ?cs = "filter (\<lambda>(p, _). p \<noteq> left) (ctl_roster (m_ctl m))"
  have "0 \<notin> fst ` set ?cs" "?cs \<noteq> []" using assms(2,3) by (auto simp: filter_empty_conv)
  then have "DefaultSuccessorPolicy ?cs \<in> fst ` set ?cs" by (rule DefaultSuccessorPolicy_in)
  then show "electSuccessor left m = DefaultSuccessorPolicy ?cs"
    and "electSuccessor left m \<in> fst ` set (ctl_roster (m_ctl m)) - {left, 0}"
    using assms(1,2) by (force simp: electSuccessor_def Let_def)+
qed

text \<open>
  C7. Survivors agree on the new host without talking to each other: when two ends whose
  rosters have the same entries read that the host has left, both end with the same host id, a
  remaining roster entry, and the one whose own id it is, and only that one, holds the host's
  role.
\<close>

theorem migration_agrees:
  fixes a b :: "('p live, 's) Mux"
  assumes "set (ctl_roster (m_ctl a)) = set (ctl_roster (m_ctl b))" and "0 \<notin> fst ` set (ctl_roster (m_ctl a))"
    and "\<exists>p \<in> fst ` set (ctl_roster (m_ctl a)). p \<noteq> left"
    and "\<forall>m \<in> {a, b}. m_successor m = DefaultSuccessorPolicy \<and> plain_services m \<and> \<not> cx_Host (ctl_Ctx m) \<and>
       c_hostID (fst (io_client (m_io m))) = left \<and> c_role (fst (io_client (m_io m))) \<noteq> RoleHost"
    and "dispatch (client_conn L cb rs) cc (MemberLeft left) a = (a', stopa)"
    and "dispatch (client_conn L cb rs') cc (MemberLeft left) b = (b', stopb)"
  shows "\<exists>s \<in> fst ` set (ctl_roster (m_ctl a)) - {left}. \<forall>(m, m') \<in> {(a, a'), (b, b')}.
     c_hostID (fst (io_client (m_io m'))) = s \<and> c_self (fst (io_client (m_io m'))) = c_self (fst (io_client (m_io m))) \<and>
     (c_role (fst (io_client (m_io m'))) = RoleHost \<longleftrightarrow> c_self (fst (io_client (m_io m))) = s)"
proof -
  have after: "c_hostID (fst (io_client (m_io m'))) = electSuccessor left m \<and>
      c_self (fst (io_client (m_io m'))) = c_self (fst (io_client (m_io m))) \<and>
      (c_role (fst (io_client (m_io m'))) = RoleHost \<longleftrightarrow> c_self (fst (io_client (m_io m))) = electSuccessor left m)"
    if m: "m \<in> {a, b}" "dispatch (client_conn L cb q) cc (MemberLeft left) m = (m', stop)" "electSuccessor left m \<noteq> 0" for m m' stop q
  proof -
    let ?C = "client_conn L cb q" and ?m = "mux_emit (SessionEvent (MemberLeft left)) m"
    have h: "plain_services m" "\<not> cx_Host (ctl_Ctx m)" "cn_HostID ?C (io_client (m_io ?m)) = left"
      "cn_Role ?C (io_client (m_io ?m)) \<noteq> RoleHost" "no_promotables ?m"
      using assms(4) m(1) by (auto simp: client_conn_def plain_services_def split: prod.split)
    have m': "m' = maybeMigrate ?C cc left ?m" using dispatch_left_plain [OF h(1,2), of ?C cc left] m(2) by simp
    have P: "cn_Promoter ?C = Some (client_promoter L cb q)" by (simp add: client_conn_def)
    from session_conn.maybeMigrate_context [OF P h(3) _ m(3) h(5,4), of cc] show ?thesis
      by (auto simp: m' conn_context_def client_conn_def split: prod.splits)
  qed
  let ?cs = "\<lambda>m :: ('p live, 's) Mux. filter (\<lambda>(p, _). p \<noteq> left) (ctl_roster (m_ctl m))"
  have el: "electSuccessor left m = DefaultSuccessorPolicy (?cs m)"
    "electSuccessor left m \<in> fst ` set (ctl_roster (m_ctl m)) - {left, 0}" if "m \<in> {a, b}" for m
  proof -
    have "m_successor m = DefaultSuccessorPolicy" "0 \<notin> fst ` set (ctl_roster (m_ctl m))"
      "\<exists>p \<in> fst ` set (ctl_roster (m_ctl m)). p \<noteq> left"
      using assms(1-4) that by auto
    from electSuccessor_default [OF this] show "electSuccessor left m = DefaultSuccessorPolicy (?cs m)"
      "electSuccessor left m \<in> fst ` set (ctl_roster (m_ctl m)) - {left, 0}" by blast+
  qed
  have "0 \<notin> fst ` set (?cs a)" "set (?cs a) = set (?cs b)" using assms(1,2) by auto
  then have "electSuccessor left a = electSuccessor left b" using el DefaultSuccessorPolicy_set by fastforce
  with el(2) [of a] after [OF _ assms(5)] after [OF _ assms(6)] show ?thesis by (intro bexI [of _ "electSuccessor left a"]) auto
qed

end
