(* ===== verification/CatchUp.thy ===== *)
theory CatchUp
  imports Migration
begin

text \<open>
  What the control service hands over: the host's roster to its members, and the state of the
  services to a late joiner.
\<close>

section \<open>The roster\<close>

lemma ctl_roundtrip:
  "ctl_codec_ok cc \<Longrightarrow> Marshal cc msg = Some body \<Longrightarrow> \<exists>msg'. Body cc body = Inr msg' \<and> same_msg msg msg'"
  by (auto simp: ctl_codec_ok_def Marshal_def Body_def split: option.splits) (metis option.inject option.distinct(1))

lemma map_of_member_entries:
  "map_of (member_entries roster vals) =
     (\<lambda>p. if p \<in> fst ` set roster \<and> map_of vals p \<noteq> Some [] then map_of vals p else None)"
proof (rule ext)
  show "map_of (member_entries roster vals) p =
     (if p \<in> fst ` set roster \<and> map_of vals p \<noteq> Some [] then map_of vals p else None)" for p
    by (induction roster) (auto simp: member_entries_def map_filter_simps split: option.splits if_splits)
qed

lemma fst_member_entries: "fst ` set (member_entries roster vals) \<subseteq> fst ` set roster"
  by (induction roster) (auto simp: member_entries_def map_filter_simps split: option.splits if_splits)

lemma wf_member_entries: "wf_map roster \<Longrightarrow> wf_map (member_entries roster vals)"
proof (induction roster)
  case (Cons x roster)
  then show ?case using fst_member_entries [of roster vals]
    by (cases x) (auto simp: member_entries_def wf_map_def map_filter_simps split: option.splits)
qed (simp add: member_entries_def)

lemma map_of_maps_Copy: "map_of (maps_Copy dst src) = map_of dst ++ map_of (rev src)"
  by (induction src arbitrary: dst) (auto simp: maps_Copy_def update_conv' map_add_assoc fun_eq_iff map_add_def split: option.split)

lemma maps_Copy_same: "wf_map m \<Longrightarrow> map_of (maps_Copy [] m) = map_of m"
  using map_of_inject_set [of "rev m" m] by (simp add: map_of_maps_Copy wf_map_def rev_map [symmetric])

text \<open>
  C15. Announcing hands over the host's roster: what a member adopts from an announce of the host
  is the host's roster itself, with the same host-set attribute, and of names and member
  attributes exactly the non-blank ones of current members. An announce from anybody but the
  host changes nothing and is reported as an error.
\<close>

theorem announce_transfers_roster:
  assumes "ctl_codec_ok cc" and "wf_map (ctl_roster (m_ctl h))"
    and "Marshal cc (announce_msg h) = Some body" and "ctl_HandleFrame C cc frm body m = (m', e)"
  shows "if frm = cx_HostID (ctl_Ctx m)
     then e = None \<and> map_of (ctl_roster (m_ctl m')) = map_of (ctl_roster (m_ctl h)) \<and>
       ctl_pushKey (m_ctl m') = ctl_pushKey (m_ctl h) \<and>
       map_of (ctl_names (m_ctl m')) = (\<lambda>p. if p \<in> fst ` set (ctl_roster (m_ctl h)) \<and>
         map_of (ctl_names (m_ctl h)) p \<noteq> Some [] then map_of (ctl_names (m_ctl h)) p else None) \<and>
       map_of (ctl_endpoints (m_ctl m')) = (\<lambda>p. if p \<in> fst ` set (ctl_roster (m_ctl h)) \<and>
         map_of (ctl_endpoints (m_ctl h)) p \<noteq> Some [] then map_of (ctl_endpoints (m_ctl h)) p else None)
     else m' = m \<and> e = Some (AnnounceFromNonHost frm)"
proof -
  let ?c = "m_ctl h"
  from ctl_roundtrip [OF assms(1,3)] obtain msg where
    msg: "Body cc body = Inr msg" "same_msg (announce_msg h) msg" by blast
  have k: "ct_Kind msg = ctlKindAnnounce" "ct_PushKey msg = ctl_pushKey ?c"
    and s: "mset (ct_Roster msg) = mset (ctl_roster ?c)"
      "mset (ct_Names msg) = mset (member_entries (ctl_roster ?c) (ctl_names ?c))"
      "mset (ct_Endpoints msg) = mset (member_entries (ctl_roster ?c) (ctl_endpoints ?c))"
    using msg(2) by (simp_all add: same_msg_def announce_msg_def zero_ctlMsg_def Let_def)
  have "map_of (ct_Roster msg) = map_of (ctl_roster ?c)"
    "map_of (ct_Names msg) = map_of (member_entries (ctl_roster ?c) (ctl_names ?c))"
    "map_of (ct_Endpoints msg) = map_of (member_entries (ctl_roster ?c) (ctl_endpoints ?c))"
    using map_of_permute [OF _ s(1)] map_of_permute [OF _ s(2)] map_of_permute [OF _ s(3)]
      assms(2) wf_member_entries [OF assms(2)] by blast+
  note maps = this [unfolded map_of_member_entries]
  show ?thesis
    using assms(4) msg(1) k
    by (simp add: ctl_HandleFrame_def handleAnnounce_def Let_def mux_emit_def split: if_splits) (auto simp: maps)
qed

section \<open>Catching up\<close>

text \<open>The services of an end that runs the control service and chat.\<close>

definition chat_only :: "chat_codecs \<Rightarrow> chat \<Rightarrow> ('c, chat) Mux \<Rightarrow> bool" where
  "chat_only K s m \<longleftrightarrow> wf_map (m_services m) \<and> fst ` set (m_services m) = {CtlID, chat_ID} \<and>
     map_of (m_services m) chat_ID = Some (AppSvc (chat_ops K) s)"

lemma snapshot_blobs_chat:
  assumes "chat_only K s m" "chat_Snapshot K s = Inr b"
  shows "snapshot_blobs (m_services m) = Inr (if b = [] then [] else [(chat_ID, b)])"
proof -
  have "snapshot_blobs l = Inr (if b = [] \<or> chat_ID \<notin> fst ` set l then [] else [(chat_ID, b)])"
    if "wf_map l" "fst ` set l \<subseteq> {CtlID, chat_ID}" "chat_ID \<in> fst ` set l \<longrightarrow> map_of l chat_ID = Some (AppSvc (chat_ops K) s)" for l :: "(string \<times> ('a, chat) svc) list"
    using that
  proof (induction l)
    case (Cons x l)
    obtain k v where [simp]: "x = (k, v)" by (cases x)
    have "snapshot_blobs l = Inr (if b = [] \<or> chat_ID \<notin> fst ` set l then [] else [(chat_ID, b)])"
      using Cons by (auto simp: wf_map_def split: if_splits)
    moreover have "k = chat_ID \<Longrightarrow> v = AppSvc (chat_ops K) s \<and> chat_ID \<notin> fst ` set l"
      using Cons.prems by (auto simp: wf_map_def)
    ultimately show ?case using Cons.prems assms(2)
      by (auto simp: chat_ops_def CtlID_def chat_ID_def)
  qed simp
  from this [of "m_services m"] assms(1) show ?thesis by (auto simp: chat_only_def)
qed

text \<open>
  C14. A late joiner catches up: when the host answers a snapshot request and the joiner, which
  has seen no chat yet, handles the host's message, it reports no error and its chat history is
  the host's.
\<close>

theorem late_join_catches_up:
  assumes "ctl_codec_ok cc" and "chat_codecs_ok K" and "never_empty (cSnapshot K)" and "chat_inv s"
    and "chat_only K s h" and "chat_Snapshot K s = Inr b"
    and "Marshal cc (zero_ctlMsg\<lparr>ct_Kind := ctlKindSnapshot, ct_Snapshots := (if b = [] then [] else [(chat_ID, b)])\<rparr>) = Some body"
    and "cx_Host (ctl_Ctx h)" and "chat_only K t j" and "ch_history t = []" and "\<not> io_closed (m_io j)"
  shows "handleSnapshotReq C cc p h = (case ctl_SendTo C p body h of (h', e) \<Rightarrow> (h', map_option SendFailed e)) \<and>
     (\<exists>j' t'. ctl_HandleFrame C' cc (cx_HostID (ctl_Ctx j)) body j = (j', None) \<and>
        map_of (m_services j') chat_ID = Some (AppSvc (chat_ops K) t') \<and> ch_history t' = ch_history s)"
proof -
  have h: "handleSnapshotReq C cc p h = (case ctl_SendTo C p body h of (h', e) \<Rightarrow> (h', map_option SendFailed e))"
    using snapshot_blobs_chat [OF assms(5,6)] assms(7,8) by (simp add: handleSnapshotReq_def sendSnapshot_def)
  from ctl_roundtrip [OF assms(1,7)] obtain msg where
    msg: "Body cc body = Inr msg" "ct_Kind msg = ctlKindSnapshot"
      "mset (ct_Snapshots msg) = mset (if b = [] then [] else [(chat_ID, b)])"
    by (auto simp: same_msg_def zero_ctlMsg_def)
  from msg(3) have sn: "ct_Snapshots msg = (if b = [] then [] else [(chat_ID, b)])" by (simp split: if_splits)
  from chat_service.catches_up [where K = K and s = s and t = t and b = b and w = "m_io j"] assms(2-4,6,10,11) obtain t' w' where
    r: "(if b = [] then (t, m_io j, None) else so_Restore (chat_ops K) b t (m_io j)) = (t', w', None)" "ch_history t' = ch_history s"
    by (auto simp: chat_ops_def)
  have ch: "map_of (m_services j) chat_ID = Some (AppSvc (chat_ops K) t)" using assms(9) by (simp add: chat_only_def)
  have "\<exists>j'. ctl_HandleFrame C' cc (cx_HostID (ctl_Ctx j)) body j = (j', None) \<and>
      map_of (m_services j') chat_ID = Some (AppSvc (chat_ops K) t')"
    using msg(1,2) sn r(1) ch
    by (auto simp: ctl_HandleFrame_def handleSnapshot_def CtlID_def chat_ID_def split: if_splits)
  with h r(2) show ?thesis by blast
qed

end
