(* ===== verification/Sequence.thy ===== *)
theory Sequence
  imports CatchUp
begin

text \<open>
  Sequence supervision by the mux, in step with the sequence numbers the session client puts on
  its messages, and the names of the control service.
\<close>

section \<open>Sequence supervision\<close>

definition adds_events :: "'c io \<Rightarrow> 'c io \<Rightarrow> bool" where
  "adds_events w w' \<longleftrightarrow> (\<exists>rest. io_events w' = io_events w @ rest)"

lemma adds_events_refl [simp]: "adds_events w w"
  by (simp add: adds_events_def)

lemma adds_events_trans [trans]: "adds_events u v \<Longrightarrow> adds_events v w \<Longrightarrow> adds_events u w"
  by (auto simp: adds_events_def)

lemma adds_events_emit [simp]: "adds_events w (emit_m e w)"
  by (simp add: adds_events_def emit_m_def)

text \<open>Services that leave the events of others in the stream alone.\<close>

definition appending :: "('c, 's) service_ops \<Rightarrow> bool" where
  "appending ops \<longleftrightarrow> (\<forall>frm b st w. adds_events w (fst (snd (so_HandleFrame ops frm b st w)))) \<and>
     (\<forall>b st w. adds_events w (fst (snd (so_Restore ops b st w))))"

definition all_appending :: "('c, 's) Mux \<Rightarrow> bool" where
  "all_appending m \<longleftrightarrow> all_values (\<lambda>s. case s of CtlSvc \<Rightarrow> True | AppSvc ops _ \<Rightarrow> appending ops) (m_services m)"

lemma adds_events_restore_all: "adds_events w (snd (restore_all ms s w))"
proof (induction ms arbitrary: s w)
  case (Cons m ms)
  then show ?case by (auto split: prod.splits bool.splits intro: adds_events_trans [OF adds_events_emit])
qed simp

lemma chat_appending: "appending (chat_ops K)"
proof -
  have "adds_events w (fst (snd (chat_Restore K b s w)))" for b s and w :: "'a io"
    using adds_events_restore_all [of w _ s] by (auto simp: chat_Restore_def split: sum.splits prod.splits) (metis snd_conv)
  moreover have "adds_events w (fst (snd (chat_HandleFrame K f b s w)))" for f b s and w :: "'a io"
    by (auto simp: chat_HandleFrame_def split: sum.splits prod.splits bool.splits)
  ultimately show ?thesis by (simp add: appending_def chat_ops_def)
qed

lemma all_appending_lookup:
  "all_appending m \<Longrightarrow> map_of (m_services m) k = Some (AppSvc ops st) \<Longrightarrow> appending ops"
  unfolding all_appending_def by (drule (1) all_values_map_of) simp

lemma all_appending_update:
  "all_appending m \<Longrightarrow> appending ops \<Longrightarrow>
     all_appending (m\<lparr>m_io := w, m_services := AList.update k (AppSvc ops st) (m_services m)\<rparr>)"
  by (simp add: all_appending_def)

text \<open>What the operations of the control service do to the stream and to the sequence numbers.\<close>

definition quiet_step :: "('c, 's) Mux \<Rightarrow> ('c, 's) Mux \<Rightarrow> bool" where
  "quiet_step m m' \<longleftrightarrow> adds_events (m_io m) (m_io m') \<and> m_lastSeq m' = m_lastSeq m"

lemma quiet_step_refl [simp]: "quiet_step m m"
  by (simp add: quiet_step_def)

lemma quiet_step_trans [trans]: "quiet_step a b \<Longrightarrow> quiet_step b c \<Longrightarrow> quiet_step a c"
  by (auto simp: quiet_step_def intro: adds_events_trans)

lemma quiet_mux_emit [simp]: "quiet_step m (mux_emit e m)"
  by (simp add: quiet_step_def mux_emit_def)

lemma quiet_then_emit: "quiet_step m m' \<Longrightarrow> quiet_step m (mux_emit e m')"
  by (rule quiet_step_trans [OF _ quiet_mux_emit])

lemma quiet_ctl [simp]: "quiet_step (m\<lparr>m_ctl := c\<rparr>) m' = quiet_step m m'" "quiet_step m (m'\<lparr>m_ctl := c\<rparr>) = quiet_step m m'"
  by (simp_all add: quiet_step_def)

lemma quiet_announce: "quiet_step m (announce C cc m)"
proof -
  have "quiet_step m (fst (ctl_Broadcast C b m))" for b
    using ctl_Broadcast_fields [of C b m, OF surjective_pairing] by (simp add: quiet_step_def adds_events_def)
  then show ?thesis
    by (auto simp: announce_def Let_def split: option.splits intro: quiet_then_emit)
qed

lemma quiet_sendSnapshot: "quiet_step m (fst (sendSnapshot C cc to m))"
  using ctl_SendTo_fields [of C to _ m]
  by (auto simp: sendSnapshot_def quiet_step_def adds_events_def split: sum.splits option.splits prod.splits)

lemma quiet_restore_blobs: "all_appending m \<Longrightarrow> quiet_step m (fst (restore_blobs bs m))"
proof (induction bs arbitrary: m)
  case (Cons x bs)
  obtain sid blob where [simp]: "x = (sid, blob)" by (cases x)
  show ?case
  proof (cases "\<exists>ops st. (if sid = CtlID then None else map_of (m_services m) sid) = Some (AppSvc ops st)")
    case True
    then obtain ops st where s: "(if sid = CtlID then None else map_of (m_services m) sid) = Some (AppSvc ops st)" by blast
    then have a: "appending ops" using Cons.prems all_appending_lookup by (metis option.distinct(1))
    obtain st' w e where r: "so_Restore ops blob st (m_io m) = (st', w, e)" by (cases "so_Restore ops blob st (m_io m)")
    let ?m = "m\<lparr>m_io := w, m_services := AList.update sid (AppSvc ops st') (m_services m)\<rparr>"
    have "adds_events (m_io m) (fst (snd (so_Restore ops blob st (m_io m))))" using a by (simp add: appending_def)
    then have "quiet_step m ?m" using r by (simp add: quiet_step_def)
    moreover have "quiet_step ?m (fst (restore_blobs bs ?m))" by (rule Cons.IH [OF all_appending_update [OF Cons.prems a]])
    ultimately have "quiet_step m (fst (restore_blobs bs ?m))" by (rule quiet_step_trans)
    with \<open>quiet_step m ?m\<close> show ?thesis using s r by (auto simp: Let_def split: option.splits)
  next
    case False
    with Cons show ?thesis by (auto split: option.splits svc.splits)
  qed
qed simp

lemma quiet_ctl_HandleFrame:
  assumes "all_appending m"
  shows "quiet_step m (fst (ctl_HandleFrame C cc frm body m))"
proof -
  have "quiet_step m (announce C cc (m\<lparr>m_ctl := c\<rparr>))" for c
    using quiet_announce [of "m\<lparr>m_ctl := c\<rparr>" C cc] by simp
  moreover have "quiet_step m (mux_emit e (m\<lparr>m_ctl := c\<rparr>))" for e c
    using quiet_mux_emit [of "m\<lparr>m_ctl := c\<rparr>" e] by (simp only: quiet_ctl)
  ultimately show ?thesis
    using quiet_restore_blobs [OF assms] quiet_sendSnapshot [of m C cc]
    by (auto simp: ctl_HandleFrame_def handleAnnounce_def handleIdentity_def handleSnapshotReq_def handleSnapshot_def Let_def
        split: sum.splits)
qed

lemma quiet_svc_HandleFrame:
  assumes "all_appending m" "map_of (m_services m) sid = Some s"
  shows "quiet_step m (fst (svc_HandleFrame C cc sid s frm body m))"
proof (cases s)
  case (AppSvc ops st)
  have "appending ops" by (rule all_appending_lookup [OF assms [unfolded AppSvc]])
  then have "adds_events (m_io m) (fst (snd (so_HandleFrame ops frm body st (m_io m))))" by (simp add: appending_def)
  with AppSvc show ?thesis by (auto simp: svc_HandleFrame_def quiet_step_def split: prod.split)
qed (use quiet_ctl_HandleFrame [OF assms(1)] in \<open>simp add: svc_HandleFrame_def\<close>)

lemma handleFrame_events:
  assumes "all_appending m" "map_of (m_services m) (env_ServiceID env) = Some s" "\<not> io_closed (m_io m)"
  shows "\<exists>rest. io_events (m_io (handleFrame C cc frm env m)) = io_events (m_io m) @
     (if env_Seq env = m_lastSeq m (frm, env_ServiceID env) + 1 then []
      else [Desync frm (env_ServiceID env) (m_lastSeq m (frm, env_ServiceID env) + 1) (env_Seq env)]) @ rest"
    and "m_lastSeq (handleFrame C cc frm env m) = (m_lastSeq m)((frm, env_ServiceID env) := env_Seq env)"
proof -
  let ?sid = "env_ServiceID env" and ?last = "m_lastSeq m (frm, env_ServiceID env)"
  let ?m1 = "if env_Seq env \<noteq> ?last + 1 then mux_emit (Desync frm ?sid (?last + 1) (env_Seq env)) m else m"
  let ?m2 = "?m1\<lparr>m_lastSeq := (m_lastSeq m)((frm, ?sid) := env_Seq env)\<rparr>"
  obtain m3 e where r: "svc_HandleFrame C cc ?sid s frm (env_Body env) ?m2 = (m3, e)" by fastforce
  have "all_appending ?m2" "map_of (m_services ?m2) ?sid = Some s" using assms by (simp_all add: all_appending_def)
  from quiet_svc_HandleFrame [OF this, of C cc frm "env_Body env"] r have q: "quiet_step ?m2 m3" by simp
  have h: "handleFrame C cc frm env m = (case e of Some err \<Rightarrow> mux_emit (ServiceError frm ?sid err) m3 | None \<Rightarrow> m3)"
    using assms(2) r by (auto simp: handleFrame_def Let_def mux_emit_def split: option.splits if_splits)
  then have q': "quiet_step ?m2 (handleFrame C cc frm env m)"
    using q by (auto split: option.splits intro: quiet_then_emit)
  then show "m_lastSeq (handleFrame C cc frm env m) = (m_lastSeq m)((frm, ?sid) := env_Seq env)"
    by (simp add: quiet_step_def)
  show "\<exists>rest. io_events (m_io (handleFrame C cc frm env m)) = io_events (m_io m) @
     (if env_Seq env = ?last + 1 then [] else [Desync frm ?sid (?last + 1) (env_Seq env)]) @ rest"
    using q' assms(3) by (auto simp: quiet_step_def adds_events_def mux_emit_def emit_m_def split: if_splits)
qed

text \<open>
  Sequence supervision: a frame for a known service is handed to it whatever its number, but
  unless the number is the successor of the last one of that sender and service, a desync event
  with the number expected and the number received comes first; the number received is the new
  reference in either case.
\<close>

theorem desync_iff_gap:
  assumes "all_appending m" and "map_of (m_services m) (env_ServiceID env) = Some s" and "\<not> io_closed (m_io m)"
    and "dispatch C cc (Frame frm env) m = (m', stop)"
  shows "(\<exists>rest. io_events (m_io m') = io_events (m_io m) @
       (if env_Seq env = m_lastSeq m (frm, env_ServiceID env) + 1 then []
        else [Desync frm (env_ServiceID env) (m_lastSeq m (frm, env_ServiceID env) + 1) (env_Seq env)]) @ rest) \<and>
     m_lastSeq m' = (m_lastSeq m)((frm, env_ServiceID env) := env_Seq env) \<and> \<not> stop"
  using handleFrame_events [OF assms(1-3), of C cc frm] assms(4) by (auto simp: dispatch_def)

lemma SendTo_seq:
  "SendTo L cb n to svc b a = (a', None) \<Longrightarrow>
     c_seqs a' svc = c_seqs a svc + 1 \<and> c_self a' = c_self a \<and> c_groupKey a' = c_groupKey a \<and> c_sid a' = c_sid a"
  by (auto simp: SendTo_def split: prod.splits sum.splits dest!: seal_Inr writeFrame_c_None)

text \<open>
  C33. A directed message looks like a loss to everybody else: directed and broadcast messages of
  a service share one counter, so when a participant sends one message of a service to somebody
  and then broadcasts one, a third participant that has received everything addressed to it,
  and whose mux is in step with the sender, gets the broadcast and reports a desync.
\<close>

theorem directed_send_desyncs_others:
  assumes "lib_ok L" and "codecs_ok cb" and "client_inv a" and "client_inv b" and "c_sid b = c_sid a" and "c_keyed b"
    and "c_groupKey a \<in> set (c_groupKey b # c_prevKeys b)"
    and "SendTo L cb n1 x svc b1 a = (a1, None)" and "x \<noteq> c_self b"
    and "Broadcast_c L cb n2 svc b2 a1 = (a2, None)"
    and "delivers cb (c_self a) (c_self b) (last (c_sent a2)) data" and "c_self a \<noteq> c_self b"
    and "m_lastSeq m (c_self a, svc) = c_seqs a svc"
    and "all_appending m" and "map_of (m_services m) svc = Some s" and "\<not> io_closed (m_io m)"
  shows "\<exists>env rest. readLoop_c L cb [(r, Some data)] b = (emit (Frame (c_self a) env) b, False) \<and>
     io_events (m_io (fst (dispatch C cc (Frame (c_self a) env) m))) =
       io_events (m_io m) @ Desync (c_self a) svc (c_seqs a svc + 1) (c_seqs a svc + 2) # rest"
proof -
  let ?env = "\<lparr>env_ServiceID = svc, env_Seq = c_seqs a1 svc + 1, env_Body = b2\<rparr>"
  have a1: "c_seqs a1 svc = c_seqs a svc + 1" "c_self a1 = c_self a" "c_groupKey a1 = c_groupKey a" "c_sid a1 = c_sid a"
    using SendTo_seq [OF assms(8)] by auto
  have "client_inv a1" using inv_SendTo [OF assms(3)] assms(8) by (metis fst_conv)
  from end_to_end_Broadcast [OF assms(1,2) this assms(4) _ assms(6,10), of "c_self a" data r] a1 assms(5,7,11,12)
  have rd: "readLoop_c L cb [(r, Some data)] b = (emit (Frame (c_self a) ?env) b, False)" by simp
  have "env_Seq ?env \<noteq> m_lastSeq m (c_self a, env_ServiceID ?env) + 1" using a1(1) assms(13) by simp
  with handleFrame_events(1) [OF assms(14) _ assms(16), of ?env s C cc "c_self a"] assms(13,15) a1(1)
  obtain rest where "io_events (m_io (handleFrame C cc (c_self a) ?env m)) =
      io_events (m_io m) @ Desync (c_self a) svc (c_seqs a svc + 1) (c_seqs a svc + 2) # rest"
    by (auto simp: add.assoc)
  with rd show ?thesis by (intro exI [of _ ?env]) (auto simp: dispatch_def)
qed

section \<open>Names\<close>

lemma filter_TrimSpace_subset: "set (sanitizeName s) \<subseteq> set (TrimSpace s)"
  by (auto simp: sanitizeName_def Let_def dest: in_set_takeD)

text \<open>
  Names: at most 24 characters and no control characters, whatever was asked for, but a
  name between control characters keeps its surrounding blanks, because these are trimmed
  first; such a name can consist of blanks only.
\<close>

lemma sanitizeName_clean: "length (sanitizeName s) \<le> 24 \<and> (\<forall>r \<in> set (sanitizeName s). \<not> IsControl r)"
  by (auto simp: sanitizeName_def maxNameLen_def Let_def dest: in_set_takeD)

lemma sanitizeName_blank: "sanitizeName [1, 32, 1] = [32]"
  by (simp add: sanitizeName_def TrimSpace_def IsSpace_def IsControl_def maxNameLen_def)

section \<open>Closed examples\<close>

theorem DefaultSuccessorPolicy_lowest_witness:
  "0 \<notin> fst ` set [(7 :: ParticipantID, RoleObserver), (9, RoleMember), (8, RoleMember)] \<and>
     DefaultSuccessorPolicy [(7, RoleObserver), (9, RoleMember), (8, RoleMember)] = 8"
proof -
  have ms: "{p :: ParticipantID. (p, RoleHost) \<in> set [(7, RoleObserver), (9, RoleMember), (8, RoleMember)] \<or>
      (p, RoleMember) \<in> set [(7, RoleObserver), (9, RoleMember), (8, RoleMember)]} = {8, 9}" by auto
  from DefaultSuccessorPolicy_lowest [of "[(7, RoleObserver), (9, RoleMember), (8, RoleMember)]", unfolded ms Let_def]
  show ?thesis by simp
qed

definition demo_mux :: "ParticipantID \<Rightarrow> ((bytes \<times> nat) live, chat) Mux" where
  "demo_mux self =
     \<lparr>m_io = \<lparr>io_client = (demo_end self 1 RoleMember True, 0), io_events = [], io_closed = False\<rparr>,
      m_services = [(CtlID, CtlSvc)],
      m_ctl = newCtl\<lparr>ctl_base := Some \<lparr>cx_Self = self, cx_HostID = 1, cx_Host = False\<rparr>,
                ctl_roster := [(1, RoleHost), (2, RoleMember), (3, RoleMember)]\<rparr>,
      m_cmds = [], m_lastSeq = (\<lambda>_. 0), m_successor = DefaultSuccessorPolicy, m_reconnectable = False\<rparr>"

theorem migration_agrees_witness:
  "\<exists>a' b' stop stop' s. dispatch (client_conn demo_lib demo_codecs (\<lambda>_. demo_rand)) (table_cbor []) (MemberLeft 1) (demo_mux 2) = (a', stop) \<and>
     dispatch (client_conn demo_lib demo_codecs (\<lambda>_. demo_rand)) (table_cbor []) (MemberLeft 1) (demo_mux 3) = (b', stop') \<and>
     s \<in> {2, 3} \<and> c_hostID (fst (io_client (m_io a'))) = s \<and> c_hostID (fst (io_client (m_io b'))) = s"
proof -
  let ?C = "client_conn demo_lib demo_codecs (\<lambda>_. demo_rand)"
  obtain a' stop b' stop' where d: "dispatch ?C (table_cbor []) (MemberLeft 1) (demo_mux 2) = (a', stop)"
    "dispatch ?C (table_cbor []) (MemberLeft 1) (demo_mux 3) = (b', stop')" by (meson surj_pair)
  from migration_agrees [OF _ _ _ _ d] d show ?thesis
    by (auto simp: demo_mux_def newCtl_def demo_end_def plain_services_def no_promotables_def ctl_Ctx_def Ctx_def)
qed

lemma table_ctl_ok: "distinct (map snd tbl) \<Longrightarrow> ctl_codec_ok (table_cbor tbl)"
  using table_cbor_roundtrip [of tbl] by (auto simp: cbor_roundtrip_def ctl_codec_ok_def same_msg_def)

theorem announce_transfers_roster_witness:
  "\<exists>m'. ctl_HandleFrame (client_conn demo_lib demo_codecs (\<lambda>_. demo_rand)) (table_cbor [(announce_msg (demo_mux 1), [1])])
       1 [1] (demo_mux 2) = (m', None) \<and>
     map_of (ctl_roster (m_ctl m')) 3 = Some RoleMember"
proof -
  let ?C = "client_conn demo_lib demo_codecs (\<lambda>_. demo_rand)" and ?cc = "table_cbor [(announce_msg (demo_mux 1), [1])]"
  obtain m' e where m': "ctl_HandleFrame ?C ?cc 1 [1] (demo_mux 2) = (m', e)" by fastforce
  have "Marshal ?cc (announce_msg (demo_mux 1)) = Some [1]" by (simp add: Marshal_def table_cbor_def)
  from announce_transfers_roster [OF table_ctl_ok _ this m'] m' show ?thesis
    by (auto simp: demo_mux_def newCtl_def ctl_Ctx_def Ctx_def wf_map_def)
qed

definition demo_chat_mux :: "ParticipantID \<Rightarrow> bool \<Rightarrow> storedMsg list \<Rightarrow> ((bytes \<times> nat) live, chat) Mux" where
  "demo_chat_mux self host hist = (demo_mux self)\<lparr>
     m_services := [(CtlID, CtlSvc), (chat_ID, AppSvc (chat_ops demo_chat) \<lparr>ch_base = None, ch_history = hist\<rparr>)],
     m_ctl := newCtl\<lparr>ctl_base := Some \<lparr>cx_Self = self, cx_HostID = 1, cx_Host = host\<rparr>\<rparr>\<rparr>"

definition demo_snapshot_msg :: ctlMsg where
  "demo_snapshot_msg = zero_ctlMsg\<lparr>ct_Kind := ctlKindSnapshot, ct_Snapshots := [(chat_ID, [2])]\<rparr>"

theorem late_join_catches_up_witness:
  "\<exists>j' t'. ctl_HandleFrame (client_conn demo_lib demo_codecs (\<lambda>_. demo_rand)) (table_cbor [(demo_snapshot_msg, [3])])
       1 [3] (demo_chat_mux 2 False []) = (j', None) \<and>
     map_of (m_services j') chat_ID = Some (AppSvc (chat_ops demo_chat) t') \<and>
     ch_history t' = [demo_stored 1, demo_stored 2]"
proof -
  let ?cc = "table_cbor [(demo_snapshot_msg, [3])]" and ?C = "client_conn demo_lib demo_codecs (\<lambda>_. demo_rand)"
  let ?s = "\<lparr>ch_base = None, ch_history = [demo_stored 1, demo_stored 2]\<rparr>" and ?t = "\<lparr>ch_base = None, ch_history = []\<rparr>"
  have ids: "CtlID \<noteq> chat_ID" by (simp add: CtlID_def chat_ID_def)
  have only: "chat_only demo_chat \<lparr>ch_base = None, ch_history = hist\<rparr> (demo_chat_mux p host hist)" for hist p host
    using ids by (simp add: chat_only_def demo_chat_mux_def wf_map_def)
  have ok: "ctl_codec_ok ?cc" by (rule table_ctl_ok) simp
  have ne: "never_empty (cSnapshot demo_chat)" by (simp add: never_empty_def demo_chat_def table_cbor_def)
  have inv: "chat_inv ?s" by (simp add: chat_inv_def demo_stored_def historyCap_def)
  have sn: "chat_Snapshot demo_chat ?s = Inr [2]" by (simp add: chat_Snapshot_def Marshal_def demo_chat_def table_cbor_def)
  have ma: "Marshal ?cc (zero_ctlMsg\<lparr>ct_Kind := ctlKindSnapshot, ct_Snapshots := (if [2] = ([] :: bytes) then [] else [(chat_ID, [2])])\<rparr>) = Some [3]"
    by (simp add: Marshal_def table_cbor_def demo_snapshot_msg_def)
  have cx: "cx_Host (ctl_Ctx (demo_chat_mux 1 True [demo_stored 1, demo_stored 2]))"
    "cx_HostID (ctl_Ctx (demo_chat_mux 2 False [])) = 1" "\<not> io_closed (m_io (demo_chat_mux 2 False []))"
    by (simp_all add: demo_chat_mux_def ctl_Ctx_def Ctx_def demo_mux_def)
  from late_join_catches_up [OF ok demo_chat_ok ne inv only sn ma cx(1) only _ cx(3), where C = ?C and C' = ?C and p = 2]
  show ?thesis by (simp add: cx(2))
qed

lemma demo_chat_appending: "all_appending (demo_chat_mux p h hist)"
  using chat_appending by (simp add: all_appending_def all_values_def demo_chat_mux_def)

theorem desync_iff_gap_witness:
  "\<exists>m' rest. dispatch (client_conn demo_lib demo_codecs (\<lambda>_. demo_rand)) (table_cbor [])
       (Frame 1 \<lparr>env_ServiceID = chat_ID, env_Seq = 5, env_Body = []\<rparr>) (demo_chat_mux 2 False []) = (m', False) \<and>
     io_events (m_io m') = Desync 1 chat_ID 1 5 # rest"
proof -
  let ?C = "client_conn demo_lib demo_codecs (\<lambda>_. demo_rand)"
  let ?env = "\<lparr>env_ServiceID = chat_ID, env_Seq = 5, env_Body = []\<rparr>"
  obtain m' stop where d: "dispatch ?C (table_cbor []) (Frame 1 ?env) (demo_chat_mux 2 False []) = (m', stop)" by fastforce
  have "map_of (m_services (demo_chat_mux 2 False [])) (env_ServiceID ?env) = Some (AppSvc (chat_ops demo_chat) \<lparr>ch_base = None, ch_history = []\<rparr>)"
    by (simp add: demo_chat_mux_def CtlID_def chat_ID_def)
  from desync_iff_gap [OF demo_chat_appending this _ d] d show ?thesis
    by (auto simp: demo_chat_mux_def demo_mux_def)
qed

lemma demo_SendTo:
  assumes "c_keyed c" "length (c_groupKey c) = 32" "length (c_sid c) = 16" "c_wok c = []"
  shows "\<exists>c'. SendTo demo_lib demo_codecs [] to ''chat'' [42] c = (c', None) \<and> c_keyed c' \<and> c_wok c' = []"
proof -
  from demo_seal [OF assms(1-3)] obtain p where
    p: "seal demo_lib demo_codecs [] ''chat'' [42] c = (c\<lparr>c_seqs := (c_seqs c)(''chat'' := c_seqs c ''chat'' + 1)\<rparr>, Inr p)" "length p \<le> 1000"
    by blast
  from demo_write_Direct [OF p(2), of "c\<lparr>c_seqs := (c_seqs c)(''chat'' := c_seqs c ''chat'' + 1)\<rparr>" to] assms(1,4) p(1)
  show ?thesis by (auto simp: SendTo_def)
qed

theorem directed_send_desyncs_others_witness:
  "\<exists>a1 a2 data env rest. SendTo demo_lib demo_codecs [] 3 ''chat'' [42] (demo_end 1 1 RoleHost True) = (a1, None) \<and>
     Broadcast_c demo_lib demo_codecs [] ''chat'' [42] a1 = (a2, None) \<and>
     delivers demo_codecs 1 2 (last (c_sent a2)) data \<and>
     readLoop_c demo_lib demo_codecs [(demo_rand, Some data)] (demo_end 2 1 RoleMember True) =
       (emit (Frame 1 env) (demo_end 2 1 RoleMember True), False) \<and>
     io_events (m_io (fst (dispatch (client_conn demo_lib demo_codecs (\<lambda>_. demo_rand)) (table_cbor []) (Frame 1 env)
       (demo_chat_mux 2 False [])))) = Desync 1 ''chat'' 1 2 # rest"
proof -
  let ?a = "demo_end 1 1 RoleHost True" and ?b = "demo_end 2 1 RoleMember True" and ?m = "demo_chat_mux 2 False []"
  from demo_SendTo [of ?a 3] obtain a1 where
    a1: "SendTo demo_lib demo_codecs [] 3 ''chat'' [42] ?a = (a1, None)" "c_keyed a1" "c_wok a1 = []" by (auto simp: demo_end_def)
  have k: "length (c_groupKey a1) = 32" "length (c_sid a1) = 16" using SendTo_seq [OF a1(1)] by (auto simp: demo_end_def)
  from demo_Broadcast [OF a1(2) k a1(3)] obtain a2 where
    a2: "Broadcast_c demo_lib demo_codecs [] ''chat'' [42] a1 = (a2, None)"
      "\<forall>frm to. to \<noteq> frm \<longrightarrow> (\<exists>data. delivers demo_codecs frm to (last (c_sent a2)) data)" by blast
  then obtain data where d: "delivers demo_codecs 1 2 (last (c_sent a2)) data" by fastforce
  have svc: "map_of (m_services ?m) ''chat'' = Some (AppSvc (chat_ops demo_chat) \<lparr>ch_base = None, ch_history = []\<rparr>)"
    by (simp add: demo_chat_mux_def CtlID_def chat_ID_def)
  have self: "c_self ?a = 1" "c_self ?b = 2" "c_seqs ?a = (\<lambda>_. 0)" by (simp_all add: demo_end_def)
  obtain env rest where "readLoop_c demo_lib demo_codecs [(demo_rand, Some data)] ?b = (emit (Frame 1 env) ?b, False)"
    "io_events (m_io (fst (dispatch (client_conn demo_lib demo_codecs (\<lambda>_. demo_rand)) (table_cbor []) (Frame 1 env) ?m))) =
      io_events (m_io ?m) @ Desync 1 ''chat'' (0 + 1) (0 + 2) # rest"
    using directed_send_desyncs_others [OF demo_lib_ok demo_codecs_ok demo_end_inv demo_end_inv _ _ _ a1(1) _ a2(1) _ _ _ demo_chat_appending svc,
        of 2 1 RoleMember True data demo_rand "client_conn demo_lib demo_codecs (\<lambda>_. demo_rand)" "table_cbor []", unfolded self] d
    by (auto simp: demo_end_def demo_chat_mux_def demo_mux_def)
  with a1(1) a2(1) d show ?thesis by (auto simp: demo_chat_mux_def demo_mux_def)
qed

end
