(* ===== verification/MuxClose.thy ===== *)
theory MuxClose
  imports Mux
begin

text \<open>
  The event stream of the mux under concurrency (emit and shutdown in src/service/mux.go). An
  emit is three critical steps: the guard that counts it as pending, the send (or, once quit is
  closed, giving up), and the release that closes the stream if it was the last one out. Any
  number of goroutines run emits, interleaved with shutdown and with the consumer. Sending on a
  closed channel, and closing it twice, are panics in Go and are recorded as such.
\<close>

section \<open>States and steps\<close>

datatype 'e phase = Entering 'e | Sending 'e | Leaving | Finished

record 'e stream =
  es_closed :: bool
  es_pending :: int
  es_quit :: bool
  es_chan :: "'e list"
  es_chanClosed :: bool
  es_panic :: bool
  es_calls :: "'e phase list"

definition eventsCap :: nat where "eventsCap = 256"

definition new_stream :: "'e stream" where
  "new_stream = \<lparr>es_closed = False, es_pending = 0, es_quit = False, es_chan = [], es_chanClosed = False,
     es_panic = False, es_calls = []\<rparr>"

definition close_chan :: "'e stream \<Rightarrow> 'e stream" where
  "close_chan s = (if es_chanClosed s then s\<lparr>es_panic := True\<rparr> else s\<lparr>es_chanClosed := True\<rparr>)"

definition send_chan :: "'e \<Rightarrow> 'e stream \<Rightarrow> 'e stream" where
  "send_chan e s = (if es_chanClosed s then s\<lparr>es_panic := True\<rparr> else s\<lparr>es_chan := es_chan s @ [e]\<rparr>)"

definition set_call :: "nat \<Rightarrow> 'e phase \<Rightarrow> 'e stream \<Rightarrow> 'e stream" where
  "set_call i p s = s\<lparr>es_calls := (es_calls s)[i := p]\<rparr>"

definition emit_guard :: "nat \<Rightarrow> 'e \<Rightarrow> 'e stream \<Rightarrow> 'e stream" where
  "emit_guard i e s =
     (if es_closed s then set_call i Finished s
      else set_call i (Sending e) (s\<lparr>es_pending := es_pending s + 1\<rparr>))"

definition emit_release :: "nat \<Rightarrow> 'e stream \<Rightarrow> 'e stream" where
  "emit_release i s =
     (let s1 = s\<lparr>es_pending := es_pending s - 1\<rparr>
      in set_call i Finished (if es_closed s1 \<and> es_pending s1 = 0 then close_chan s1 else s1))"

definition stream_shutdown :: "'e stream \<Rightarrow> 'e stream" where
  "stream_shutdown s =
     (if es_closed s then s
      else
        (let s1 = s\<lparr>es_closed := True, es_quit := True\<rparr>
         in if es_pending s1 = 0 then close_chan s1 else s1))"

text \<open>The steps of the goroutines inside an emit.\<close>

inductive emit_step :: "'e stream \<Rightarrow> 'e stream \<Rightarrow> bool" where
  guard: "i < length (es_calls s) \<Longrightarrow> es_calls s ! i = Entering e \<Longrightarrow> emit_step s (emit_guard i e s)"
| send: "i < length (es_calls s) \<Longrightarrow> es_calls s ! i = Sending e \<Longrightarrow>
     length (es_chan s) < eventsCap \<or> es_chanClosed s \<Longrightarrow> emit_step s (set_call i Leaving (send_chan e s))"
| give_up: "i < length (es_calls s) \<Longrightarrow> es_calls s ! i = Sending e \<Longrightarrow> es_quit s \<Longrightarrow> emit_step s (set_call i Leaving s)"
| release: "i < length (es_calls s) \<Longrightarrow> es_calls s ! i = Leaving \<Longrightarrow> emit_step s (emit_release i s)"

datatype 'e stream_event = Call 'e | Step | Shutdown | Receive

inductive stream_trans :: "'e stream \<Rightarrow> 'e stream_event \<Rightarrow> 'e stream \<Rightarrow> bool" where
  st_call: "stream_trans s (Call e) (s\<lparr>es_calls := es_calls s @ [Entering e]\<rparr>)"
| st_step: "emit_step s s' \<Longrightarrow> stream_trans s Step s'"
| st_shutdown: "stream_trans s Shutdown (stream_shutdown s)"
| st_receive: "es_chan s = e # rest \<Longrightarrow> stream_trans s Receive (s\<lparr>es_chan := rest\<rparr>)"

section \<open>The invariant\<close>

definition in_flight :: "'e phase \<Rightarrow> bool" where
  "in_flight p \<longleftrightarrow> (case p of Sending _ \<Rightarrow> True | Leaving \<Rightarrow> True | _ \<Rightarrow> False)"

lemma in_flight_simps [simp]:
  "\<not> in_flight (Entering e)" "in_flight (Sending e)" "in_flight Leaving" "\<not> in_flight Finished"
  by (simp_all add: in_flight_def)

definition flights :: "'e phase list \<Rightarrow> int" where
  "flights ps = int (length (filter in_flight ps))"

lemma flights_append [simp]: "flights (ps @ qs) = flights ps + flights qs"
  by (simp add: flights_def)

lemma flights_simps [simp]: "flights [] = 0" "flights (p # ps) = (if in_flight p then 1 else 0) + flights ps"
  by (simp_all add: flights_def)

lemma flights_update:
  "i < length ps \<Longrightarrow> flights (ps[i := p]) = flights ps - (if in_flight (ps ! i) then 1 else 0) + (if in_flight p then 1 else 0)"
  by (induction ps arbitrary: i) (auto split: nat.splits)

lemma flights_nonneg: "0 \<le> flights ps"
  by (simp add: flights_def)

lemma flights_pos: "i < length ps \<Longrightarrow> in_flight (ps ! i) \<Longrightarrow> 0 < flights ps"
  by (force simp: flights_def filter_empty_conv)

definition stream_inv :: "'e stream \<Rightarrow> bool" where
  "stream_inv s \<longleftrightarrow> \<not> es_panic s \<and> es_pending s = flights (es_calls s) \<and> es_quit s = es_closed s \<and>
     es_chanClosed s = (es_closed s \<and> es_pending s = 0)"

lemma inv_emit_step: "emit_step s s' \<Longrightarrow> stream_inv s \<Longrightarrow> stream_inv s'"
proof (induction rule: emit_step.induct)
  case (guard i s e)
  then show ?case by (auto simp: emit_guard_def set_call_def stream_inv_def flights_update)
next
  case (send i s e)
  then have "0 < flights (es_calls s)" by (intro flights_pos) auto
  with send show ?case by (auto simp: send_chan_def set_call_def stream_inv_def flights_update)
next
  case (give_up i s e)
  then show ?case by (auto simp: set_call_def stream_inv_def flights_update)
next
  case (release i s)
  then have "0 < flights (es_calls s)" by (intro flights_pos) auto
  with release show ?case
    by (auto simp: emit_release_def close_chan_def set_call_def stream_inv_def flights_update Let_def)
qed

lemma inv_stream_trans: "stream_trans s ev s' \<Longrightarrow> stream_inv s \<Longrightarrow> stream_inv s'"
  by (induction rule: stream_trans.induct)
    (auto simp: stream_inv_def stream_shutdown_def close_chan_def Let_def dest: inv_emit_step [unfolded stream_inv_def])

lemma inv_new_stream: "stream_inv new_stream"
  by (simp add: stream_inv_def new_stream_def)

interpretation event_stream: transition_system "\<lambda>s. s = new_stream" stream_trans stream_inv
  by unfold_locales (simp_all add: inv_new_stream inv_stream_trans)

text \<open>
  C17. The event stream is closed exactly once and never written to afterwards: however emits on
  any goroutines, shutdowns and the consumer interleave, no send hits a closed channel and no
  second close happens, and the channel is closed exactly when shutdown has begun and no emit
  is in flight.
\<close>

theorem stream_never_panics:
  assumes "reachable_from (\<lambda>s. s = new_stream) stream_trans s"
  shows "\<not> es_panic s \<and> (es_chanClosed s \<longleftrightarrow> es_closed s \<and> (\<forall>p \<in> set (es_calls s). \<not> in_flight p))"
proof -
  have "stream_inv s" by (rule event_stream.reachable_invariant [OF assms])
  moreover have "flights ps = 0 \<longleftrightarrow> (\<forall>p \<in> set ps. \<not> in_flight p)" for ps :: "'a phase list"
    by (auto simp: flights_def filter_empty_conv)
  ultimately show ?thesis by (simp add: stream_inv_def)
qed

section \<open>Shutdown completes\<close>

definition phase_weight :: "'e phase \<Rightarrow> nat" where
  "phase_weight p = (case p of Entering _ \<Rightarrow> 3 | Sending _ \<Rightarrow> 2 | Leaving \<Rightarrow> 1 | Finished \<Rightarrow> 0)"

definition work_left :: "'e stream \<Rightarrow> nat" where
  "work_left s = sum_list (map phase_weight (es_calls s))"

lemma sum_list_update_less:
  "i < length ps \<Longrightarrow> f p < f (ps ! i) \<Longrightarrow> sum_list (map f (ps[i := p])) < (sum_list (map f ps) :: nat)"
  by (induction ps arbitrary: i) (auto split: nat.splits)

lemma emit_step_decreases: "emit_step s s' \<Longrightarrow> work_left s' < work_left s"
  by (induction rule: emit_step.induct)
    (auto simp: work_left_def emit_guard_def emit_release_def set_call_def send_chan_def close_chan_def Let_def
      phase_weight_def intro!: sum_list_update_less)

lemma emit_stuck_finished:
  assumes "es_quit s" "\<nexists>s'. emit_step s s'" "p \<in> set (es_calls s)"
  shows "p = Finished"
proof -
  from assms(3) obtain i where i: "i < length (es_calls s)" "es_calls s ! i = p" by (auto simp: in_set_conv_nth)
  show ?thesis
    using i assms(1,2) emit_step.intros [of i s] by (cases p) blast+
qed

text \<open>
  C18. Shutdown completes: without new emits the goroutines inside one can only take finitely many
  steps, in any order, and once shutdown has begun they cannot get stuck before all of them have
  returned, even if nobody reads the stream any more; at that point the channel is closed.
\<close>

theorem shutdown_completes:
  assumes "reachable_from (\<lambda>s. s = new_stream) stream_trans s" and "es_closed s"
  shows "wfP (\<lambda>t' t. emit_step t t') \<and>
     ((\<nexists>s'. emit_step s s') \<longrightarrow> es_chanClosed s \<and> (\<forall>p \<in> set (es_calls s). p = Finished))"
proof
  show "wfP (\<lambda>t' t. emit_step t t')"
    by (rule wfp_if_convertible_to_nat [where f = work_left]) (rule emit_step_decreases)
  have inv: "stream_inv s" by (rule event_stream.reachable_invariant [OF assms(1)])
  show "(\<nexists>s'. emit_step s s') \<longrightarrow> es_chanClosed s \<and> (\<forall>p \<in> set (es_calls s). p = Finished)"
  proof
    assume "\<nexists>s'. emit_step s s'"
    then have fin: "\<forall>p \<in> set (es_calls s). p = Finished"
      using emit_stuck_finished inv assms(2) by (metis stream_inv_def)
    then have "flights (es_calls s) = 0" by (auto simp: flights_def filter_empty_conv)
    with inv assms(2) fin show "es_chanClosed s \<and> (\<forall>p \<in> set (es_calls s). p = Finished)" by (simp add: stream_inv_def)
  qed
qed

section \<open>The mux's view\<close>

text \<open>
  The rest of the mux treats an emit and a shutdown as one step on the event list. To relate the two,
  a history is kept beside the stream: what each call was made with, what the consumer has
  received, and the calls that have taken effect, in that order: by sending their event, or by
  dropping it (at the guard, or in favour of quit). The history only observes the steps.
\<close>

record 'e history =
  hs_called :: "'e list"
  hs_received :: "'e list"
  hs_sent :: "(nat \<times> 'e) list"
  hs_dropped :: "(nat \<times> 'e) list"

definition new_history :: "'e history" where
  "new_history = \<lparr>hs_called = [], hs_received = [], hs_sent = [], hs_dropped = []\<rparr>"

definition took :: "nat \<Rightarrow> 'e phase \<Rightarrow> 'e phase \<Rightarrow> (nat \<times> 'e) list" where
  "took i p q = (case (p, q) of (Sending e, Leaving) \<Rightarrow> [(i, e)] | (Entering e, Finished) \<Rightarrow> [(i, e)] | _ \<Rightarrow> [])"

fun effects :: "nat \<Rightarrow> 'e phase list \<Rightarrow> 'e phase list \<Rightarrow> (nat \<times> 'e) list" where
  "effects n (p # ps) (q # qs) = took n p q @ effects (Suc n) ps qs"
| "effects n _ _ = []"

definition observe :: "'e stream_event \<Rightarrow> 'e stream \<Rightarrow> 'e stream \<Rightarrow> 'e history \<Rightarrow> 'e history" where
  "observe ev s s' g =
     (case ev of
        Call e \<Rightarrow> g\<lparr>hs_called := hs_called g @ [e]\<rparr>
      | Receive \<Rightarrow> g\<lparr>hs_received := hs_received g @ [hd (es_chan s)]\<rparr>
      | Shutdown \<Rightarrow> g
      | Step \<Rightarrow>
          if length (es_chan s) < length (es_chan s')
          then g\<lparr>hs_sent := hs_sent g @ effects 0 (es_calls s) (es_calls s')\<rparr>
          else g\<lparr>hs_dropped := hs_dropped g @ effects 0 (es_calls s) (es_calls s')\<rparr>)"

inductive hist_trans :: "'e stream \<times> 'e history \<Rightarrow> 'e stream_event \<Rightarrow> 'e stream \<times> 'e history \<Rightarrow> bool" where
  "stream_trans s ev s' \<Longrightarrow> hist_trans (s, g) ev (s', observe ev s s' g)"

lemma hist_trans_iff: "(\<exists>g'. hist_trans (s, g) ev (s', g')) \<longleftrightarrow> stream_trans s ev s'"
  by (auto intro: hist_trans.intros elim: hist_trans.cases)

text \<open>The order of effects: the sends, the shutdown if it has begun, then what was dropped.\<close>

datatype 'e lin_op = LinEmit nat 'e | LinShutdown

definition linearised :: "'e stream \<Rightarrow> 'e history \<Rightarrow> 'e lin_op list" where
  "linearised s g = map (\<lambda>(i, e). LinEmit i e) (hs_sent g) @ (if es_closed s then [LinShutdown] else []) @
     map (\<lambda>(i, e). LinEmit i e) (hs_dropped g)"

definition mux_op :: "('c, 's) Mux \<Rightarrow> mux_event lin_op \<Rightarrow> 'c io \<Rightarrow> 'c io" where
  "mux_op m x w = (case x of LinEmit _ e \<Rightarrow> emit_m e w | LinShutdown \<Rightarrow> m_io (mux_shutdown (m\<lparr>m_io := w\<rparr>)))"

definition precedes :: "'a \<Rightarrow> 'a \<Rightarrow> 'a list \<Rightarrow> bool" where
  "precedes x y xs \<longleftrightarrow> (\<exists>as bs. xs = as @ bs \<and> x \<in> set as \<and> y \<in> set bs)"

abbreviation effected :: "'e history \<Rightarrow> (nat \<times> 'e) list" where
  "effected g \<equiv> hs_sent g @ hs_dropped g"

definition call_done :: "'e stream \<Rightarrow> nat \<Rightarrow> bool" where
  "call_done s i \<longleftrightarrow> i < length (es_calls s) \<and> (es_calls s ! i = Leaving \<or> es_calls s ! i = Finished)"

definition hist_inv :: "'e stream \<times> 'e history \<Rightarrow> bool" where
  "hist_inv = (\<lambda>(s, g). stream_inv s \<and> length (hs_called g) = length (es_calls s) \<and>
     (\<forall>i < length (es_calls s). \<forall>e. es_calls s ! i = Entering e \<or> es_calls s ! i = Sending e \<longrightarrow> hs_called g ! i = e) \<and>
     hs_received g @ es_chan s = map snd (hs_sent g) \<and> distinct (map fst (effected g)) \<and>
     (\<forall>i e. (i, e) \<in> set (effected g) \<longleftrightarrow> call_done s i \<and> e = hs_called g ! i) \<and>
     (hs_dropped g \<noteq> [] \<longrightarrow> es_closed s))"

lemma took_same [simp]: "took n p p = []"
  by (simp add: took_def split: phase.split)

lemma effects_same [simp]: "effects n ps ps = []"
  by (induction ps arbitrary: n) simp_all

lemma effects_update: "i < length ps \<Longrightarrow> effects n ps (ps[i := q]) = took (n + i) (ps ! i) q"
  by (induction ps arbitrary: n i) (auto split: nat.split)

text \<open>A call that moves on without taking effect, and one that takes effect.\<close>

lemma hist_inv_moves:
  assumes "hist_inv (s, g)" "stream_inv s'" "i < length (es_calls s)" "es_calls s' = (es_calls s)[i := q]"
    and "es_chan s' = es_chan s" "es_closed s' = es_closed s"
    and "(q = Leaving \<or> q = Finished) = (es_calls s ! i = Leaving \<or> es_calls s ! i = Finished)"
    and "\<And>e. q = Entering e \<or> q = Sending e \<Longrightarrow> hs_called g ! i = e"
  shows "hist_inv (s', g)"
proof -
  note inv = assms(1) [unfolded hist_inv_def prod.case]
  have "call_done s' j = call_done s j" for j
    using assms(3,4,7) by (cases "j = i") (auto simp: call_done_def)
  moreover have "hs_called g ! j = d" if "j < length (es_calls s')" "es_calls s' ! j = Entering d \<or> es_calls s' ! j = Sending d" for j d
    using that inv assms(3,4,8) by (cases "j = i") auto
  ultimately show ?thesis unfolding hist_inv_def prod.case using inv assms(2,4-6) by simp
qed

lemma hist_inv_takes:
  assumes "hist_inv (s, g)" "stream_inv s'" "i < length (es_calls s)" "es_calls s' = (es_calls s)[i := q]"
    and "q = Leaving \<or> q = Finished" "es_calls s ! i = Entering e \<or> es_calls s ! i = Sending e"
    and "hs_called g' = hs_called g" "hs_received g' = hs_received g"
    and "es_closed s \<longrightarrow> es_closed s'"
    and "hs_sent g' = hs_sent g @ [(i, e)] \<and> hs_dropped g' = hs_dropped g \<and> es_chan s' = es_chan s @ [e] \<or>
      hs_sent g' = hs_sent g \<and> hs_dropped g' = hs_dropped g @ [(i, e)] \<and> es_chan s' = es_chan s \<and> es_closed s'"
  shows "hist_inv (s', g')"
proof -
  note inv = assms(1) [unfolded hist_inv_def prod.case]
  have e: "hs_called g ! i = e" using inv assms(3,6) by blast
  have new: "i \<notin> fst ` set (effected g)" using inv assms(6) by (fastforce simp: call_done_def)
  have "call_done s' j \<longleftrightarrow> j = i \<or> call_done s j" for j
    using assms(3-5) by (cases "j = i") (auto simp: call_done_def)
  moreover have "set (effected g') = insert (i, e) (set (effected g))" using assms(10) by auto
  ultimately have "(j, d) \<in> set (effected g') \<longleftrightarrow> call_done s' j \<and> d = hs_called g' ! j" for j d
    using inv e assms(7) by auto
  moreover have "distinct (map fst (effected g'))"
  proof -
    have "distinct (map fst (effected g))" using inv by blast
    with new assms(10) show ?thesis by (elim disjE) (simp_all add: image_Un)
  qed
  moreover have "hs_called g' ! j = d" if "j < length (es_calls s')" "es_calls s' ! j = Entering d \<or> es_calls s' ! j = Sending d" for j d
    using that inv assms(3-5,7) by (cases "j = i") auto
  moreover have "hs_received g' @ es_chan s' = map snd (hs_sent g')" using inv assms(8,10) by auto
  moreover have "hs_dropped g' \<noteq> [] \<longrightarrow> es_closed s'" using inv assms(9,10) by auto
  ultimately show ?thesis unfolding hist_inv_def prod.case using inv assms(2,4,7) by simp
qed

lemma hist_step_inv:
  assumes "hist_inv (s, g)" "emit_step s s'"
  shows "hist_inv (s', observe Step s s' g)"
proof -
  have inv: "stream_inv s'" "stream_inv s" using assms inv_emit_step by (auto simp: hist_inv_def)
  from assms(2) show ?thesis
  proof cases
    case (guard i e)
    note c = effects_update [OF guard(2), of 0]
    show ?thesis
    proof (cases "es_calls s' ! i = Finished")
      case True
      then have "es_calls s' = (es_calls s)[i := Finished]" "es_chan s' = es_chan s" "es_closed s'" "es_closed s' = es_closed s"
        using guard by (auto simp: emit_guard_def set_call_def split: if_splits)
      with guard show ?thesis
        by (intro hist_inv_takes [OF assms(1) inv(1) guard(2), of Finished e]) (simp_all add: observe_def c took_def)
    next
      case False
      then have m: "es_calls s' = (es_calls s)[i := Sending e]" "es_chan s' = es_chan s" "es_closed s' = es_closed s"
        using guard by (auto simp: emit_guard_def set_call_def split: if_splits)
      have "observe Step s s' g = g" using m(1,2) guard(3) by (simp add: observe_def c took_def)
      moreover have "hist_inv (s', g)"
        by (rule hist_inv_moves [OF assms(1) inv(1) guard(2) m]) (use assms(1) guard(2,3) in \<open>auto simp: hist_inv_def\<close>)
      ultimately show ?thesis by simp
    qed
  next
    case (send i e)
    have "\<not> es_chanClosed s"
      using inv(2) flights_pos [OF send(2)] send(3) by (auto simp: stream_inv_def)
    then have "es_calls s' = (es_calls s)[i := Leaving]" "es_chan s' = es_chan s @ [e]" "es_closed s' = es_closed s"
      using send(1) by (simp_all add: set_call_def send_chan_def)
    with send(2,3) show ?thesis
      by (intro hist_inv_takes [OF assms(1) inv(1) send(2), of Leaving e])
         (simp_all add: observe_def effects_update took_def)
  next
    case (give_up i e)
    then have "es_calls s' = (es_calls s)[i := Leaving]" "es_chan s' = es_chan s" "es_closed s'" "es_closed s' = es_closed s"
      using inv(2) by (simp_all add: set_call_def stream_inv_def)
    with give_up(2,3) show ?thesis
      by (intro hist_inv_takes [OF assms(1) inv(1) give_up(2), of Leaving e])
         (simp_all add: observe_def effects_update took_def)
  next
    case (release i)
    then have m: "es_calls s' = (es_calls s)[i := Finished]" "es_chan s' = es_chan s" "es_closed s' = es_closed s"
      by (simp_all add: emit_release_def set_call_def close_chan_def Let_def)
    have "observe Step s s' g = g" using m(1,2) release(2,3) by (simp add: observe_def effects_update took_def)
    moreover have "hist_inv (s', g)"
      by (rule hist_inv_moves [OF assms(1) inv(1) release(2) m]) (simp_all add: release(3))
    ultimately show ?thesis by simp
  qed
qed


lemma hist_trans_inv: "hist_trans x ev y \<Longrightarrow> hist_inv x \<Longrightarrow> hist_inv y"
proof (induction rule: hist_trans.induct)
  case (1 s ev s' g)
  note inv = 1(2) [unfolded hist_inv_def prod.case] and inv' = inv_stream_trans [OF 1(1)]
  show ?case
  proof (cases ev)
    case (Call e)
    then have s': "s' = s\<lparr>es_calls := es_calls s @ [Entering e]\<rparr>" using 1(1) by (auto elim: stream_trans.cases)
    then have "call_done s' j = call_done s j" for j by (auto simp: call_done_def nth_append)
    moreover have "(i, d) \<in> set (effected g) \<longleftrightarrow> call_done s i \<and> d = (hs_called g @ [e]) ! i" for i d
      using inv by (auto simp: call_done_def nth_append)
    ultimately show ?thesis using inv inv' s' Call
      unfolding hist_inv_def prod.case by (simp add: observe_def nth_append less_Suc_eq)
  next
    case Step
    with 1 hist_step_inv show ?thesis by (auto elim: stream_trans.cases)
  next
    case Shutdown
    then have s': "s' = stream_shutdown s" using 1(1) by (auto elim: stream_trans.cases)
    then have "call_done s' j = call_done s j" for j by (simp add: call_done_def stream_shutdown_def close_chan_def Let_def)
    moreover have "es_calls s' = es_calls s" "es_chan s' = es_chan s" "es_closed s'"
      by (simp_all add: s' stream_shutdown_def close_chan_def Let_def)
    ultimately show ?thesis using inv inv' Shutdown unfolding hist_inv_def prod.case by (simp add: observe_def)
  next
    case Receive
    then obtain e rest where s': "es_chan s = e # rest" "s' = s\<lparr>es_chan := rest\<rparr>" using 1(1) by (auto elim: stream_trans.cases)
    then have "call_done s' j = call_done s j" for j by (simp add: call_done_def)
    with inv inv' s' Receive show ?thesis unfolding hist_inv_def prod.case by (simp add: observe_def)
  qed
qed

interpretation stream_history: transition_system "\<lambda>x. x = (new_stream, new_history)" hist_trans hist_inv
proof unfold_locales
  show "hist_inv x" if "x = (new_stream, new_history)" for x :: "'e stream \<times> 'e history"
    using that inv_new_stream by (simp add: hist_inv_def new_history_def new_stream_def call_done_def)
qed (rule hist_trans_inv)

text \<open>Effects stay in their order, and a call that begins after the shutdown never sends.\<close>

lemma hist_grows:
  assumes "steps hist_trans (s1, g1) evs (s2, g2)"
  shows "\<exists>xs ys. hs_sent g2 = hs_sent g1 @ xs \<and> hs_dropped g2 = hs_dropped g1 @ ys \<and> (es_closed s1 \<longrightarrow> es_closed s2)"
proof -
  let ?Q = "\<lambda>(s, g). (\<exists>xs ys. hs_sent g = hs_sent g1 @ xs \<and> hs_dropped g = hs_dropped g1 @ ys \<and> (es_closed s1 \<longrightarrow> es_closed s))"
  have closed: "es_closed s'" if "stream_trans s ev s'" "es_closed s" for s ev and s' :: "'a stream"
    using that by (induction rule: stream_trans.induct)
      (auto elim!: emit_step.cases simp: emit_guard_def emit_release_def set_call_def send_chan_def close_chan_def
        stream_shutdown_def Let_def)
  have "?Q y" if "hist_trans x ev y" "?Q x" for x ev y
    using that
  proof (induction rule: hist_trans.induct)
    case (1 s ev s' g)
    with closed [OF 1(1)] show ?case by (cases ev) (auto simp: observe_def)
  qed
  with steps_induct_inv [OF assms, of ?Q] show ?thesis by auto
qed

definition late_quiet :: "nat \<Rightarrow> 'e stream \<times> 'e history \<Rightarrow> bool" where
  "late_quiet n = (\<lambda>(s, g). es_closed s \<and> (\<forall>j. n \<le> j \<longrightarrow> j < length (es_calls s) \<longrightarrow> \<not> in_flight (es_calls s ! j)) \<and>
     (\<forall>(j, e) \<in> set (hs_sent g). j < n))"

lemma late_quiet_flight:
  assumes "late_quiet n (s, g)" "i < length (es_calls s)" "in_flight (es_calls s ! i)"
  shows "i < n"
proof (rule ccontr)
  assume "\<not> i < n"
  with assms show False by (simp add: late_quiet_def)
qed

lemma late_quiet_step: "emit_step s s' \<Longrightarrow> late_quiet n (s, g) \<Longrightarrow> late_quiet n (s', observe Step s s' g)"
proof (induction rule: emit_step.induct)
  case (guard i s e)
  then show ?case
    by (auto simp: late_quiet_def observe_def emit_guard_def set_call_def nth_list_update)
next
  case (send i s e)
  then have "i < n" by (intro late_quiet_flight [of n s g]) simp_all
  with send show ?case
    by (auto simp: late_quiet_def observe_def set_call_def send_chan_def nth_list_update effects_update took_def)
next
  case (give_up i s e)
  then have "i < n" by (intro late_quiet_flight [of n s g]) simp_all
  with give_up show ?case by (auto simp: late_quiet_def observe_def set_call_def nth_list_update)
next
  case (release i s)
  then show ?case
    by (auto simp: late_quiet_def observe_def emit_release_def set_call_def close_chan_def nth_list_update Let_def)
qed

lemma late_quiet_trans: "hist_trans x ev y \<Longrightarrow> late_quiet n x \<Longrightarrow> late_quiet n y"
proof (induction rule: hist_trans.induct)
  case (1 s ev s' g)
  from 1(1) show ?case
  proof cases
    case st_step
    with 1(2) late_quiet_step show ?thesis by auto
  qed (use 1(2) in \<open>auto simp: late_quiet_def observe_def stream_shutdown_def close_chan_def nth_append less_Suc_eq Let_def\<close>)
qed

lemma late_calls_drop:
  assumes "hist_inv (s1, g1)" "steps hist_trans (s1, g1) evs (s2, g2)" "es_closed s1" "length (es_calls s1) \<le> j"
  shows "(j, e) \<notin> set (hs_sent g2)"
proof -
  have "late_quiet (length (es_calls s1)) (s1, g1)"
    using assms(1,3) by (auto simp: late_quiet_def hist_inv_def call_done_def)
  with steps_induct_inv [where Q = "late_quiet (length (es_calls s1))", OF assms(2)] late_quiet_trans
  have "late_quiet (length (es_calls s1)) (s2, g2)" by blast
  with assms(4) show ?thesis by (auto simp: late_quiet_def)
qed


lemma fold_mux_op:
  "fold (mux_op m) (map (\<lambda>(i, e). LinEmit i e) xs) w =
     (if io_closed w then w else w\<lparr>io_events := io_events w @ map snd xs\<rparr>)"
  by (induction xs arbitrary: w) (auto simp: mux_op_def emit_m_def)

lemma linearised_effect:
  assumes "hist_inv (s, g)"
  shows "fold (mux_op m) (linearised s g) \<lparr>io_client = c, io_events = [], io_closed = False\<rparr> =
     \<lparr>io_client = c, io_events = hs_received g @ es_chan s, io_closed = es_closed s\<rparr>"
  using assms by (auto simp: linearised_def fold_mux_op hist_inv_def mux_op_def mux_shutdown_def)

lemma precedes_append: "x \<in> set as \<Longrightarrow> y \<in> set bs \<Longrightarrow> precedes x y (as @ bs)"
  by (auto simp: precedes_def)

lemma hist_invD:
  assumes "hist_inv (s, g)"
  shows "(i, e) \<in> set (effected g) \<longleftrightarrow> call_done s i \<and> e = hs_called g ! i" "hs_dropped g \<noteq> [] \<Longrightarrow> es_closed s"
  using assms by (auto simp: hist_inv_def)

lemma LinEmit_in: "LinEmit i e \<in> set (map (\<lambda>(i, e). LinEmit i e) xs) \<longleftrightarrow> (i, e) \<in> set xs"
  by force

lemma finished_precede:
  assumes "hist_inv (s1, g1)" "hist_inv (s2, g2)" "steps hist_trans (s1, g1) evs (s2, g2)"
    and "i < length (es_calls s1)" "es_calls s1 ! i = Finished"
  shows "length (es_calls s1) \<le> j \<Longrightarrow> call_done s2 j \<Longrightarrow>
      precedes (LinEmit i (hs_called g2 ! i)) (LinEmit j (hs_called g2 ! j)) (linearised s2 g2)"
    and "\<not> es_closed s1 \<Longrightarrow> es_closed s2 \<Longrightarrow> precedes (LinEmit i (hs_called g2 ! i)) LinShutdown (linearised s2 g2)"
proof -
  let ?ops = "map (\<lambda>(i, e). LinEmit i e)" and ?shut = "if es_closed s2 then [LinShutdown] else []"
  note in1 = hist_invD [OF assms(1)] and in2 = hist_invD [OF assms(2)]
  obtain xs ys where g2: "hs_sent g2 = hs_sent g1 @ xs" "hs_dropped g2 = hs_dropped g1 @ ys"
    using hist_grows [OF assms(3)] by blast
  have "call_done s1 i" using assms(4,5) by (simp add: call_done_def)
  then have "(i, hs_called g1 ! i) \<in> set (effected g1)" using in1(1) by blast
  moreover from this have "(i, hs_called g1 ! i) \<in> set (effected g2)" by (auto simp: g2)
  then have "hs_called g2 ! i = hs_called g1 ! i" using in2(1) by metis
  ultimately have i: "(i, hs_called g2 ! i) \<in> set (hs_sent g1) \<or> (i, hs_called g2 ! i) \<in> set (hs_dropped g1)" by simp
  show "precedes (LinEmit i (hs_called g2 ! i)) LinShutdown (linearised s2 g2)" if "\<not> es_closed s1" "es_closed s2"
  proof -
    have "(i, hs_called g2 ! i) \<in> set (hs_sent g2)" using i in1(2) that(1) by (cases "hs_dropped g1 = []") (auto simp: g2)
    with that(2) precedes_append [of "LinEmit i (hs_called g2 ! i)" "?ops (hs_sent g2)" LinShutdown "?shut @ ?ops (hs_dropped g2)"]
    show ?thesis by (simp only: linearised_def LinEmit_in) simp
  qed
  show "precedes (LinEmit i (hs_called g2 ! i)) (LinEmit j (hs_called g2 ! j)) (linearised s2 g2)"
    if j: "length (es_calls s1) \<le> j" "call_done s2 j"
  proof -
    have "\<not> call_done s1 j" using j(1) by (simp add: call_done_def)
    then have new: "(j, hs_called g2 ! j) \<notin> set (effected g1)" using in1(1) by blast
    have old: "(j, hs_called g2 ! j) \<in> set (effected g2)" using in2(1) j(2) by blast
    from i show ?thesis
    proof
      assume "(i, hs_called g2 ! i) \<in> set (hs_sent g1)"
      moreover have "LinEmit j (hs_called g2 ! j) \<in> set (?ops xs @ ?shut @ ?ops (hs_dropped g2))"
        using new old by (simp only: set_append Un_iff LinEmit_in) (auto simp: g2)
      ultimately have "precedes (LinEmit i (hs_called g2 ! i)) (LinEmit j (hs_called g2 ! j))
          (?ops (hs_sent g1) @ ?ops xs @ ?shut @ ?ops (hs_dropped g2))" by (intro precedes_append) (simp_all only: LinEmit_in)
      then show ?thesis by (simp add: linearised_def g2(1))
    next
      assume d: "(i, hs_called g2 ! i) \<in> set (hs_dropped g1)"
      then have "es_closed s1" using in1(2) by force
      from late_calls_drop [OF assms(1,3) this j(1)] new old have "(j, hs_called g2 ! j) \<in> set ys" by (auto simp: g2)
      with d have "precedes (LinEmit i (hs_called g2 ! i)) (LinEmit j (hs_called g2 ! j))
          ((?ops (hs_sent g2) @ ?shut @ ?ops (hs_dropped g1)) @ ?ops ys)"
        by (intro precedes_append) (simp_all only: set_append Un_iff LinEmit_in, simp)
      then show ?thesis by (simp add: linearised_def g2(2))
    qed
  qed
qed

lemma shutdown_precedes:
  assumes "hist_inv (s1, g1)" "hist_inv (s2, g2)" "steps hist_trans (s1, g1) evs (s2, g2)" "es_closed s1"
    and "length (es_calls s1) \<le> j" "call_done s2 j"
  shows "precedes LinShutdown (LinEmit j (hs_called g2 ! j)) (linearised s2 g2)"
proof -
  have "(j, hs_called g2 ! j) \<in> set (effected g2)" using assms(2,6) by (auto simp: hist_inv_def)
  with late_calls_drop [OF assms(1,3-5)] have "LinEmit j (hs_called g2 ! j) \<in> set (map (\<lambda>(i, e). LinEmit i e) (hs_dropped g2))"
    by force
  moreover have "es_closed s2" using hist_grows [OF assms(3)] assms(4) by blast
  ultimately have "precedes LinShutdown (LinEmit j (hs_called g2 ! j))
      ((map (\<lambda>(i, e). LinEmit i e) (hs_sent g2) @ (if es_closed s2 then [LinShutdown] else [])) @
        map (\<lambda>(i, e). LinEmit i e) (hs_dropped g2))" by (intro precedes_append) auto
  then show ?thesis by (simp add: linearised_def)
qed

text \<open>
  C19. The synchronised stream is linearisable with respect to the one-step emit and shutdown of the
  routing model: at every moment, however emits, shutdowns and the consumer interleave, performing
  the one-step operations in the order of \<open>linearised\<close> yields exactly what the consumer has
  received so far followed by what is in the channel, and the stream closed if shutdown has begun.
  Every call that is past its effect occurs there exactly once, with the event it was made with. And the
  order respects real time: a call that had returned comes before one that begins later, one that had returned
  before the shutdown comes before it, and one that begins after the shutdown comes after it.
\<close>

theorem stream_linearizable:
  assumes "reachable_from (\<lambda>x. x = (new_stream, new_history)) hist_trans (s1, g1)"
    and "steps hist_trans (s1, g1) evs (s2, g2)"
  shows "fold (mux_op m) (linearised s2 g2) \<lparr>io_client = c, io_events = [], io_closed = False\<rparr> =
       \<lparr>io_client = c, io_events = hs_received g2 @ es_chan s2, io_closed = es_closed s2\<rparr> \<and>
     distinct (map fst (effected g2)) \<and> set (effected g2) = {(i, hs_called g2 ! i) | i. call_done s2 i} \<and>
     (\<forall>i < length (es_calls s1). es_calls s1 ! i = Finished \<longrightarrow>
        (\<forall>j. length (es_calls s1) \<le> j \<longrightarrow> call_done s2 j \<longrightarrow>
           precedes (LinEmit i (hs_called g2 ! i)) (LinEmit j (hs_called g2 ! j)) (linearised s2 g2)) \<and>
        (\<not> es_closed s1 \<longrightarrow> es_closed s2 \<longrightarrow> precedes (LinEmit i (hs_called g2 ! i)) LinShutdown (linearised s2 g2))) \<and>
     (es_closed s1 \<longrightarrow> (\<forall>j. length (es_calls s1) \<le> j \<longrightarrow> call_done s2 j \<longrightarrow>
        precedes LinShutdown (LinEmit j (hs_called g2 ! j)) (linearised s2 g2)))"
proof -
  have inv1: "hist_inv (s1, g1)" by (rule stream_history.reachable_invariant [OF assms(1)])
  have inv2: "hist_inv (s2, g2)" using steps_induct_inv [where Q = hist_inv, OF assms(2) inv1] hist_trans_inv by blast
  note before = finished_precede [OF inv1 inv2 assms(2)] and after = shutdown_precedes [OF inv1 inv2 assms(2)]
  have calls: "set (effected g2) = {(i, hs_called g2 ! i) | i. call_done s2 i}"
    using hist_invD(1) [OF inv2] by (auto simp del: set_append)
  have once: "distinct (map fst (effected g2))" using inv2 unfolding hist_inv_def prod.case by (elim conjE)
  show ?thesis
    by (intro conjI allI impI linearised_effect [OF inv2] once calls) (rule before(1) before(2) after; assumption)+
qed

section \<open>Examples\<close>

lemma reach_new_stream: "reachable_from (\<lambda>s. s = new_stream) stream_trans new_stream"
  by (rule reach_initial) simp

lemma reach_emit_step:
  "reachable_from (\<lambda>s. s = new_stream) stream_trans s \<Longrightarrow> emit_step s s' \<Longrightarrow>
   reachable_from (\<lambda>s. s = new_stream) stream_trans s'"
  by (erule reach_step) (rule st_step)

text \<open>An emit is past its guard when shutdown begins; it gives up and closes the stream.\<close>

definition demo_sending :: "mux_event stream" where
  "demo_sending = emit_guard 0 (Promoted 1) (new_stream\<lparr>es_calls := [Entering (Promoted 1)]\<rparr>)"

definition demo_closing :: "mux_event stream" where
  "demo_closing = emit_release 0 (set_call 0 Leaving (stream_shutdown demo_sending))"

lemmas demo_stream_defs = demo_sending_def demo_closing_def new_stream_def emit_guard_def emit_release_def
  set_call_def stream_shutdown_def close_chan_def Let_def

lemma demo_sending_reachable: "reachable_from (\<lambda>s. s = new_stream) stream_trans demo_sending"
proof -
  have "stream_trans new_stream (Call (Promoted 1)) (new_stream\<lparr>es_calls := [Entering (Promoted 1)]\<rparr>)"
    using st_call [of new_stream "Promoted 1"] by (simp add: new_stream_def)
  then have r: "reachable_from (\<lambda>s. s = new_stream) stream_trans (new_stream\<lparr>es_calls := [Entering (Promoted 1)]\<rparr>)"
    by (rule reach_step [OF reach_new_stream])
  show ?thesis
    unfolding demo_sending_def by (rule reach_emit_step [OF r], rule emit_step.guard) simp_all
qed

lemma demo_closing_reachable: "reachable_from (\<lambda>s. s = new_stream) stream_trans demo_closing"
proof -
  have r: "reachable_from (\<lambda>s. s = new_stream) stream_trans (stream_shutdown demo_sending)"
    by (rule reach_step [OF demo_sending_reachable st_shutdown])
  have "emit_step (stream_shutdown demo_sending) (set_call 0 Leaving (stream_shutdown demo_sending))"
    by (rule emit_step.give_up [where e = "Promoted 1"]) (simp_all add: demo_stream_defs)
  then have r2: "reachable_from (\<lambda>s. s = new_stream) stream_trans (set_call 0 Leaving (stream_shutdown demo_sending))"
    by (rule reach_emit_step [OF r])
  show ?thesis
    unfolding demo_closing_def by (rule reach_emit_step [OF r2], rule emit_step.release)
      (simp_all add: demo_stream_defs)
qed

theorem stream_never_panics_witness: "\<not> es_panic demo_closing \<and> es_chanClosed demo_closing"
  using stream_never_panics [OF demo_closing_reachable] by (simp add: demo_stream_defs)

theorem shutdown_completes_witness:
  "es_closed demo_closing \<and> (\<nexists>s'. emit_step demo_closing s') \<and> es_chanClosed demo_closing"
proof -
  have stuck: "\<nexists>s'. emit_step demo_closing s'"
    by (auto elim!: emit_step.cases simp: demo_stream_defs)
  have closed: "es_closed demo_closing" by (simp add: demo_stream_defs)
  show ?thesis using shutdown_completes [OF demo_closing_reachable closed] stuck closed by blast
qed

definition demo_history :: "mux_event history" where
  "demo_history = \<lparr>hs_called = [Promoted 1], hs_received = [], hs_sent = [], hs_dropped = [(0, Promoted 1)]\<rparr>"

lemma reach_history:
  "reachable_from (\<lambda>x. x = (new_stream, new_history)) hist_trans (s, g) \<Longrightarrow> stream_trans s ev s' \<Longrightarrow> observe ev s s' g = g' \<Longrightarrow>
   reachable_from (\<lambda>x. x = (new_stream, new_history)) hist_trans (s', g')"
  using hist_trans.intros reach_step by metis

lemma demo_history_reachable: "reachable_from (\<lambda>x. x = (new_stream, new_history)) hist_trans (demo_closing, demo_history)"
proof -
  let ?R = "reachable_from (\<lambda>x. x = (new_stream, new_history)) hist_trans"
  let ?s1 = "new_stream\<lparr>es_calls := [Entering (Promoted 1)]\<rparr>" and ?s3 = "stream_shutdown demo_sending"
  let ?g = "new_history\<lparr>hs_called := [Promoted 1]\<rparr>" and ?s4 = "set_call 0 Leaving (stream_shutdown demo_sending)"
  have "?R (new_stream, new_history)" by (rule reach_initial) simp
  moreover have "stream_trans new_stream (Call (Promoted 1)) ?s1"
    using st_call [of new_stream "Promoted 1"] by (simp add: new_stream_def)
  ultimately have "?R (?s1, ?g)" by (rule reach_history) (simp add: observe_def new_history_def)
  then have "?R (demo_sending, ?g)"
    by (rule reach_history [OF _ st_step]) (unfold demo_sending_def, rule emit_step.guard,
      simp_all add: demo_stream_defs observe_def took_def new_history_def)
  then have "?R (?s3, ?g)" by (rule reach_history [OF _ st_shutdown]) (simp add: observe_def)
  then have "?R (?s4, demo_history)"
    by (rule reach_history [OF _ st_step], intro emit_step.give_up [where e = "Promoted 1"])
       (simp_all add: demo_stream_defs observe_def took_def new_history_def demo_history_def)
  then show ?thesis
    by (rule reach_history [OF _ st_step], unfold demo_closing_def, intro emit_step.release)
       (simp_all add: demo_stream_defs observe_def took_def demo_history_def)
qed

theorem stream_linearizable_witness:
  "\<exists>s2 g2. steps hist_trans (demo_closing, demo_history) [Call (Promoted 2), Step] (s2, g2) \<and>
     precedes LinShutdown (LinEmit 1 (Promoted 2)) (linearised s2 g2) \<and>
     precedes (LinEmit 0 (Promoted 1)) (LinEmit 1 (Promoted 2)) (linearised s2 g2)"
proof -
  let ?s1 = "demo_closing\<lparr>es_calls := es_calls demo_closing @ [Entering (Promoted 2)]\<rparr>" and ?g1 = "demo_history\<lparr>hs_called := [Promoted 1, Promoted 2]\<rparr>"
  let ?s2 = "emit_guard 1 (Promoted 2) ?s1"
  let ?g2 = "?g1\<lparr>hs_dropped := [(0, Promoted 1), (1, Promoted 2)]\<rparr>"
  have d: "es_calls demo_closing = [Finished]" "es_closed demo_closing" "es_calls ?s2 = [Finished, Finished]" "es_chan ?s2 = es_chan ?s1"
    by (simp_all add: demo_stream_defs)
  have "hist_trans (demo_closing, demo_history) (Call (Promoted 2)) (?s1, ?g1)"
    using hist_trans.intros [OF st_call [of demo_closing "Promoted 2"], of demo_history] by (simp add: observe_def demo_history_def)
  moreover have "emit_step ?s1 ?s2" by (rule emit_step.guard) (simp_all add: d(1))
  have "observe Step ?s1 ?s2 ?g1 = ?g2" by (simp add: demo_stream_defs observe_def took_def demo_history_def)
  with hist_trans.intros [OF st_step [OF \<open>emit_step ?s1 ?s2\<close>], of ?g1] have "hist_trans (?s1, ?g1) Step (?s2, ?g2)" by simp
  ultimately have run: "steps hist_trans (demo_closing, demo_history) [Call (Promoted 2), Step] (?s2, ?g2)"
    by (blast intro: steps.intros)
  note all = stream_linearizable [OF demo_history_reachable run, THEN conjunct2, THEN conjunct2, THEN conjunct2]
  have cd: "call_done ?s2 1" by (simp add: call_done_def demo_stream_defs)
  have one: "length (es_calls demo_closing) \<le> 1" "0 < length (es_calls demo_closing)" "es_calls demo_closing ! 0 = Finished"
    by (simp_all add: d(1))
  from all [THEN conjunct2] d(2) one(1) cd have "precedes LinShutdown (LinEmit 1 (hs_called ?g2 ! 1)) (linearised ?s2 ?g2)" by blast
  moreover from all [THEN conjunct1] one cd
  have "precedes (LinEmit 0 (hs_called ?g2 ! 0)) (LinEmit 1 (hs_called ?g2 ! 1)) (linearised ?s2 ?g2)" by blast
  moreover have "hs_called ?g2 ! 0 = Promoted 1" "hs_called ?g2 ! 1 = Promoted 2" by simp_all
  ultimately show ?thesis using run by metis
qed

end
