(* ===== verification/Dashboard.thy ===== *)
theory Dashboard
  imports GoWeb Sha256 Stats
begin

text \<open>
  The admin dashboard (src/dashboard/dashboard.go): GitHub login, signed cookies and states, and
  the pages behind them. GitHub is the parameter \<open>github\<close>, what its two endpoints answer; random
  bytes, the time (in nanoseconds) and the statistics are arguments. Of \<open>net/http\<close> a request is
  its query, cookies and headers, and a reply its body and the cookies set; the query of a
  redirect is kept as the list of its parameters.
\<close>

section \<open>Configuration\<close>

definition sessionTTL :: int where "sessionTTL = 7 * 24 * 3600 * second"
definition stateTTL :: int where "stateTTL = 10 * 60 * second"
definition defaultAppName :: string where "defaultAppName = ''parley''"

record Config =
  cfg_ClientID :: string
  cfg_ClientSecret :: string
  cfg_CookieKey :: bytes
  cfg_Allow :: "runes list"
  cfg_BaseURL :: string
  cfg_AppName :: string

record Dashboard =
  d_cfg :: Config
  d_authorizeURL :: string
  d_tokenURL :: string
  d_userURL :: string
  d_cookieName :: string
  d_page :: bytes

definition dashboard_New :: "bytes \<Rightarrow> Config \<Rightarrow> Dashboard" where
  "dashboard_New pageHTML cfg =
     (let app = (if cfg_AppName cfg = [] then defaultAppName else cfg_AppName cfg);
          brand = HTMLEscapeString (app @ '' relay'')
      in \<lparr>d_cfg = cfg, d_authorizeURL = ''https://github.com/login/oauth/authorize'',
          d_tokenURL = ''https://github.com/login/oauth/access_token'', d_userURL = ''https://api.github.com/user'',
          d_cookieName = app @ ''_admin'', d_page = ReplaceAll (str_bytes ''{{APP}}'') brand pageHTML\<rparr>)"

section \<open>Requests and replies\<close>

record web_request =
  wq_query :: "(string \<times> string) list"
  wq_cookies :: "(string \<times> string) list"
  wq_headers :: "(string \<times> string) list"

definition Query_Get :: "string \<Rightarrow> web_request \<Rightarrow> string" where
  "Query_Get k r = (case map_of (wq_query r) k of Some v \<Rightarrow> v | None \<Rightarrow> [])"

record cookie =
  ck_Name :: string
  ck_Value :: string
  ck_Path :: string
  ck_Expires :: "int option"
  ck_MaxAge :: int
  ck_HttpOnly :: bool
  ck_Secure :: bool
  ck_SameSiteLax :: bool

datatype web_body =
    Redirect string "(string \<times> string) list"
  | HttpError int string
  | HTML bytes
  | JSON Stats

record web_reply =
  wr_body :: web_body
  wr_cookies :: "cookie list"

abbreviation reply_with :: "web_body \<Rightarrow> web_reply" where
  "reply_with b \<equiv> \<lparr>wr_body = b, wr_cookies = []\<rparr>"

text \<open>\<open>http.SetCookie\<close> adds no header for a cookie whose name is not a token.\<close>

definition SetCookie :: "cookie \<Rightarrow> web_reply \<Rightarrow> web_reply" where
  "SetCookie ck w = (if is_token (ck_Name ck) then w\<lparr>wr_cookies := wr_cookies w @ [ck]\<rparr> else w)"

section \<open>Signed tokens\<close>

definition sign :: "Dashboard \<Rightarrow> string \<Rightarrow> string" where
  "sign d msg =
     b64_EncodeToString (str_bytes msg) @ ''.'' @ b64_EncodeToString (hmac_sha256 (cfg_CookieKey (d_cfg d)) (str_bytes msg))"

definition unsign :: "Dashboard \<Rightarrow> string \<Rightarrow> string option" where
  "unsign d tok =
     (case Cut (CHR ''.'') tok of
        None \<Rightarrow> None
      | Some (msgB64, sigB64) \<Rightarrow>
          (case b64_DecodeString msgB64 of
             None \<Rightarrow> None
           | Some msg \<Rightarrow>
               (case b64_DecodeString sigB64 of
                  None \<Rightarrow> None
                | Some sig \<Rightarrow>
                    if sig \<noteq> hmac_sha256 (cfg_CookieKey (d_cfg d)) msg then None else Some (gostr msg))))"

definition Unix :: "int \<Rightarrow> int" where "Unix t = t div second"

definition session_cookie :: "Dashboard \<Rightarrow> int \<Rightarrow> runes \<Rightarrow> cookie" where
  "session_cookie d now login =
     (let expires = now + sessionTTL
      in \<lparr>ck_Name = d_cookieName d, ck_Value = sign d (gostr (utf8 login) @ ''|'' @ FormatInt (Unix expires)),
          ck_Path = ''/'', ck_Expires = Some expires, ck_MaxAge = sessionTTL div second, ck_HttpOnly = True,
          ck_Secure = True, ck_SameSiteLax = True\<rparr>)"

definition setCookie :: "Dashboard \<Rightarrow> int \<Rightarrow> runes \<Rightarrow> web_reply \<Rightarrow> web_reply" where
  "setCookie d now login = SetCookie (session_cookie d now login)"

definition currentUser :: "Dashboard \<Rightarrow> int \<Rightarrow> web_request \<Rightarrow> string option" where
  "currentUser d now r =
     (case map_of (wq_cookies r) (d_cookieName d) of
        None \<Rightarrow> None
      | Some v \<Rightarrow>
          (case unsign d v of
             None \<Rightarrow> None
           | Some msg \<Rightarrow>
               (case Cut (CHR ''|'') msg of
                  None \<Rightarrow> None
                | Some (login, expS) \<Rightarrow>
                    (case ParseInt expS of
                       None \<Rightarrow> None
                     | Some expires \<Rightarrow> if Unix now > expires then None else Some login))))"

definition newState :: "Dashboard \<Rightarrow> bytes \<Rightarrow> int \<Rightarrow> string" where
  "newState d nonce now = sign d (EncodeToString nonce @ ''|'' @ FormatInt (Unix (now + stateTTL)))"

definition checkState :: "Dashboard \<Rightarrow> int \<Rightarrow> string \<Rightarrow> bool" where
  "checkState d now state =
     (case unsign d state of
        None \<Rightarrow> False
      | Some msg \<Rightarrow>
          (case Cut (CHR ''|'') msg of
             None \<Rightarrow> False
           | Some (_, expS) \<Rightarrow>
               (case ParseInt expS of None \<Rightarrow> False | Some expires \<Rightarrow> Unix now \<le> expires)))"

section \<open>GitHub\<close>

datatype oauth_error = RequestFailed | BadAnswer | errNoToken | errNoLogin

text \<open>
  The answers of GitHub, already decoded: to a form posted to a URL the access token, and to a
  request to a URL with a bearer token the login.
\<close>

record github =
  gh_token :: "string \<Rightarrow> (string \<times> string) list \<Rightarrow> oauth_error + string"
  gh_login :: "string \<Rightarrow> string \<Rightarrow> oauth_error + runes"

definition redirectURI :: "Dashboard \<Rightarrow> string" where
  "redirectURI d = rev (dropWhile (\<lambda>c. c = CHR ''/'') (rev (cfg_BaseURL (d_cfg d)))) @ ''/auth/callback''"

definition exchangeCode :: "github \<Rightarrow> Dashboard \<Rightarrow> string \<Rightarrow> oauth_error + string" where
  "exchangeCode gh d code =
     (case gh_token gh (d_tokenURL d)
        [(''client_id'', cfg_ClientID (d_cfg d)), (''client_secret'', cfg_ClientSecret (d_cfg d)),
         (''code'', code), (''redirect_uri'', redirectURI d)] of
        Inl e \<Rightarrow> Inl e
      | Inr token \<Rightarrow> if token = [] then Inl errNoToken else Inr token)"

definition fetchLogin :: "github \<Rightarrow> Dashboard \<Rightarrow> string \<Rightarrow> oauth_error + runes" where
  "fetchLogin gh d token =
     (case gh_login gh (d_userURL d) (''Bearer '' @ token) of
        Inl e \<Rightarrow> Inl e
      | Inr login \<Rightarrow> if login = [] then Inl errNoLogin else Inr login)"

fun allowed_in :: "(rune \<Rightarrow> rune) \<Rightarrow> runes list \<Rightarrow> runes \<Rightarrow> bool" where
  "allowed_in U [] login = False"
| "allowed_in U (a # rest) login = (if EqualFold U (TrimSpace a) login then True else allowed_in U rest login)"

definition allowed :: "(rune \<Rightarrow> rune) \<Rightarrow> Dashboard \<Rightarrow> runes \<Rightarrow> bool" where
  "allowed U d login = allowed_in U (cfg_Allow (d_cfg d)) login"

section \<open>Routes\<close>

definition handleDashboard :: "Dashboard \<Rightarrow> int \<Rightarrow> web_request \<Rightarrow> web_reply" where
  "handleDashboard d now r =
     (case currentUser d now r of
        None \<Rightarrow> reply_with (Redirect ''/auth/login'' [])
      | Some _ \<Rightarrow> reply_with (HTML (d_page d)))"

definition handleData :: "Dashboard \<Rightarrow> Stats \<Rightarrow> int \<Rightarrow> web_request \<Rightarrow> web_reply" where
  "handleData d stats now r =
     (case currentUser d now r of
        None \<Rightarrow> reply_with (HttpError 401 ''unauthorized'')
      | Some _ \<Rightarrow> reply_with (JSON stats))"

definition handleLogin :: "Dashboard \<Rightarrow> bytes \<Rightarrow> int \<Rightarrow> web_request \<Rightarrow> web_reply" where
  "handleLogin d nonce now r =
     reply_with (Redirect (d_authorizeURL d)
       [(''allow_signup'', ''false''), (''client_id'', cfg_ClientID (d_cfg d)), (''redirect_uri'', redirectURI d),
        (''scope'', ''read:user''), (''state'', newState d nonce now)])"

definition handleCallback :: "(rune \<Rightarrow> rune) \<Rightarrow> github \<Rightarrow> Dashboard \<Rightarrow> int \<Rightarrow> web_request \<Rightarrow> web_reply" where
  "handleCallback U gh d now r =
     (if \<not> checkState d now (Query_Get ''state'' r) then reply_with (HttpError 400 ''bad or expired state'')
      else
        (let code = Query_Get ''code'' r
         in if code = [] then reply_with (HttpError 400 ''missing code'')
            else case exchangeCode gh d code of
                   Inl e \<Rightarrow> reply_with (HttpError 502 ''oauth exchange failed'')
                 | Inr token \<Rightarrow>
                     (case fetchLogin gh d token of
                        Inl e \<Rightarrow> reply_with (HttpError 502 ''could not read GitHub user'')
                      | Inr login \<Rightarrow>
                          if \<not> allowed U d login then reply_with (HttpError 403 ''not authorized'')
                          else setCookie d now login (reply_with (Redirect ''/dashboard'' [])))))"

definition handleLogout :: "Dashboard \<Rightarrow> web_request \<Rightarrow> web_reply" where
  "handleLogout d r =
     SetCookie \<lparr>ck_Name = d_cookieName d, ck_Value = '''', ck_Path = ''/'', ck_Expires = None, ck_MaxAge = -1,
        ck_HttpOnly = True, ck_Secure = True, ck_SameSiteLax = True\<rparr>
       (reply_with (Redirect ''/auth/login'' []))"

definition Register :: "(rune \<Rightarrow> rune) \<Rightarrow> github \<Rightarrow> Dashboard \<Rightarrow> Stats \<Rightarrow> bytes \<Rightarrow> int \<Rightarrow> string \<Rightarrow>
    (web_request \<Rightarrow> web_reply) option" where
  "Register U gh d stats nonce now path =
     map_of [(''/dashboard'', handleDashboard d now), (''/dashboard/data'', handleData d stats now),
       (''/auth/login'', handleLogin d nonce now), (''/auth/callback'', handleCallback U gh d now),
       (''/auth/logout'', handleLogout d)] path"

section \<open>Tokens\<close>

lemma unsign_sign [simp]: "unsign d (sign d msg) = Some msg"
  by (simp add: unsign_def sign_def)

lemma unsign_authentic:
  "unsign d tok = Some msg \<Longrightarrow>
     \<exists>m s. tok = m @ CHR ''.'' # s \<and> b64_DecodeString s = Some (hmac_sha256 (cfg_CookieKey (d_cfg d)) (str_bytes msg))"
  by (auto simp: unsign_def split: option.splits if_splits dest!: Cut_SomeD) blast

definition unix_range :: "int \<Rightarrow> bool" where
  "unix_range t \<longleftrightarrow> - (2 ^ 63) \<le> Unix t \<and> Unix t < 2 ^ 63"

lemma currentUser_signed:
  assumes "map_of (wq_cookies r) (d_cookieName d) = Some (sign d (who @ ''|'' @ FormatInt (Unix expires)))"
    and "CHR ''|'' \<notin> set who" and "unix_range expires"
  shows "currentUser d now r = (if Unix now \<le> Unix expires then Some who else None)"
  using assms by (simp add: currentUser_def unix_range_def ParseInt_FormatInt)

lemma hex_no_bar: "CHR ''|'' \<notin> set (EncodeToString bs)"
proof (induction bs)
  case (Cons b bs)
  have bar: "from_hex_char (CHR ''|'') = None" by code_simp
  have ne: "CHR ''|'' \<noteq> hex_digit n" if "n < 16" for n
    using bar from_hex_digit [OF that] by force
  have "unat b div 16 < 16" using unat_byte_less [of b] by auto
  with Cons show ?case using ne [of "unat b div 16"] ne [of "unat b mod 16"] by simp
qed simp

lemma checkState_newState:
  "unix_range (now0 + stateTTL) \<Longrightarrow> checkState d now (newState d nonce now0) \<longleftrightarrow> Unix now \<le> Unix (now0 + stateTTL)"
  using hex_no_bar [of nonce] by (simp add: checkState_def newState_def unix_range_def ParseInt_FormatInt)

text \<open>
  C30. Logging in works and expires: when the callback of a login presents a state of this dashboard
  that is at most ten minutes old and a code, GitHub answers with a login, and the login is on the
  allow list, the browser is sent to the dashboard with one cookie; a later request with that cookie
  gets page and data up to seven days after the login and is sent away afterwards.
\<close>

theorem login_grants_until_expiry:
  assumes "Query_Get ''state'' rq = newState d nonce now0" "Unix now \<le> Unix (now0 + stateTTL)" "unix_range (now0 + stateTTL)"
    and "Query_Get ''code'' rq \<noteq> []" "exchangeCode gh d (Query_Get ''code'' rq) = Inr token"
    and "fetchLogin gh d token = Inr login" "allowed U d login"
    and "is_token (d_cookieName d)" "CHR ''|'' \<notin> set (gostr (utf8 login))" "unix_range (now + sessionTTL)"
  shows "\<exists>ck. handleCallback U gh d now rq = \<lparr>wr_body = Redirect ''/dashboard'' [], wr_cookies = [ck]\<rparr> \<and>
     ck_Name ck = d_cookieName d \<and>
     (\<forall>r now' stats. map_of (wq_cookies r) (d_cookieName d) = Some (ck_Value ck) \<longrightarrow>
        (if Unix now' \<le> Unix (now + sessionTTL)
         then handleDashboard d now' r = reply_with (HTML (d_page d)) \<and> handleData d stats now' r = reply_with (JSON stats)
         else handleDashboard d now' r = reply_with (Redirect ''/auth/login'' []) \<and>
           handleData d stats now' r = reply_with (HttpError 401 ''unauthorized'')))"
proof (intro exI conjI allI impI)
  let ?ck = "session_cookie d now login"
  show "handleCallback U gh d now rq = \<lparr>wr_body = Redirect ''/dashboard'' [], wr_cookies = [?ck]\<rparr>"
    using assms by (simp add: handleCallback_def checkState_newState setCookie_def SetCookie_def session_cookie_def Let_def)
  show "ck_Name ?ck = d_cookieName d" by (simp add: session_cookie_def Let_def)
  fix r :: web_request and now' :: int and stats :: Stats
  assume "map_of (wq_cookies r) (d_cookieName d) = Some (ck_Value ?ck)"
  then have "currentUser d now' r = (if Unix now' \<le> Unix (now + sessionTTL) then Some (gostr (utf8 login)) else None)"
    using assms(9,10) by (intro currentUser_signed) (simp_all add: session_cookie_def Let_def)
  then show "if Unix now' \<le> Unix (now + sessionTTL)
         then handleDashboard d now' r = reply_with (HTML (d_page d)) \<and> handleData d stats now' r = reply_with (JSON stats)
         else handleDashboard d now' r = reply_with (Redirect ''/auth/login'' []) \<and>
           handleData d stats now' r = reply_with (HttpError 401 ''unauthorized'')"
    by (simp add: handleDashboard_def handleData_def)
qed

lemma allowed_iff: "allowed U d login \<longleftrightarrow> (\<exists>a \<in> set (cfg_Allow (d_cfg d)). EqualFold U (TrimSpace a) login)"
proof -
  have "allowed_in U as login \<longleftrightarrow> (\<exists>a \<in> set as. EqualFold U (TrimSpace a) login)" for as
    by (induction as) auto
  then show ?thesis by (simp add: allowed_def)
qed

text \<open>
  C31. A session cookie is handed out to allowed logins only: the callback sets a cookie only if
  state, code and both answers of GitHub are good and the login is, up to case and surrounding
  space, on the allow list; and it is then the cookie for that login.
\<close>

theorem cookie_only_for_allowed:
  assumes "wr_cookies (handleCallback U gh d now rq) \<noteq> []"
  shows "checkState d now (Query_Get ''state'' rq) \<and>
     (\<exists>token login. exchangeCode gh d (Query_Get ''code'' rq) = Inr token \<and> fetchLogin gh d token = Inr login \<and>
        (\<exists>a \<in> set (cfg_Allow (d_cfg d)). EqualFold U (TrimSpace a) login) \<and>
        wr_cookies (handleCallback U gh d now rq) = [session_cookie d now login])"
  using assms unfolding allowed_iff [symmetric]
  by (auto simp: handleCallback_def setCookie_def SetCookie_def Let_def split: if_splits sum.splits)

text \<open>
  C29. The state of the login redirect opens the dashboard: anybody who asks for the login page is
  redirected with a state, and a request carrying that state as session cookie gets page and data
  for ten minutes, with an empty allow list as well.
\<close>

theorem state_opens_dashboard:
  assumes "handleLogin d nonce now rq = reply_with (Redirect url params)" and "map_of params ''state'' = Some state"
    and "map_of (wq_cookies r) (d_cookieName d) = Some state"
    and "Unix now' \<le> Unix (now + stateTTL)" and "unix_range (now + stateTTL)"
  shows "handleDashboard d now' r = reply_with (HTML (d_page d)) \<and> handleData d stats now' r = reply_with (JSON stats)"
proof -
  have "state = newState d nonce now" using assms(1,2) by (auto simp: handleLogin_def)
  then have "currentUser d now' r = Some (EncodeToString nonce)"
    using assms hex_no_bar currentUser_signed [where who = "EncodeToString nonce" and expires = "now + stateTTL" and d = d and r = r]
    by (simp add: newState_def)
  then show ?thesis by (simp add: handleDashboard_def handleData_def)
qed

section \<open>Examples\<close>

definition demo_dash :: Dashboard where
  "demo_dash = dashboard_New (str_bytes ''<h1>{{APP}}</h1>'')
     \<lparr>cfg_ClientID = ''id'', cfg_ClientSecret = ''secret'', cfg_CookieKey = [1, 2, 3], cfg_Allow = [runes_of '' octocat ''],
      cfg_BaseURL = ''https://relay.example/'', cfg_AppName = []\<rparr>"

definition demo_gh :: github where
  "demo_gh = \<lparr>gh_token = (\<lambda>_ _. Inr ''token''), gh_login = (\<lambda>_ _. Inr (runes_of ''Octocat''))\<rparr>"

definition demo_callback :: web_request where
  "demo_callback = \<lparr>wq_query = [(''state'', newState demo_dash [7] 0), (''code'', ''abc'')], wq_cookies = [], wq_headers = []\<rparr>"

lemma demo_dash_parts:
  "d_cookieName demo_dash = ''parley_admin''" "redirectURI demo_dash = ''https://relay.example/auth/callback''"
  "d_page demo_dash = str_bytes ''<h1>parley relay</h1>''" "cfg_Allow (d_cfg demo_dash) = [runes_of '' octocat '']"
  by code_simp+

lemma demo_callback_parts:
  "Query_Get ''state'' demo_callback = newState demo_dash [7] 0" "Query_Get ''code'' demo_callback = ''abc''"
  by (simp_all add: Query_Get_def demo_callback_def)

lemma demo_gh_parts:
  "exchangeCode demo_gh demo_dash ''abc'' = Inr ''token''" "fetchLogin demo_gh demo_dash ''token'' = Inr (runes_of ''Octocat'')"
  by (simp_all add: exchangeCode_def fetchLogin_def demo_gh_def runes_of_def)

lemma demo_allowed: "allowed id demo_dash (runes_of ''Octocat'')"
  unfolding allowed_def demo_dash_parts by code_simp

lemma demo_times: "Unix second \<le> Unix (0 + stateTTL)" "unix_range (0 + stateTTL)" "unix_range (second + sessionTTL)"
  by (simp_all add: Unix_def stateTTL_def sessionTTL_def unix_range_def)

lemma demo_names: "is_token (d_cookieName demo_dash)" "CHR ''|'' \<notin> set (gostr (utf8 (runes_of ''Octocat'')))"
  unfolding demo_dash_parts by code_simp+

theorem login_grants_until_expiry_witness:
  "\<exists>ck. handleCallback id demo_gh demo_dash second demo_callback = \<lparr>wr_body = Redirect ''/dashboard'' [], wr_cookies = [ck]\<rparr> \<and>
     handleData demo_dash zero_Stats second \<lparr>wq_query = [], wq_cookies = [(''parley_admin'', ck_Value ck)], wq_headers = []\<rparr>
       = reply_with (JSON zero_Stats)"
proof -
  have code: "Query_Get ''code'' demo_callback \<noteq> []" by (simp add: demo_callback_parts)
  note l = login_grants_until_expiry [OF demo_callback_parts(1) demo_times(1,2) code _ demo_gh_parts(2) demo_allowed
    demo_names demo_times(3), unfolded demo_callback_parts(2), OF demo_gh_parts(1)]
  then obtain ck where ck: "handleCallback id demo_gh demo_dash second demo_callback = \<lparr>wr_body = Redirect ''/dashboard'' [], wr_cookies = [ck]\<rparr>"
    and data: "\<And>r now' stats. map_of (wq_cookies r) (d_cookieName demo_dash) = Some (ck_Value ck) \<Longrightarrow>
      Unix now' \<le> Unix (second + sessionTTL) \<Longrightarrow> handleData demo_dash stats now' r = reply_with (JSON stats)"
    by auto
  have "Unix second \<le> Unix (second + sessionTTL)" by (simp add: Unix_def sessionTTL_def)
  with ck data show ?thesis by (intro exI [of _ ck]) (simp add: demo_dash_parts)
qed

theorem cookie_only_for_allowed_witness:
  "\<exists>a \<in> set (cfg_Allow (d_cfg demo_dash)). EqualFold id (TrimSpace a) (runes_of ''Octocat'')"
proof -
  have "handleCallback id demo_gh demo_dash second demo_callback =
      setCookie demo_dash second (runes_of ''Octocat'') (reply_with (Redirect ''/dashboard'' []))"
    using checkState_newState [OF demo_times(2)] demo_times(1)
    by (simp add: handleCallback_def demo_callback_parts demo_gh_parts demo_allowed Let_def)
  then have "wr_cookies (handleCallback id demo_gh demo_dash second demo_callback) \<noteq> []"
    using demo_names(1) by (simp add: setCookie_def SetCookie_def session_cookie_def Let_def)
  from cookie_only_for_allowed [OF this] show ?thesis
    by (auto simp: demo_callback_parts demo_gh_parts)
qed

theorem state_opens_dashboard_witness:
  "handleData (demo_dash\<lparr>d_cfg := (d_cfg demo_dash)\<lparr>cfg_Allow := []\<rparr>\<rparr>) zero_Stats second
     \<lparr>wq_query = [], wq_cookies = [(''parley_admin'', newState (demo_dash\<lparr>d_cfg := (d_cfg demo_dash)\<lparr>cfg_Allow := []\<rparr>\<rparr>) [7] 0)],
      wq_headers = []\<rparr> = reply_with (JSON zero_Stats)"
  using state_opens_dashboard [OF _ _ _ demo_times(1,2), where d = "demo_dash\<lparr>d_cfg := (d_cfg demo_dash)\<lparr>cfg_Allow := []\<rparr>\<rparr>"
      and nonce = "[7]" and stats = zero_Stats]
  by (simp add: handleLogin_def demo_dash_parts)

end
