(* ===== verification/Cluster.thy ===== *)
theory Cluster
  imports Dashboard
begin

text \<open>
  Statistics of a cluster (src/dashboard/cluster.go): the endpoint on which a node serves its own
  snapshot to its peers, and the aggregator that fetches the snapshots of the peers and merges
  them with the local one. The network is the parameter \<open>net\<close>: what a request with the cluster
  header to a URL gets back within the timeouts, or nothing; the JSON codec of a snapshot is a
  parameter as well. The fetches run concurrently but each fills its own place, so their order
  does not matter.
\<close>

section \<open>The endpoint\<close>

definition internalStatsPath :: string where "internalStatsPath = ''/internal/stats''"
definition clusterAuthHeader :: string where "clusterAuthHeader = ''X-Parley-Cluster''"

definition Header_Get :: "string \<Rightarrow> web_request \<Rightarrow> string" where
  "Header_Get k r = (case map_of (wq_headers r) k of Some v \<Rightarrow> v | None \<Rightarrow> [])"

definition InternalStatsHandler :: "Stats \<Rightarrow> bytes \<Rightarrow> web_request \<Rightarrow> web_reply" where
  "InternalStatsHandler local token r =
     (let want = EncodeToString token; got = Header_Get clusterAuthHeader r
      in if got \<noteq> want then reply_with (HttpError 403 ''forbidden'') else reply_with (JSON local))"

section \<open>The aggregator\<close>

record aggregator =
  ag_local :: Stats
  ag_peers :: "string list option"
  ag_token :: string

definition NewAggregator :: "Stats \<Rightarrow> string list option \<Rightarrow> bytes \<Rightarrow> aggregator" where
  "NewAggregator local peers token = \<lparr>ag_local = local, ag_peers = peers, ag_token = EncodeToString token\<rparr>"

text \<open>An answer is a status and a body.\<close>

type_synonym net = "string \<Rightarrow> web_request \<Rightarrow> (int \<times> bytes) option"

datatype fetch_error = DoFailed | errStatus int | BadJSON

definition fetch :: "net \<Rightarrow> Stats cbor \<Rightarrow> string \<Rightarrow> aggregator \<Rightarrow> fetch_error + Stats" where
  "fetch net js base a =
     (case net (base @ internalStatsPath)
             \<lparr>wq_query = [], wq_cookies = [], wq_headers = [(clusterAuthHeader, ag_token a)]\<rparr> of
        None \<Rightarrow> Inl DoFailed
      | Some (status, body) \<Rightarrow>
          if status \<noteq> 200 then Inl (errStatus status)
          else case unmarshal js body of None \<Rightarrow> Inl BadJSON | Some st \<Rightarrow> Inr st)"

fun collect :: "(fetch_error + Stats) list \<Rightarrow> Stats list" where
  "collect [] = []"
| "collect (Inr st # rest) = st # collect rest"
| "collect (Inl e # rest) = collect rest"

definition aggregator_Stats :: "net \<Rightarrow> Stats cbor \<Rightarrow> aggregator \<Rightarrow> Stats" where
  "aggregator_Stats net js a =
     (case ag_peers a of
        None \<Rightarrow> ag_local a
      | Some peers \<Rightarrow>
          if peers = [] then ag_local a
          else MergeStats (ag_local a # collect (map (\<lambda>base. fetch net js base a) peers)))"

section \<open>A cluster of such nodes\<close>

text \<open>
  What a node of the cluster answers: its handler at the statistics path, sent over HTTP with the
  codec's bytes.
\<close>

definition serve_stats :: "Stats cbor \<Rightarrow> web_reply \<Rightarrow> (int \<times> bytes) option" where
  "serve_stats js w =
     (case wr_body w of
        JSON st \<Rightarrow> Some (200, case marshal js st of Some b \<Rightarrow> b | None \<Rightarrow> [])
      | HttpError status msg \<Rightarrow> Some (status, str_bytes msg)
      | HTML page \<Rightarrow> Some (200, page)
      | Redirect url _ \<Rightarrow> Some (302, str_bytes url))"

record node =
  nd_base :: string
  nd_token :: bytes
  nd_stats :: Stats
  nd_up :: bool

fun cluster_net :: "Stats cbor \<Rightarrow> node list \<Rightarrow> net" where
  "cluster_net js [] url r = None"
| "cluster_net js (n # ns) url r =
     (if url = nd_base n @ internalStatsPath
      then if nd_up n then serve_stats js (InternalStatsHandler (nd_stats n) (nd_token n) r) else None
      else cluster_net js ns url r)"

lemma EncodeToString_inject [simp]: "EncodeToString a = EncodeToString b \<longleftrightarrow> a = b"
  by (metis hex_Decode_EncodeToString sum.inject(2))

lemma collect_append [simp]: "collect (xs @ ys) = collect xs @ collect ys"
  by (induction xs rule: collect.induct) simp_all

lemma cluster_net_node:
  "distinct (map nd_base ns) \<Longrightarrow> n \<in> set ns \<Longrightarrow>
   cluster_net js ns (nd_base n @ internalStatsPath) r =
     (if nd_up n then serve_stats js (InternalStatsHandler (nd_stats n) (nd_token n) r) else None)"
proof (induction ns)
  case (Cons a ns)
  then have "n = a \<or> n \<in> set ns \<and> nd_base n \<noteq> nd_base a" by (auto simp: image_iff)
  with Cons show ?case by (elim disjE) simp_all
qed simp

lemma fetch_node:
  assumes "distinct (map nd_base ns)" "n \<in> set ns" "cbor_roundtrip js" "marshal js (nd_stats n) = Some b"
  shows "fetch (cluster_net js ns) js (nd_base n) (NewAggregator local peers token) =
     (if nd_up n then if nd_token n = token then Inr (nd_stats n) else Inl (errStatus 403) else Inl DoFailed)"
  using assms by (auto simp: fetch_def cluster_net_node InternalStatsHandler_def Header_Get_def NewAggregator_def
    serve_stats_def Let_def dest: cbor_roundtripD)

lemma collect_nodes:
  assumes "distinct (map nd_base ns)" "cbor_roundtrip js" "set ms \<subseteq> set ns" "\<forall>n \<in> set ms. marshal js (nd_stats n) \<noteq> None"
  shows "collect (map (\<lambda>base. fetch (cluster_net js ns) js base (NewAggregator local peers token)) (map nd_base ms)) =
     map nd_stats (filter (\<lambda>n. nd_up n \<and> nd_token n = token) ms)"
  using assms(3,4)
proof (induction ms)
  case (Cons n ms)
  then obtain b where "marshal js (nd_stats n) = Some b" by auto
  with Cons fetch_node [OF assms(1) _ assms(2), of n b local peers token] show ?case by auto
qed simp

text \<open>
  C32. A dashboard shows the whole cluster and only the cluster: with peers that run the endpoint,
  every counter of the aggregate is the (64-bit) sum of the local one and those of every reachable peer with
  the same cluster token, the sessions are theirs in the order of the peer list, the uptime is that of the
  longest running of these nodes, the configuration is the local one, and a peer that is down or has
  another token contributes nothing and fails nothing.
\<close>

theorem cluster_stats_total:
  assumes "distinct (map nd_base ns)" "cbor_roundtrip js" "\<forall>n \<in> set ns. marshal js (nd_stats n) \<noteq> None"
  shows "let good = map nd_stats (filter (\<lambda>n. nd_up n \<and> nd_token n = token) ns)
     in aggregator_Stats (cluster_net js ns) js (NewAggregator local (Some (map nd_base ns)) token) =
        \<lparr>st_Uptime = Max (set (map st_Uptime (local # good))),
         st_ActiveSessions = (\<Sum>st \<leftarrow> local # good. st_ActiveSessions st),
         st_MaxSessions = st_MaxSessions local, st_MaxParticipants = st_MaxParticipants local,
         st_MaxAge = st_MaxAge local, st_Grace = st_Grace local, st_IdleTimeout = st_IdleTimeout local,
         st_TrackedIPs = (\<Sum>st \<leftarrow> local # good. st_TrackedIPs st),
         st_SessionsCreated = (\<Sum>st \<leftarrow> local # good. st_SessionsCreated st),
         st_FramesForwarded = (\<Sum>st \<leftarrow> local # good. st_FramesForwarded st),
         st_BytesForwarded = (\<Sum>st \<leftarrow> local # good. st_BytesForwarded st),
         st_Joins = (\<Sum>st \<leftarrow> local # good. st_Joins st),
         st_Resumes = (\<Sum>st \<leftarrow> local # good. st_Resumes st),
         st_Errors = (\<Sum>st \<leftarrow> local # good. st_Errors st),
         st_Sessions = concat (map st_Sessions (local # good))\<rparr>"
proof -
  let ?good = "map nd_stats (filter (\<lambda>n. nd_up n \<and> nd_token n = token) ns)"
  have st: "aggregator_Stats (cluster_net js ns) js (NewAggregator local (Some (map nd_base ns)) token) = fold merge_part ?good local"
    using collect_nodes [OF assms(1,2) subset_refl assms(3), of local "Some (map nd_base ns)" token]
    by (cases "ns = []") (simp_all add: aggregator_Stats_def NewAggregator_def)
  show ?thesis
    unfolding st Let_def by (rule Stats.equality) (simp_all add: fold_merge_part fold_merge_Uptime del: set_map)
qed

text \<open>
  The endpoint serves exactly the requests that carry the hexadecimal token; without a token that
  is every request without the header.
\<close>

lemma InternalStatsHandler_iff:
  "wr_body (InternalStatsHandler local token r) = JSON st \<longleftrightarrow>
     st = local \<and> (Header_Get clusterAuthHeader r = EncodeToString token)"
  "wq_headers r = [] \<Longrightarrow> InternalStatsHandler local [] r = reply_with (JSON local)"
  by (auto simp: InternalStatsHandler_def Header_Get_def Let_def)

section \<open>Example\<close>

definition demo_node :: "string \<Rightarrow> bytes \<Rightarrow> bool \<Rightarrow> node" where
  "demo_node base token up = \<lparr>nd_base = base, nd_token = token, nd_stats = zero_Stats\<lparr>st_ActiveSessions := 2, st_Uptime := 9\<rparr>, nd_up = up\<rparr>"

definition demo_nodes :: "node list" where
  "demo_nodes = [demo_node ''a'' [1] True, demo_node ''b'' [9] True, demo_node ''c'' [1] False, demo_node ''d'' [1] True]"

theorem cluster_stats_total_witness:
  "aggregator_Stats (cluster_net (table_cbor [(zero_Stats\<lparr>st_ActiveSessions := 2, st_Uptime := 9\<rparr>, [1])]) demo_nodes)
      (table_cbor [(zero_Stats\<lparr>st_ActiveSessions := 2, st_Uptime := 9\<rparr>, [1])])
      (NewAggregator (zero_Stats\<lparr>st_ActiveSessions := 3, st_Grace := 5\<rparr>) (Some (map nd_base demo_nodes)) [1]) =
    zero_Stats\<lparr>st_ActiveSessions := 7, st_Uptime := 9, st_Grace := 5\<rparr>"
proof -
  let ?js = "table_cbor [(zero_Stats\<lparr>st_ActiveSessions := 2, st_Uptime := 9\<rparr>, [1])]"
  have d: "distinct (map nd_base demo_nodes)" by (simp add: demo_nodes_def demo_node_def)
  have m: "\<forall>n \<in> set demo_nodes. marshal ?js (nd_stats n) \<noteq> None"
    by (simp add: demo_nodes_def demo_node_def table_cbor_def)
  have rt: "cbor_roundtrip ?js" by (rule table_cbor_roundtrip) simp
  have g: "filter (\<lambda>n. nd_up n \<and> nd_token n = [1]) demo_nodes = [demo_node ''a'' [1] True, demo_node ''d'' [1] True]"
    by (simp add: demo_nodes_def demo_node_def)
  show ?thesis
    using cluster_stats_total [OF d rt m, of "[1]" "zero_Stats\<lparr>st_ActiveSessions := 3, st_Grace := 5\<rparr>", unfolded Let_def g]
    by (simp add: demo_node_def zero_Stats_def)
qed

end
