(* ===== verification/Routing.thy ===== *)
theory Routing
  imports SessionProps Relay
begin

text \<open>
  From a client's dial to a relay's router: the session id that \<open>sessionURL\<close>
  (src/session/client.go) puts into the URL is the one \<open>parseSessionParam\<close>
  (src/relay/relay.go) reads out of the request, whatever the relay URL looks like.
\<close>

section \<open>The query of a dialled URL\<close>

text \<open>The request a relay sees for a dialled URL: the server parses the query again.\<close>

definition arriving :: "string \<Rightarrow> string \<Rightarrow> request" where
  "arriving u addr = \<lparr>rq_query = parseQuery (raw_query u), rq_RemoteAddr = addr\<rparr>"

abbreviation param_values :: "string \<Rightarrow> request \<Rightarrow> string list" where
  "param_values k rq \<equiv> map snd (filter (\<lambda>(k', _). k' = k) (rq_query rq))"

lemma sessionURL_query:
  assumes "sessionURL ph relayURL sid = Some u"
  shows "parseQuery (raw_query u) = sort_key fst (Values_Set SessionParam (Hex sid) (parseQuery (raw_query relayURL)))"
proof -
  from assms obtain p where p: "URL_Parse ph relayURL = Some p"
    "u = URL_String (p\<lparr>u_RawQuery := Values_Encode (Values_Set SessionParam (Hex sid) (URL_Query p))\<rparr>)"
    by (auto simp: sessionURL_def Let_def split: option.splits)
  have "URL_front (p\<lparr>u_RawQuery := q\<rparr>) = URL_front p" for q
    by (simp add: URL_front_def URL_authority_def EscapedPath_def Let_def)
  with p URL_Parse_free [OF p(1)] URL_Parse_raw [OF p(1)] show ?thesis
    by (simp add: raw_query_String Encode_no_hash parse_Encode URL_Query_def)
qed

lemma parseSessionParam_Get:
  "parseSessionParam rq = (case ParseSessionID (Values_Get SessionParam (rq_query rq)) of Inl _ \<Rightarrow> None | Inr s \<Rightarrow> Some s)"
  by (auto simp: parseSessionParam_def Values_Get_def ParseSessionID_def Let_def split: option.split sum.split)

lemma parse_Hex: "length sid = 16 \<Longrightarrow> ParseSessionID (Hex sid) = Inr sid"
  by (simp add: ParseSessionID_def Hex_def hex_Decode_EncodeToString)

section \<open>The routing hint\<close>

text \<open>
  C24. A connection to a session is routed by that session's id: when \<open>Host\<close>, \<open>Join\<close> or
  \<open>Reconnect\<close> get past their dial, the URL they dialled is one a relay with a router parses
  back to exactly the session id (so such a relay never refuses it as malformed, and hands it
  over exactly when the router says so for this id), and every other parameter of the relay URL
  reaches the relay with its values unchanged and in order, as far as they parse.
\<close>

theorem dial_routes_session:
  assumes "length sid = 16" and "dial_url net relayURL sid = None"
  shows "\<exists>u. sessionURL (nw_parseHost net) relayURL sid = Some u \<and> nw_reaches net u \<and>
     (\<forall>addr. parseSessionParam (arriving u addr) = Some sid) \<and>
     (\<forall>addr R now s router. o_Router (sv_opts s) = Some router \<longrightarrow>
        (rr_Replay (router sid (arriving u addr)) \<longleftrightarrow>
         (\<exists>hdr st. fst (ServeHTTP R now (arriving u addr) s) = HttpReplay hdr st))) \<and>
     (\<forall>k addr. k \<noteq> SessionParam \<longrightarrow>
        param_values k (arriving u addr) = param_values k (arriving relayURL addr))"
proof -
  from assms(2) obtain u where u: "sessionURL (nw_parseHost net) relayURL sid = Some u" "nw_reaches net u"
    by (auto simp: dial_url_def split: option.splits if_splits)
  note q = sessionURL_query [OF u(1)]
  have p: "parseSessionParam (arriving u addr) = Some sid" for addr
    by (simp add: arriving_def parseSessionParam_Get q Get_Set parse_Hex assms(1))
  have replay: "rr_Replay (router sid (arriving u addr)) \<longleftrightarrow>
      (\<exists>hdr st. fst (ServeHTTP R now (arriving u addr) s) = HttpReplay hdr st)"
    if "o_Router (sv_opts s) = Some router" for addr R now s router
    using that p by (simp add: ServeHTTP_def Let_def split: prod.split)
  have "param_values k (arriving u addr) = param_values k (arriving relayURL addr)"
    if "k \<noteq> SessionParam" for k addr
    using that by (simp add: arriving_def q values_sort filter_Set)
  with u p show ?thesis by (intro exI [of _ u]) (auto simp: replay)
qed

theorem dial_routes_session_witness:
  "\<exists>u. sessionURL (nw_parseHost demo_net) ''ws://h/p?b=2&s=x&a=1'' (replicate 16 7) = Some u \<and>
     parseSessionParam (arriving u []) = Some (replicate 16 7)"
proof -
  have l: "length (replicate 16 (7 :: 8 word)) = 16" by simp
  have "URL_Parse Some ''ws://h/p?b=2&s=x&a=1'' \<noteq> None" by code_simp
  then have d: "dial_url demo_net ''ws://h/p?b=2&s=x&a=1'' (replicate 16 7) = None"
    by (auto simp: dial_url_def sessionURL_def demo_net_def Let_def)
  from dial_routes_session [OF l d] show ?thesis by (elim exE conjE) (rule exI, rule conjI, assumption, erule spec)
qed

text \<open>
  What does not parse is lost: a pair with a semicolon or a bad escape is dropped from the
  dialled URL, and the pairs are reordered by key, although \<open>sessionURL\<close> is documented to
  preserve the query.
\<close>

lemma sessionURL_drops_malformed:
  "sessionURL Some ''ws://h/p?z=1&b;c=2&y=%zz'' [0] = Some ''ws://h/p?s=00&z=1''"
  by code_simp

end
