(* ===== verification/Inbox.thy ===== *)
theory Inbox
  imports Registry DemoCodec
begin

text \<open>
  Commands under way to a hub: a goroutine that sends into a hub's inbox and waits, while the
  hub and the rest of the relay keep moving. Two such goroutines are modelled step by step: the
  sweeper's loop (src/relay/registry.go) and the statistics query (\<open>snapshot\<close> of
  src/relay/stats.go). What they share is a law of the inbox: a command that was accepted is
  handled after at most as many iterations of the hub's loop as the inbox is long, unless the
  session ends first.
\<close>

section \<open>One more iteration of a hub's loop\<close>

definition serve_next :: "codecs \<Rightarrow> haddr \<Rightarrow> relay \<Rightarrow> relay" where
  "serve_next cb a R =
     (let cell = rl_heap R ! a
      in if h_done (hc_hub cell) then R
         else case hc_inbox cell of
                [] \<Rightarrow> R
              | c # rest \<Rightarrow>
                  (case hub_step cb c ((hc_hub cell)\<lparr>h_metrics := rl_metrics R\<rparr>) of (h', stop) \<Rightarrow>
                     put_hub a (cell\<lparr>hc_hub := (if stop then shutdown h' else h'), hc_inbox := rest\<rparr>) R))"

lemma serve_next_trans:
  assumes "a < length (rl_heap R)" and "\<not> h_done (hc_hub (rl_heap R ! a))" and "hc_inbox (rl_heap R ! a) = c # rest"
  shows "relay_trans cb R (Hub a (Handle c)) (serve_next cb a R) \<and>
     hc_inbox (rl_heap (serve_next cb a R) ! a) = rest"
proof -
  obtain h' stop where s: "hub_step cb c ((hc_hub (rl_heap R ! a))\<lparr>h_metrics := rl_metrics R\<rparr>) = (h', stop)" by fastforce
  let ?h = "if stop then shutdown h' else h'"
  have "hub_trans cb ((hc_hub (rl_heap R ! a))\<lparr>h_metrics := rl_metrics R\<rparr>) (Handle c) ?h"
    using s assms(2) by (cases stop) (auto intro: hub_trans.handle hub_trans.finish)
  from relay_trans.handle [OF assms(1) refl assms(3) this] s assms show ?thesis
    by (simp add: serve_next_def put_hub_def)
qed

lemma serve_next_idle: "h_done (hc_hub (rl_heap R ! a)) \<or> hc_inbox (rl_heap R ! a) = [] \<Longrightarrow> serve_next cb a R = R"
  by (auto simp: serve_next_def Let_def)

lemma length_serve_next [simp]: "length (rl_heap (serve_next cb a R)) = length (rl_heap R)"
  by (simp add: serve_next_def put_hub_def Let_def split: list.split prod.split)

lemma serve_reachable:
  assumes "a < length (rl_heap R)" and "reachable_from i (relay_trans cb) R"
  shows "reachable_from i (relay_trans cb) ((serve_next cb a ^^ n) R)"
proof (induction n)
  case (Suc n)
  let ?R = "(serve_next cb a ^^ n) R"
  have a: "a < length (rl_heap ?R)" using assms(1) by (induction n) simp_all
  show ?case
  proof (cases "h_done (hc_hub (rl_heap ?R ! a)) \<or> hc_inbox (rl_heap ?R ! a) = []")
    case True
    with Suc show ?thesis by (simp add: serve_next_idle)
  next
    case False
    then obtain c rest where "hc_inbox (rl_heap ?R ! a) = c # rest" by (meson neq_Nil_conv)
    with serve_next_trans [OF a] False Suc show ?thesis by (auto intro: reach_step)
  qed
qed (simp add: assms(2))

section \<open>The law of the inbox\<close>

text \<open>
  A command is under way if it is queued, has had its effect, or the session has ended.
\<close>

definition under_way :: "cmd \<Rightarrow> (hub \<Rightarrow> bool) \<Rightarrow> haddr \<Rightarrow> relay \<Rightarrow> bool" where
  "under_way c settled a R \<longleftrightarrow> a < length (rl_heap R) \<and>
     (c \<in> set (hc_inbox (rl_heap R ! a)) \<or> settled (hc_hub (rl_heap R ! a)) \<or> h_done (hc_hub (rl_heap R ! a)))"

lemma send_to_cell:
  assumes "send_to pick c a R = Some (ok, R')" and "a < length (rl_heap R)"
  shows "length (rl_heap R') = length (rl_heap R) \<and> hc_hub (rl_heap R' ! b) = hc_hub (rl_heap R ! b) \<and>
     hc_inbox (rl_heap R' ! b) = hc_inbox (rl_heap R ! b) @ (if b = a \<and> ok then [c] else []) \<and>
     (\<not> ok \<longrightarrow> h_done (hc_hub (rl_heap R ! a)))"
  using assms by (cases "b = a") (auto simp: send_to_def hub_send_def chan_send_def nth_list_update split: if_splits)

lemma close_all_keeps:
  "close_all picks as R = Some R' \<Longrightarrow> \<forall>b \<in> set as. b < length (rl_heap R) \<Longrightarrow>
     length (rl_heap R') = length (rl_heap R) \<and> hc_hub (rl_heap R' ! a) = hc_hub (rl_heap R ! a) \<and>
     set (hc_inbox (rl_heap R ! a)) \<subseteq> set (hc_inbox (rl_heap R' ! a))"
proof (induction picks as R arbitrary: R' rule: close_all.induct)
  case (2 picks b as R)
  then obtain ok R1 where s: "send_to (hd (picks @ [False])) (closeCmd ''session expired'') b R = Some (ok, R1)"
      "close_all (tl picks) as R1 = Some R'" by (auto split: option.splits)
  with send_to_cell [OF s(1), of a] "2.IH" [OF s(1) refl s(2)] "2.prems"(2) show ?case by auto
qed simp

locale inbox_command =
  fixes cb :: codecs and c :: cmd and settled :: "hub \<Rightarrow> bool"
  assumes handled: "hub_trans cb h (Handle c) h' \<Longrightarrow> settled h'"
    and settled_kept: "hub_trans cb h e h' \<Longrightarrow> settled h \<Longrightarrow> settled h'"
    and settled_metrics [simp]: "settled (h\<lparr>h_metrics := m\<rparr>) = settled h"
begin

lemma accepted:
  "send_to pick c a R = Some (ok, R') \<Longrightarrow> a < length (rl_heap R) \<Longrightarrow> under_way c settled a R'"
  using send_to_cell [of pick c a R ok R' a] by (auto simp: under_way_def)

lemma keeps:
  assumes "relay_trans cb R e R'" and "relay_inv R" and "under_way c settled a R"
  shows "under_way c settled a R'"
  using assms
proof (induction rule: relay_trans.induct)
  case (create sid maxP now R r R')
  then show ?case by (auto simp: registry_create_def under_way_def nth_append Let_def split: if_splits)
next
  case (send b R pick c' ok R')
  then show ?case using send_to_cell [OF send(2,1), of a] by (auto simp: under_way_def)
next
  case (sweep picks now R R')
  then show ?case
    using close_all_keeps [of picks "expired now R" R R' a] expired_in_heap [of R _ now]
    by (auto simp: under_way_def sweep_def)
next
  case (handle b R cell c' rest h')
  then show ?case
    using handled [of "(hc_hub cell)\<lparr>h_metrics := rl_metrics R\<rparr>" h'] settled_kept [OF handle(4)]
      hub_trans_not_done [OF handle(4)]
    by (cases "b = a") (auto simp: under_way_def put_hub_def)
next
  case (other b R cell e h')
  then show ?case
    using settled_kept [OF other(4)] hub_trans_not_done [OF other(4)]
    by (cases "b = a") (auto simp: under_way_def put_hub_def)
next
  case (on_empty b R cell)
  then show ?case by (cases "b = a") (auto simp: under_way_def registry_remove_def)
qed

lemma settles:
  assumes "under_way c settled a R"
  shows "\<exists>n \<le> length (hc_inbox (rl_heap R ! a)). let h = hc_hub (rl_heap ((serve_next cb a ^^ n) R) ! a) in settled h \<or> h_done h"
  using assms
proof (induction "hc_inbox (rl_heap R ! a)" arbitrary: R)
  case Nil
  then show ?case by (auto simp: under_way_def)
next
  case (Cons c' rest)
  show ?case
  proof (cases "settled (hc_hub (rl_heap R ! a)) \<or> h_done (hc_hub (rl_heap R ! a))")
    case True
    then show ?thesis by (intro exI [of _ 0]) auto
  next
    case False
    then have r: "relay_trans cb R (Hub a (Handle c')) (serve_next cb a R)" "rest = hc_inbox (rl_heap (serve_next cb a R) ! a)"
      using serve_next_trans [of a R c' rest cb] Cons by (simp_all add: under_way_def)
    have "under_way c settled a (serve_next cb a R)"
    proof (cases "c' = c")
      case True
      from r(1) True have "settled (hc_hub (rl_heap (serve_next cb a R) ! a))"
        by (cases rule: relay_trans.cases) (auto simp: put_hub_def dest: handled)
      with Cons.prems show ?thesis by (simp add: under_way_def)
    next
      case False
      have "c \<in> set (c' # rest)" using Cons.prems \<open>\<not> (settled _ \<or> _)\<close> by (simp add: under_way_def Cons.hyps(2))
      with False Cons.prems r(2) show ?thesis by (simp add: under_way_def)
    qed
    from Cons.hyps(1) [OF r(2) this] obtain n where "n \<le> length rest"
      "let h = hc_hub (rl_heap ((serve_next cb a ^^ n) (serve_next cb a R)) ! a) in settled h \<or> h_done h"
      using r(2) by auto
    then show ?thesis using Cons.hyps(2) [symmetric] by (intro exI [of _ "Suc n"]) (auto simp: funpow_swap1)
  qed
qed

end

section \<open>Commands and their effects\<close>

text \<open>Replies stay: no handler takes back what was sent on a reply channel.\<close>

lemma replies_removeParticipant: "removeParticipant cb p h = (h', s) \<Longrightarrow> h_replies h' = h_replies h"
  by (auto simp: removeParticipant_def Let_def split: option.splits if_splits)

lemma replies_drainEvictions: "drainEvictions cb h = (h', s) \<Longrightarrow> h_replies h' = h_replies h"
proof (induction rule: drainEvictions_cases)
  case (Emptied h p rest h1)
  from replies_removeParticipant [OF Emptied(2)] show ?case by simp
next
  case (Step h p rest h1 h' s)
  from replies_removeParticipant [OF Step(2)] Step(3) show ?case by simp
qed simp

definition answers :: "cmd \<Rightarrow> conn option" where
  "answers c = (case c of joinCmd k _ _ \<Rightarrow> Some k | resumeCmd k _ _ \<Rightarrow> Some k | statsCmd k \<Rightarrow> Some k | _ \<Rightarrow> None)"

lemma replies_handle_cmd:
  "handle_cmd cb c h = (h', s) \<Longrightarrow>
     case answers c of None \<Rightarrow> h_replies h' = h_replies h
     | Some k \<Rightarrow> \<exists>r. h_replies h' = h_replies h @ [(k, r)]"
proof (cases c)
  case (joinCmd k isC tok)
  then show "handle_cmd cb c h = (h', s) \<Longrightarrow> ?thesis"
    by (auto simp: answers_def handle_cmd_def handleJoin_def reply_def count_error_def set_client_def Let_def split: sum.splits if_splits)
next
  case (leaveCmd p g u)
  then show "handle_cmd cb c h = (h', s) \<Longrightarrow> ?thesis"
    by (auto simp: answers_def handle_cmd_def handleLeave_def holdSlot_def set_client_def dest: replies_removeParticipant
        split: option.splits if_splits)
next
  case (resumeCmd k p tok)
  then show "handle_cmd cb c h = (h', s) \<Longrightarrow> ?thesis"
    by (auto simp: answers_def handle_cmd_def handleResume_def reply_def count_error_def set_client_def Let_def split: option.splits sum.splits if_splits)
next
  case (graceExpiredCmd p g)
  then show "handle_cmd cb c h = (h', s) \<Longrightarrow> ?thesis"
    by (auto simp: answers_def handle_cmd_def handleGraceExpired_def dest: replies_removeParticipant
        split: option.splits if_splits)
next
  case (frameCmd p ty raw)
  then show "handle_cmd cb c h = (h', s) \<Longrightarrow> ?thesis"
    by (auto simp: answers_def handle_cmd_def route_def count_error_def Let_def split: option.splits sum.splits if_splits)
qed (auto simp: answers_def handle_cmd_def handleClose_def handleClaimHost_def handleStats_def reply_def split: option.splits)

lemma replies_hub_step:
  assumes "hub_step cb c h = (h', s)"
  shows "case answers c of None \<Rightarrow> h_replies h' = h_replies h
     | Some k \<Rightarrow> \<exists>r. h_replies h' = h_replies h @ [(k, r)]"
proof -
  obtain h1 s1 where h1: "handle_cmd cb c h = (h1, s1)" by fastforce
  have "h_replies h' = h_replies h1"
    using assms h1 by (auto simp: hub_step_def split: if_splits dest: replies_drainEvictions)
  with replies_handle_cmd [OF h1] show ?thesis by (simp split: option.splits)
qed

lemma replies_kept: "hub_trans cb h e h' \<Longrightarrow> set (h_replies h) \<subseteq> set (h_replies h')"
  by (induction rule: hub_trans.induct)
     (fastforce simp: shutdown_def set_client_def dest: replies_hub_step split: option.splits)+

lemma handled_reply:
  assumes "hub_trans cb h (Handle c) h'" and "answers c = Some k"
  shows "\<exists>r. (k, r) \<in> set (h_replies h')"
  using assms
  by (cases rule: hub_trans.cases) (fastforce simp: shutdown_def dest: replies_hub_step)+

lemma handled_stats:
  assumes "hub_trans cb h (Handle (statsCmd k)) h'"
  shows "\<exists>hs. (k, StatsReply hs) \<in> set (h_replies h')"
  using assms
  by (cases rule: hub_trans.cases)
     (fastforce simp: hub_step_def handle_cmd_def handleStats_def reply_def shutdown_def dest!: replies_drainEvictions)+

lemma handled_close: "hub_trans cb h (Handle (closeCmd r)) h' \<Longrightarrow> h_done h'"
  by (cases rule: hub_trans.cases) (auto simp: hub_step_def handle_cmd_def shutdown_def)

interpretation closing: inbox_command cb "closeCmd r" h_done for cb r
proof unfold_locales
  show "h_done h'" if "hub_trans cb h e h'" "h_done h" for h e h' using hub_trans_not_done [OF that(1)] that(2) by simp
qed (auto intro: handled_close)

interpretation asking: inbox_command cb "statsCmd k" "\<lambda>h. \<exists>hs. (k, StatsReply hs) \<in> set (h_replies h)" for cb k
  by unfold_locales (auto intro: handled_stats dest: replies_kept)

interpretation joining: inbox_command cb "joinCmd k isC tok" "\<lambda>h. \<exists>r. (k, r) \<in> set (h_replies h)" for cb k isC tok
  by unfold_locales (auto intro: handled_reply simp: answers_def dest: replies_kept)

interpretation resuming: inbox_command cb "resumeCmd k p tok" "\<lambda>h. \<exists>r. (k, r) \<in> set (h_replies h)" for cb k p tok
  by unfold_locales (auto intro: handled_reply simp: answers_def dest: replies_kept)

text \<open>
  So a join or a resume the hub accepted is answered unless the session ends first, and then it
  is not: \<open>hello\<close> waits for the reply alone, where the statistics query also waits for the end.
\<close>

lemma hello_answered_unless_ended:
  assumes "c = joinCmd k isC tok \<or> c = resumeCmd k p tok" and "send_to pick c a R = Some (ok, R')" and "a < length (rl_heap R)"
  shows "\<exists>n \<le> length (hc_inbox (rl_heap R' ! a)). let h = hc_hub (rl_heap ((serve_next cb a ^^ n) R') ! a)
     in (\<exists>r. (k, r) \<in> set (h_replies h)) \<or> h_done h"
  using assms(1)
proof
  assume c: "c = joinCmd k isC tok"
  show ?thesis by (rule joining.settles [OF joining.accepted [OF assms(2) [unfolded c] assms(3)]])
next
  assume c: "c = resumeCmd k p tok"
  show ?thesis by (rule resuming.settles [OF resuming.accepted [OF assms(2) [unfolded c] assms(3)]])
qed

text \<open>A full inbox has room after one iteration, or the hub is done.\<close>

lemma send_after_serving:
  assumes "a < length (rl_heap R)" and "send_to pick c a R = None"
    and "length (hc_inbox (rl_heap R ! a)) \<le> inboxCap"
  shows "send_to pick c a (serve_next cb a R) \<noteq> None"
proof -
  have full: "length (hc_inbox (rl_heap R ! a)) = inboxCap" "\<not> h_done (hc_hub (rl_heap R ! a))"
    using assms(2,3) by (auto simp: send_to_def hub_send_def chan_send_def split: if_splits)
  then obtain c' rest where "hc_inbox (rl_heap R ! a) = c' # rest" by (cases "hc_inbox (rl_heap R ! a)") (auto simp: inboxCap_def)
  with serve_next_trans [OF assms(1) full(2) this, of cb] full(1) show ?thesis
    by (auto simp: send_to_def hub_send_def chan_send_def)
qed

text \<open>No inbox ever exceeds its capacity.\<close>

definition inboxes_ok :: "relay \<Rightarrow> bool" where
  "inboxes_ok R \<longleftrightarrow> relay_inv R \<and> (\<forall>a < length (rl_heap R). length (hc_inbox (rl_heap R ! a)) \<le> inboxCap)"

lemma inboxes_send:
  assumes "send_to pick c a R = Some (ok, R')" and "a < length (rl_heap R)" and "inboxes_ok R"
  shows "inboxes_ok R' \<and> length (rl_heap R') = length (rl_heap R)"
proof -
  have "length (hc_inbox (rl_heap R' ! b)) \<le> inboxCap" if "b < length (rl_heap R)" for b
    using assms that
    by (cases "b = a") (auto simp: inboxes_ok_def send_to_def hub_send_def chan_send_def split: if_splits)
  with assms relay_inv_send [of R a pick c ok R'] show ?thesis by (auto simp: inboxes_ok_def)
qed

lemma inboxes_close_all:
  "close_all picks as R = Some R' \<Longrightarrow> \<forall>b \<in> set as. b < length (rl_heap R) \<Longrightarrow> inboxes_ok R \<Longrightarrow> inboxes_ok R'"
proof (induction picks as R arbitrary: R' rule: close_all.induct)
  case (2 picks b as R)
  then show ?case using inboxes_send [of _ _ b R] by (fastforce split: option.splits)
qed simp

lemma inboxes_ok_step:
  assumes "relay_trans cb R e R'" and "inboxes_ok R"
  shows "inboxes_ok R'"
proof -
  have "relay_inv R'" using relay_trans_inv [OF assms(1)] assms(2) by (simp add: inboxes_ok_def)
  with assms show ?thesis
  proof (induction rule: relay_trans.induct)
    case (create sid maxP now R r R')
    then show ?case
      by (auto simp: registry_create_def inboxes_ok_def nth_append less_Suc_eq Let_def split: if_splits)
  next
    case (send a R pick c ok R')
    then show ?case by (blast dest: inboxes_send)
  next
    case (sweep picks now R R')
    then show ?case
      using inboxes_close_all [of picks "expired now R" R R'] expired_in_heap [of R _ now]
      by (auto simp: sweep_def inboxes_ok_def)
  next
    case (handle a R cell c rest h')
    then have "length rest \<le> inboxCap" by (force simp: inboxes_ok_def)
    with handle show ?case by (auto simp: inboxes_ok_def put_hub_def nth_list_update)
  next
    case (other a R cell e h')
    then show ?case by (auto simp: inboxes_ok_def put_hub_def nth_list_update)
  next
    case (on_empty a R cell)
    then show ?case by (auto simp: inboxes_ok_def registry_remove_def nth_list_update)
  qed
qed

lemma inboxes_ok_initial: "relay_initial R \<Longrightarrow> inboxes_ok R"
  using relay.initial_invariant by (auto simp: inboxes_ok_def relay_initial_def)

text \<open>What a step of the relay does to one hub: nothing, or a step of that hub.\<close>

lemma hub_evolves:
  assumes "relay_trans cb R e R'" and "relay_inv R" and "a < length (rl_heap R)"
  shows "a < length (rl_heap R') \<and> (hc_hub (rl_heap R' ! a) = hc_hub (rl_heap R ! a) \<or>
     (\<exists>e'. hub_trans cb ((hc_hub (rl_heap R ! a))\<lparr>h_metrics := rl_metrics R\<rparr>) e' (hc_hub (rl_heap R' ! a))))"
  using assms
proof (induction rule: relay_trans.induct)
  case (create sid maxP now R r R')
  then show ?case by (auto simp: registry_create_def nth_append Let_def split: if_splits)
next
  case (send b R pick c ok R')
  then show ?case using send_to_cell [OF send(2,1), of a] by simp
next
  case (sweep picks now R R')
  then show ?case
    using close_all_keeps [of picks "expired now R" R R' a] expired_in_heap [of R _ now] by (auto simp: sweep_def)
qed (auto simp: put_hub_def registry_remove_def nth_list_update)

lemma done_kept:
  assumes "relay_trans cb R e R'" and "relay_inv R" and "a < length (rl_heap R)" and "h_done (hc_hub (rl_heap R ! a))"
  shows "h_done (hc_hub (rl_heap R' ! a))"
  using hub_evolves [OF assms(1-3)] assms(4) by (auto dest: hub_trans_not_done)

section \<open>The statistics query\<close>

datatype snap = SnapSending | SnapWaiting | SnapDone "hubStats option"

text \<open>
  \<open>snapshot\<close> in the middle of a running relay: \<open>k\<close> names its reply channel. The send waits for
  room in the inbox or for the end of the session, the wait for the reply or for that end.
\<close>

inductive snapshot :: "codecs \<Rightarrow> conn \<Rightarrow> haddr \<Rightarrow> snap \<times> relay \<Rightarrow> relay_event option \<Rightarrow> snap \<times> relay \<Rightarrow> bool"
  for cb k a where
  refused: "send_to pick (statsCmd k) a R = Some (False, R') \<Longrightarrow> snapshot cb k a (SnapSending, R) None (SnapDone None, R')"
| sent: "send_to pick (statsCmd k) a R = Some (True, R') \<Longrightarrow> snapshot cb k a (SnapSending, R) None (SnapWaiting, R')"
| replied: "(k, StatsReply hs) \<in> set (h_replies (hc_hub (rl_heap R ! a))) \<Longrightarrow>
     snapshot cb k a (SnapWaiting, R) None (SnapDone (Some hs), R)"
| gone: "h_done (hc_hub (rl_heap R ! a)) \<Longrightarrow> snapshot cb k a (SnapWaiting, R) None (SnapDone None, R)"
| elsewhere: "relay_trans cb R e R' \<Longrightarrow> snapshot cb k a (st, R) (Some e) (st, R')"

definition snap_initial :: "haddr \<Rightarrow> snap \<times> relay \<Rightarrow> bool" where
  "snap_initial a s \<longleftrightarrow> fst s = SnapSending \<and> inboxes_ok (snd s) \<and> a < length (rl_heap (snd s))"

definition replied_to :: "conn \<Rightarrow> hub \<Rightarrow> bool" where
  "replied_to k h \<longleftrightarrow> (\<exists>hs. (k, StatsReply hs) \<in> set (h_replies h))"

definition snap_inv :: "conn \<Rightarrow> haddr \<Rightarrow> snap \<times> relay \<Rightarrow> bool" where
  "snap_inv k a s \<longleftrightarrow> inboxes_ok (snd s) \<and> a < length (rl_heap (snd s)) \<and>
     (fst s = SnapWaiting \<longrightarrow> under_way (statsCmd k) (replied_to k) a (snd s)) \<and>
     (fst s = SnapDone None \<longrightarrow> h_done (hc_hub (rl_heap (snd s) ! a)))"

lemma snap_step_inv: "snapshot cb k a s e t \<Longrightarrow> snap_inv k a s \<Longrightarrow> snap_inv k a t"
proof (induction rule: snapshot.induct)
  case (refused pick R R')
  then show ?case
    using inboxes_send [OF refused(1)] send_to_cell [OF refused(1), of a] by (auto simp: snap_inv_def)
next
  case (sent pick R R')
  then show ?case
    using inboxes_send [OF sent(1)] send_to_cell [OF sent(1), of a] by (auto simp: snap_inv_def under_way_def)
next
  case (elsewhere R e R' st)
  then have inv: "relay_inv R" "a < length (rl_heap R)" by (simp_all add: snap_inv_def inboxes_ok_def)
  with elsewhere show ?case
    using inboxes_ok_step [OF elsewhere(1)] hub_evolves [OF elsewhere(1) inv] done_kept [OF elsewhere(1) inv]
      asking.keeps [OF elsewhere(1) inv(1), of k a] by (simp add: snap_inv_def replied_to_def [abs_def])
qed (auto simp: snap_inv_def)

lemma snap_initial_inv: "snap_initial a s \<Longrightarrow> snap_inv k a s"
  by (simp add: snap_initial_def snap_inv_def)

interpretation snap: transition_system "snap_initial a" "snapshot cb k a" "snap_inv k a" for cb k a
  by unfold_locales (rule snap_initial_inv, assumption, rule snap_step_inv)

text \<open>
  The query and the hub taking turns: the query moves when it can, and otherwise the hub's loop
  runs one iteration.
\<close>

primrec stats_reply :: "conn \<Rightarrow> (conn \<times> hub_reply) list \<Rightarrow> hubStats option" where
  "stats_reply k [] = None"
| "stats_reply k (r # rs) = (case r of (k', StatsReply hs) \<Rightarrow> if k' = k then Some hs else stats_reply k rs | _ \<Rightarrow> stats_reply k rs)"

lemma stats_reply_None: "stats_reply k rs = None \<longleftrightarrow> \<not> (\<exists>hs. (k, StatsReply hs) \<in> set rs)"
  by (induction rs) (auto split: hub_reply.splits if_splits)

definition snapshot_turn :: "codecs \<Rightarrow> bool \<Rightarrow> conn \<Rightarrow> haddr \<Rightarrow> snap \<times> relay \<Rightarrow> snap \<times> relay" where
  "snapshot_turn cb pick k a = (\<lambda>(st, R).
     (case st of
        SnapSending \<Rightarrow>
          (case send_to pick (statsCmd k) a R of
             Some (ok, R') \<Rightarrow> (if ok then SnapWaiting else SnapDone None, R')
           | None \<Rightarrow> (st, serve_next cb a R))
      | SnapWaiting \<Rightarrow>
          (let h = hc_hub (rl_heap R ! a)
           in case stats_reply k (h_replies h) of
                Some hs \<Rightarrow> (SnapDone (Some hs), R)
              | None \<Rightarrow> if h_done h then (SnapDone None, R) else (st, serve_next cb a R))
      | SnapDone _ \<Rightarrow> (st, R)))"

lemma waiting_turns:
  assumes "under_way (statsCmd k) (replied_to k) a R" and "relay_inv R"
  shows "\<exists>n r R'. n \<le> length (hc_inbox (rl_heap R ! a)) + 1 \<and>
     (snapshot_turn cb pick k a ^^ n) (SnapWaiting, R) = (SnapDone r, R')"
  using assms
proof (induction "length (hc_inbox (rl_heap R ! a))" arbitrary: R rule: less_induct)
  case (less R)
  let ?h = "hc_hub (rl_heap R ! a)"
  show ?case
  proof (cases "replied_to k ?h \<or> h_done ?h")
    case True
    then have "\<exists>r. snapshot_turn cb pick k a (SnapWaiting, R) = (SnapDone r, R)"
      using stats_reply_None [of k "h_replies ?h"]
      by (cases "stats_reply k (h_replies ?h)") (auto simp: snapshot_turn_def replied_to_def Let_def)
    then show ?thesis by (intro exI [of _ 1]) auto
  next
    case False
    then obtain c rest where c: "hc_inbox (rl_heap R ! a) = c # rest" and a: "a < length (rl_heap R)"
      using less.prems(1) by (auto simp: under_way_def neq_Nil_conv) (metis list.set_cases)
    have t: "snapshot_turn cb pick k a (SnapWaiting, R) = (SnapWaiting, serve_next cb a R)"
      using False stats_reply_None [of k "h_replies ?h"] by (simp add: snapshot_turn_def replied_to_def Let_def)
    note r = serve_next_trans [OF a _ c, of cb]
    have "under_way (statsCmd k) (replied_to k) a (serve_next cb a R)" "relay_inv (serve_next cb a R)"
      using r False less.prems asking.keeps [of cb R _ _ k a] relay_trans_inv [of cb R]
      by (auto simp: replied_to_def [abs_def])
    with less.hyps [of "serve_next cb a R"] r False c obtain n r R' where n: "n \<le> length rest + 1"
      "(snapshot_turn cb pick k a ^^ n) (SnapWaiting, serve_next cb a R) = (SnapDone r, R')" by auto
    then have "(snapshot_turn cb pick k a ^^ Suc n) (SnapWaiting, R) = (SnapDone r, R')"
      by (simp add: funpow_Suc_right t del: funpow.simps)
    with n(1) c show ?thesis by (intro exI [of _ "Suc n"]) auto
  qed
qed

lemma snapshot_turn_inv: "snap_inv k a (st, R) \<Longrightarrow> snap_inv k a (snapshot_turn cb pick k a (st, R))"
proof -
  assume inv: "snap_inv k a (st, R)"
  then have a: "a < length (rl_heap R)" by (simp add: snap_inv_def)
  have serve: "snap_inv k a (st, serve_next cb a R)"
  proof (cases "h_done (hc_hub (rl_heap R ! a)) \<or> hc_inbox (rl_heap R ! a) = []")
    case True
    with inv show ?thesis by (simp add: serve_next_idle)
  next
    case False
    then obtain c rest where "hc_inbox (rl_heap R ! a) = c # rest" by (meson neq_Nil_conv)
    with serve_next_trans [OF a] False snap_step_inv [OF snapshot.elsewhere inv] show ?thesis by blast
  qed
  show ?thesis
  proof (cases st)
    case SnapSending
    with inv have "snap_inv k a (if ok then SnapWaiting else SnapDone None, R')"
      if "send_to pick (statsCmd k) a R = Some (ok, R')" for ok R'
      using that snap_step_inv [OF snapshot.sent] snap_step_inv [OF snapshot.refused] by (cases ok) auto
    with SnapSending serve show ?thesis by (auto simp: snapshot_turn_def split: option.splits)
  next
    case SnapWaiting
    with inv serve show ?thesis
      by (auto simp: snapshot_turn_def snap_inv_def Let_def split: option.splits)
  next
    case (SnapDone r)
    with inv show ?thesis by (simp add: snapshot_turn_def)
  qed
qed

lemma sending_turns:
  assumes "snap_inv k a (SnapSending, R)"
  shows "\<exists>n st R'. n \<le> 2 \<and> (snapshot_turn cb pick k a ^^ n) (SnapSending, R) = (st, R') \<and> st \<noteq> SnapSending \<and>
     n + length (hc_inbox (rl_heap R' ! a)) \<le> length (hc_inbox (rl_heap R ! a)) + 2"
proof -
  have a: "a < length (rl_heap R)" "length (hc_inbox (rl_heap R ! a)) \<le> inboxCap"
    using assms by (auto simp: snap_inv_def inboxes_ok_def)
  have go: "\<exists>st R'. snapshot_turn cb pick k a (SnapSending, S) = (st, R') \<and> st \<noteq> SnapSending \<and>
      length (hc_inbox (rl_heap R' ! a)) \<le> length (hc_inbox (rl_heap S ! a)) + 1"
    if "send_to pick (statsCmd k) a S \<noteq> None" "a < length (rl_heap S)" for S
    using that send_to_cell [of pick "statsCmd k" a S _ _ a] by (fastforce simp: snapshot_turn_def)
  show ?thesis
  proof (cases "send_to pick (statsCmd k) a R = None")
    case True
    then have "hc_inbox (rl_heap R ! a) \<noteq> []" "\<not> h_done (hc_hub (rl_heap R ! a))"
      by (auto simp: send_to_def hub_send_def chan_send_def inboxCap_def split: if_splits)
    then obtain c rest where c: "hc_inbox (rl_heap R ! a) = c # rest" "\<not> h_done (hc_hub (rl_heap R ! a))"
      by (meson neq_Nil_conv)
    from go [OF send_after_serving [OF a(1) True a(2), of cb]] a(1) obtain st R' where
      R': "snapshot_turn cb pick k a (SnapSending, serve_next cb a R) = (st, R')" "st \<noteq> SnapSending"
        "length (hc_inbox (rl_heap R' ! a)) \<le> length (hc_inbox (rl_heap (serve_next cb a R) ! a)) + 1" by auto
    have "snapshot_turn cb pick k a (SnapSending, R) = (SnapSending, serve_next cb a R)"
      using True by (simp add: snapshot_turn_def)
    with R' c serve_next_trans [OF a(1) c(2,1), of cb] show ?thesis
      by (intro exI [of _ 2] exI [of _ st] exI [of _ R']) (simp add: numeral_2_eq_2)
  next
    case False
    from go [OF False a(1)] show ?thesis by (elim exE) (rule exI [of _ 1], simp)
  qed
qed

text \<open>
  C23. A statistics query cannot hang: whatever the relay did since the query began, in every
  state it can be in, the query returns after at most as many turns as the hub's inbox is long
  and three more, each turn a move of the query or, while it has to wait, one iteration of the hub's loop;
  it returns without an answer only if the session has ended.
\<close>

theorem snapshot_returns:
  assumes "reachable_from relay_initial (relay_trans cb) R0" and "a < length (rl_heap R0)"
    and "reachable_from (\<lambda>s. s = (SnapSending, R0)) (snapshot cb k a) (st, R)"
  shows "\<exists>n r R'. n \<le> length (hc_inbox (rl_heap R ! a)) + 3 \<and>
     (snapshot_turn cb pick k a ^^ n) (st, R) = (SnapDone r, R') \<and>
     (r = None \<longrightarrow> h_done (hc_hub (rl_heap R' ! a)))"
proof -
  have "inboxes_ok R0" using assms(1)
    by (induction rule: reachable_from.induct) (auto intro: inboxes_ok_initial inboxes_ok_step)
  with assms(2) have "reachable_from (snap_initial a) (snapshot cb k a) (st, R)"
    using reachable_mono [OF assms(3), of "snap_initial a"] by (simp add: snap_initial_def)
  then have inv: "snap_inv k a (st, R)" by (rule snap.reachable_invariant)
  have turns: "\<exists>n r R'. n \<le> length (hc_inbox (rl_heap S ! a)) + 1 \<and>
      (snapshot_turn cb pick k a ^^ n) (s, S) = (SnapDone r, R')" if "s \<noteq> SnapSending" "snap_inv k a (s, S)" for s S
  proof (cases s)
    case (SnapDone r)
    then show ?thesis by (intro exI [of _ 0]) simp
  qed (use that waiting_turns [of k a S cb pick] in \<open>auto simp: snap_inv_def inboxes_ok_def\<close>)
  have keep: "snap_inv k a ((snapshot_turn cb pick k a ^^ n) (st, R))" for n
    by (induction n) (use inv snapshot_turn_inv in \<open>auto, metis surj_pair\<close>)
  have "\<exists>n r R'. n \<le> length (hc_inbox (rl_heap R ! a)) + 3 \<and> (snapshot_turn cb pick k a ^^ n) (st, R) = (SnapDone r, R')"
  proof (cases "st = SnapSending")
    case True
    from sending_turns [OF inv [unfolded True], of cb pick] obtain m s S where
      m: "(snapshot_turn cb pick k a ^^ m) (SnapSending, R) = (s, S)" "s \<noteq> SnapSending"
        "m + length (hc_inbox (rl_heap S ! a)) \<le> length (hc_inbox (rl_heap R ! a)) + 2" by blast
    have "snap_inv k a (s, S)" using keep [of m] m(1) True by simp
    from turns [OF m(2) this] obtain n r R' where
      n: "n \<le> length (hc_inbox (rl_heap S ! a)) + 1" "(snapshot_turn cb pick k a ^^ n) (s, S) = (SnapDone r, R')" by blast
    then have "(snapshot_turn cb pick k a ^^ (n + m)) (st, R) = (SnapDone r, R')"
      using m(1) True by (simp add: funpow_add)
    moreover have "n + m \<le> length (hc_inbox (rl_heap R ! a)) + 3" using n(1) m(3) by simp
    ultimately show ?thesis by blast
  next
    case False
    from turns [OF False inv] show ?thesis by (meson add_leE add_le_mono le_refl le_trans one_le_numeral)
  qed
  then obtain n r R' where n: "n \<le> length (hc_inbox (rl_heap R ! a)) + 3"
    "(snapshot_turn cb pick k a ^^ n) (st, R) = (SnapDone r, R')" by blast
  with keep [of n] show ?thesis by (intro exI [of _ n] exI [of _ r] exI [of _ R']) (auto simp: snap_inv_def)
qed

section \<open>The sweeper's loop\<close>

datatype sweeper = SweepIdle | SweepClosing "haddr list" | SweepStopped

text \<open>
  A tick collects the expired hubs under the registry's lock; then the close commands are sent
  one by one, each waiting for room in the inbox or for the hub to be done, while the rest of the
  relay runs.
\<close>

inductive sweepLoop :: "codecs \<Rightarrow> sweeper \<times> relay \<Rightarrow> (int + relay_event) option \<Rightarrow> sweeper \<times> relay \<Rightarrow> bool" for cb where
  tick: "sweepLoop cb (SweepIdle, R) (Some (Inl now)) (SweepClosing (expired now R), R)"
| close: "send_to pick (closeCmd ''session expired'') a R = Some (ok, R') \<Longrightarrow>
     sweepLoop cb (SweepClosing (a # as), R) None (SweepClosing as, R')"
| pass: "sweepLoop cb (SweepClosing [], R) None (SweepIdle, R)"
| stop: "sweepLoop cb (SweepIdle, R) None (SweepStopped, R)"
| elsewhere: "relay_trans cb R e R' \<Longrightarrow> sweepLoop cb (st, R) (Some (Inr e)) (st, R')"

definition sweeping :: "sweeper \<Rightarrow> haddr set" where
  "sweeping st = (case st of SweepClosing as \<Rightarrow> set as | _ \<Rightarrow> {})"

abbreviation expiry :: cmd where "expiry \<equiv> closeCmd ''session expired''"

text \<open>Every hub of \<open>E\<close> is still to be visited by the sweeper, or its close command is under way.\<close>

definition sweep_inv :: "haddr set \<Rightarrow> sweeper \<times> relay \<Rightarrow> bool" where
  "sweep_inv E s \<longleftrightarrow> inboxes_ok (snd s) \<and> (\<forall>a \<in> sweeping (fst s). a < length (rl_heap (snd s))) \<and>
     (\<forall>a \<in> E. a \<in> sweeping (fst s) \<or> under_way expiry h_done a (snd s))"

lemma sweep_step_inv: "sweepLoop cb s e t \<Longrightarrow> sweep_inv E s \<Longrightarrow> sweep_inv E t"
proof (induction rule: sweepLoop.induct)
  case (tick R now)
  then show ?case
    using expired_in_heap [of R _ now] by (auto simp: sweep_inv_def sweeping_def inboxes_ok_def)
next
  case (close pick a R ok R' as)
  then have a: "a < length (rl_heap R)" by (simp add: sweep_inv_def sweeping_def)
  have "under_way expiry h_done b R'" if "under_way expiry h_done b R" for b
    using that send_to_cell [OF close(1) a, of b] by (auto simp: under_way_def)
  with close a show ?case
    using inboxes_send [OF close(1) a] closing.accepted [OF close(1) a] by (auto simp: sweep_inv_def sweeping_def)
next
  case (elsewhere R e R' st)
  then have inv: "relay_inv R" by (simp add: sweep_inv_def inboxes_ok_def)
  with elsewhere show ?case
    using inboxes_ok_step [OF elsewhere(1)] hub_evolves [OF elsewhere(1) inv] closing.keeps [OF elsewhere(1) inv]
    by (auto simp: sweep_inv_def)
qed (auto simp: sweep_inv_def sweeping_def)

interpretation sweeper: transition_system "sweep_inv E" "sweepLoop cb" "sweep_inv E" for E cb
  by unfold_locales (assumption, rule sweep_step_inv)

text \<open>
  C22. The sweeper reaps what is expired, and only waits for hubs that run: after a tick, in
  every later state of the relay in which the sweeper is idle again, each session that ran at
  the tick and was older than the age limit has ended, or ends within as many iterations of its
  hub's loop as its inbox is long. While a pass is under way its next send never waits for more than one iteration of
  the hub it is sending to.
\<close>

theorem sweeper_reaps:
  assumes "reachable_from relay_initial (relay_trans cb) R"
    and "reachable_from (\<lambda>s. s = (SweepClosing (expired now R), R)) (sweepLoop cb) (st, R')"
  shows "(st = SweepIdle \<longrightarrow>
       (\<forall>a < length (rl_heap R). \<not> h_done (hc_hub (rl_heap R ! a)) \<longrightarrow>
          now - h_created (hc_hub (rl_heap R ! a)) > rg_maxAge (rl_reg R) \<longrightarrow>
          (\<exists>n \<le> length (hc_inbox (rl_heap R' ! a)). h_done (hc_hub (rl_heap ((serve_next cb a ^^ n) R') ! a))))) \<and>
     (\<forall>a as pick. st = SweepClosing (a # as) \<longrightarrow>
        (\<exists>n \<le> 1. send_to pick expiry a ((serve_next cb a ^^ n) R') \<noteq> None))"
proof -
  have ok: "inboxes_ok R" using assms(1)
    by (induction rule: reachable_from.induct) (auto intro: inboxes_ok_initial inboxes_ok_step)
  then have "sweep_inv (set (expired now R)) (SweepClosing (expired now R), R)"
    using expired_in_heap [of R _ now] by (auto simp: sweep_inv_def sweeping_def inboxes_ok_def)
  with reachable_mono [OF assms(2), of "sweep_inv (set (expired now R))"]
  have inv: "sweep_inv (set (expired now R)) (st, R')" by (auto intro: sweeper.reachable_invariant)
  have "\<exists>n \<le> length (hc_inbox (rl_heap R' ! a)). h_done (hc_hub (rl_heap ((serve_next cb a ^^ n) R') ! a))"
    if "st = SweepIdle" "a < length (rl_heap R)" "\<not> h_done (hc_hub (rl_heap R ! a))"
      "now - h_created (hc_hub (rl_heap R ! a)) > rg_maxAge (rl_reg R)" for a
  proof -
    have "a \<in> set (expired now R)" using ok that(2-) by (simp add: inboxes_ok_def expired_running)
    with inv that(1) have "under_way expiry h_done a R'" by (auto simp: sweep_inv_def sweeping_def)
    from closing.settles [OF this, of cb] show ?thesis by (simp add: Let_def)
  qed
  moreover have "\<exists>n \<le> 1. send_to pick expiry a ((serve_next cb a ^^ n) R') \<noteq> None"
    if "st = SweepClosing (a # as)" for a as pick
  proof (cases "send_to pick expiry a R' = None")
    case True
    have "a < length (rl_heap R')" "length (hc_inbox (rl_heap R' ! a)) \<le> inboxCap"
      using inv that by (auto simp: sweep_inv_def sweeping_def inboxes_ok_def)
    from send_after_serving [OF this(1) True this(2), of cb] show ?thesis by (intro exI [of _ 1]) simp
  next
    case False
    then show ?thesis by (intro exI [of _ 0]) simp
  qed
  ultimately show ?thesis by blast
qed

section \<open>Closed examples\<close>

theorem snapshot_returns_witness:
  "\<exists>n r R'. n \<le> 3 \<and> (snapshot_turn demo_codecs False 5 0 ^^ n) (SnapSending, demo_relay) = (SnapDone r, R')"
proof -
  have "0 < length (rl_heap demo_relay)" by (simp add: demo_relay_heap)
  moreover have "reachable_from (\<lambda>s. s = (SnapSending, demo_relay)) (snapshot demo_codecs 5 0) (SnapSending, demo_relay)"
    by (rule reach_initial) simp
  ultimately
  have "\<exists>n r R'. n \<le> length (hc_inbox (rl_heap demo_relay ! 0)) + 3 \<and>
      (snapshot_turn demo_codecs False 5 0 ^^ n) (SnapSending, demo_relay) = (SnapDone r, R')"
    using snapshot_returns [OF demo_relay_reachable, of 0 demo_codecs 5 SnapSending demo_relay False] by blast
  moreover have "hc_inbox (rl_heap demo_relay ! 0) = []" by (simp add: demo_relay_heap)
  ultimately show ?thesis by simp
qed

theorem sweeper_reaps_witness:
  "\<exists>R'. reachable_from (\<lambda>s. s = (SweepClosing (expired 200 demo_relay), demo_relay)) (sweepLoop demo_codecs) (SweepIdle, R') \<and>
     (\<exists>n \<le> length (hc_inbox (rl_heap R' ! 0)). h_done (hc_hub (rl_heap ((serve_next demo_codecs 0 ^^ n) R') ! 0)))"
proof -
  let ?i = "\<lambda>s. s = (SweepClosing (expired 200 demo_relay), demo_relay)"
  have r0: "reachable_from ?i (sweepLoop demo_codecs) (SweepClosing [0], demo_relay)"
    by (rule reach_initial) (simp add: demo_relay_heap)
  have "send_to False expiry 0 demo_relay \<noteq> None"
    by (simp add: send_to_def hub_send_def chan_send_def demo_relay_heap inboxCap_def)
  then obtain ok R' where s: "send_to False expiry 0 demo_relay = Some (ok, R')" by fast
  have r: "reachable_from ?i (sweepLoop demo_codecs) (SweepIdle, R')"
    by (rule reach_step [OF reach_step [OF r0 sweepLoop.close [OF s]] sweepLoop.pass])
  have d: "0 < length (rl_heap demo_relay)" "\<not> h_done (hc_hub (rl_heap demo_relay ! 0))"
    "200 - h_created (hc_hub (rl_heap demo_relay ! 0)) > rg_maxAge (rl_reg demo_relay)"
    by (simp_all add: demo_relay_heap newHub_def)
  note sweeper_reaps [OF demo_relay_reachable r, THEN conjunct1, THEN mp, OF refl, THEN spec, THEN mp, OF d(1), THEN mp, OF d(2), THEN mp, OF d(3)]
  with r show ?thesis by blast
qed

end
