(* ===== verification/Room.thy ===== *)
theory Room
  imports HubSlots Relay
begin

text \<open>
  What a hub promises, without its data structures: a room with one mailbox per participant. A
  step of the room says what a command does in terms of mailboxes, nothing about lists,
  channels, timers or connections; which mailboxes are full decides who is expelled, in any order.
  The hub of src/relay/hub.go refines it.
\<close>

section \<open>The room\<close>

record slot =
  sl_mail :: "bytes list"
  sl_away :: bool
  sl_token :: bytes
  sl_epoch :: uint64
  sl_lost :: bool

record room =
  rm_slots :: "ParticipantID \<rightharpoonup> slot"
  rm_host :: ParticipantID
  rm_next :: ParticipantID
  rm_cap :: int
  rm_grace :: int
  rm_over :: bool

text \<open>Mail for one slot: a full mailbox marks its owner as lost.\<close>

definition put_mail :: "bytes \<Rightarrow> slot \<Rightarrow> slot" where
  "put_mail f s =
     (if sl_lost s then s
      else if length (sl_mail s) < 64 then s\<lparr>sl_mail := sl_mail s @ [f]\<rparr>
      else s\<lparr>sl_lost := True\<rparr>)"

definition post :: "ParticipantID set \<Rightarrow> bytes \<Rightarrow> room \<Rightarrow> room" where
  "post S f R = R\<lparr>rm_slots := (\<lambda>p. if p \<in> S then map_option (put_mail f) (rm_slots R p) else rm_slots R p)\<rparr>"

definition post_all :: "ParticipantID set \<Rightarrow> bytes list \<Rightarrow> room \<Rightarrow> room" where
  "post_all S fs R = fold (post S) fs R"

definition vacate :: "codecs \<Rightarrow> ParticipantID \<Rightarrow> room \<Rightarrow> room" where
  "vacate cb p R = post_all (- {0}) (writeFrame (cParticipantLeft cb) MsgParticipantLeft \<lparr>pl_ParticipantID = p\<rparr>)
     (R\<lparr>rm_slots := (rm_slots R)(p := None)\<rparr>)"

text \<open>The answer to a newcomer and to a returning participant; the peers come in any order.\<close>

definition greeting :: "codecs \<Rightarrow> bool \<Rightarrow> bytes \<Rightarrow> ParticipantID \<Rightarrow> ParticipantID list \<Rightarrow> room \<Rightarrow> wire_error + bytes" where
  "greeting cb isCreate tok p ps R =
     (if isCreate then Encode (cSessionCreated cb) MsgSessionCreated \<lparr>sc_ParticipantID = p, sc_ResumeToken = tok\<rparr>
      else Encode (cJoinResult cb) MsgJoinResult \<lparr>jr_OK = True, jr_Err = '''', jr_ParticipantID = p, jr_Peers = ps,
             jr_HostID = rm_host R, jr_ResumeToken = tok\<rparr>)"

definition others :: "ParticipantID \<Rightarrow> ParticipantID list \<Rightarrow> room \<Rightarrow> bool" where
  "others p ps R \<longleftrightarrow> distinct ps \<and> set ps = dom (rm_slots R) - {p}"

abbreviation complaint :: "codecs \<Rightarrow> uint16 \<Rightarrow> string \<Rightarrow> bytes list" where
  "complaint cb code msg \<equiv> writeFrame (cError cb) MsgError \<lparr>e_Code = code, e_Msg = msg\<rparr>"

inductive room_step :: "codecs \<Rightarrow> room \<Rightarrow> cmd \<Rightarrow> room \<Rightarrow> bool" for cb where
  full: "rm_cap R \<le> int (card (dom (rm_slots R))) \<Longrightarrow> room_step cb R (joinCmd k isC tok) R"
| unanswered: "int (card (dom (rm_slots R))) < rm_cap R \<Longrightarrow> others (rm_next R) ps R \<Longrightarrow>
     greeting cb isC tok (rm_next R) ps R = Inl e \<Longrightarrow>
     room_step cb R (joinCmd k isC tok) (R\<lparr>rm_next := rm_next R + 1\<rparr>)"
| joined: "int (card (dom (rm_slots R))) < rm_cap R \<Longrightarrow> others (rm_next R) ps R \<Longrightarrow>
     greeting cb isC tok (rm_next R) ps R = Inr f \<Longrightarrow>
     room_step cb R (joinCmd k isC tok)
       (post_all (- {rm_next R}) (writeFrame (cParticipantJoined cb) MsgParticipantJoined \<lparr>pj_ParticipantID = rm_next R\<rparr>)
          (R\<lparr>rm_next := rm_next R + 1,
             rm_slots := (rm_slots R)(rm_next R \<mapsto> \<lparr>sl_mail = [f], sl_away = False, sl_token = tok, sl_epoch = 1, sl_lost = False\<rparr>)\<rparr>))"
| left: "rm_slots R p = Some s \<Longrightarrow> \<not> sl_away s \<Longrightarrow> sl_epoch s = g \<Longrightarrow> \<not> (u \<and> rm_grace R > 0) \<Longrightarrow>
     room_step cb R (leaveCmd p g u) (vacate cb p R)"
| dropped: "rm_slots R p = Some s \<Longrightarrow> \<not> sl_away s \<Longrightarrow> sl_epoch s = g \<Longrightarrow> u \<Longrightarrow> rm_grace R > 0 \<Longrightarrow>
     room_step cb R (leaveCmd p g u)
       (R\<lparr>rm_slots := (rm_slots R)(p \<mapsto> s\<lparr>sl_away := True, sl_epoch := sl_epoch s + 1, sl_mail := []\<rparr>)\<rparr>)"
| left_stale: "(\<And>s. rm_slots R p = Some s \<Longrightarrow> sl_away s \<or> sl_epoch s \<noteq> g) \<Longrightarrow> room_step cb R (leaveCmd p g u) R"
| expired: "rm_slots R p = Some s \<Longrightarrow> sl_away s \<Longrightarrow> sl_epoch s = g \<Longrightarrow>
     room_step cb R (graceExpiredCmd p g) (vacate cb p R)"
| expired_stale: "(\<And>s. rm_slots R p = Some s \<Longrightarrow> \<not> sl_away s \<or> sl_epoch s \<noteq> g) \<Longrightarrow>
     room_step cb R (graceExpiredCmd p g) R"
| resumed: "rm_slots R p = Some s \<Longrightarrow> others p ps R \<Longrightarrow> greeting cb False (sl_token s) p ps R = Inr f \<Longrightarrow>
     room_step cb R (resumeCmd k p (sl_token s))
       (R\<lparr>rm_slots := (rm_slots R)(p \<mapsto> s\<lparr>sl_away := False, sl_epoch := sl_epoch s + 1,
            sl_mail := take 64 (f # (if sl_away s then sl_mail s else []))\<rparr>)\<rparr>)"
| refused: "(\<And>s. rm_slots R p = Some s \<Longrightarrow> sl_token s \<noteq> tok \<or> (\<exists>ps e. others p ps R \<and> greeting cb False tok p ps R = Inl e)) \<Longrightarrow>
     room_step cb R (resumeCmd k p tok) R"
| claimed: "room_step cb R (claimHostCmd p) (if p \<in> dom (rm_slots R) then R\<lparr>rm_host := p\<rparr> else R)"
| direct: "Body (cDirect cb) raw = Inr d \<Longrightarrow> d_To d \<in> dom (rm_slots R) \<Longrightarrow>
     room_step cb R (frameCmd p MsgDirect raw)
       (post_all {d_To d} (writeFrame (cDirect cb) MsgDirect (d\<lparr>d_From := p\<rparr>)) R)"
| nobody: "Body (cDirect cb) raw = Inr d \<Longrightarrow> d_To d \<notin> dom (rm_slots R) \<Longrightarrow>
     room_step cb R (frameCmd p MsgDirect raw) (post_all {p} (complaint cb ErrCodeUnknownPeer ''unknown peer'') R)"
| bad_direct: "Body (cDirect cb) raw = Inl e \<Longrightarrow>
     room_step cb R (frameCmd p MsgDirect raw) (post_all {p} (complaint cb ErrCodeBadFrame ''bad direct frame'') R)"
| broadcast: "Body (cBroadcast cb) raw = Inr b \<Longrightarrow>
     room_step cb R (frameCmd p MsgBroadcast raw)
       (post_all (- {p}) (writeFrame (cBroadcast cb) MsgBroadcast (b\<lparr>b_From := p\<rparr>)) R)"
| bad_broadcast: "Body (cBroadcast cb) raw = Inl e \<Longrightarrow>
     room_step cb R (frameCmd p MsgBroadcast raw) (post_all {p} (complaint cb ErrCodeBadFrame ''bad broadcast frame'') R)"
| ignored: "ty \<noteq> MsgDirect \<Longrightarrow> ty \<noteq> MsgBroadcast \<Longrightarrow> room_step cb R (frameCmd p ty raw) R"
| counted: "room_step cb R (statsCmd k) R"
| closed: "room_step cb R (closeCmd reason)
     (post_all (- {0}) (writeFrame (cSessionClosed cb) MsgSessionClosed \<lparr>sc_Reason = reason\<rparr>) R)"

text \<open>The lost are expelled one by one; the notices can make further mailboxes overflow.\<close>

inductive expel :: "codecs \<Rightarrow> room \<Rightarrow> room \<Rightarrow> bool" for cb where
  settled: "(\<And>p s. rm_slots R p = Some s \<Longrightarrow> \<not> sl_lost s) \<Longrightarrow> expel cb R R"
| expelled: "rm_slots R p = Some s \<Longrightarrow> sl_lost s \<Longrightarrow> expel cb (vacate cb p R) R' \<Longrightarrow> expel cb R R'"

text \<open>
  A whole round: the command and then the expulsions, except after a close, which ends the room at
  once. Otherwise the room ends when its last participant goes.
\<close>

inductive room_round :: "codecs \<Rightarrow> room \<Rightarrow> cmd \<Rightarrow> room \<Rightarrow> bool \<Rightarrow> bool" for cb where
  close: "room_step cb R (closeCmd reason) R' \<Longrightarrow> room_round cb R (closeCmd reason) R' True"
| other: "(\<And>reason. c \<noteq> closeCmd reason) \<Longrightarrow> room_step cb R c R1 \<Longrightarrow> expel cb R1 R' \<Longrightarrow>
     room_round cb R c R' (dom (rm_slots R) \<noteq> {} \<and> dom (rm_slots R') = {})"

text \<open>
  What can happen to a room while it lasts: a round, a participant who is there takes the oldest
  letter out of its mailbox or gets one of its own back, and a change that cannot be seen.
\<close>

inductive room_trans :: "codecs \<Rightarrow> room \<Rightarrow> hub_event \<Rightarrow> room \<Rightarrow> bool" for cb where
  lasts: "\<not> rm_over R \<Longrightarrow> room_round cb R c R' False \<Longrightarrow> room_trans cb R (Handle c) R'"
| ends: "\<not> rm_over R \<Longrightarrow> room_round cb R c R' True \<Longrightarrow> room_trans cb R (Handle c) (R'\<lparr>rm_over := True\<rparr>)"
| taken: "\<not> rm_over R \<Longrightarrow> rm_slots R p = Some s \<Longrightarrow> \<not> sl_away s \<Longrightarrow> sl_mail s = f # fs \<Longrightarrow>
     room_trans cb R (Written p) (R\<lparr>rm_slots := (rm_slots R)(p \<mapsto> s\<lparr>sl_mail := fs\<rparr>)\<rparr>)"
| own: "\<not> rm_over R \<Longrightarrow> rm_slots R p = Some s \<Longrightarrow> \<not> sl_away s \<Longrightarrow> length (sl_mail s) < 64 \<Longrightarrow>
     room_trans cb R (Queued p f) (R\<lparr>rm_slots := (rm_slots R)(p \<mapsto> s\<lparr>sl_mail := sl_mail s @ [f]\<rparr>)\<rparr>)"
| unseen: "\<not> rm_over R \<Longrightarrow> room_trans cb R Reordered R"

definition room_initial :: "room \<Rightarrow> bool" where
  "room_initial R \<longleftrightarrow> rm_slots R = Map.empty \<and> rm_host R = 1 \<and> rm_next R = 1 \<and> \<not> rm_over R"

section \<open>The hub as a room\<close>

definition slot_of :: "client \<Rightarrow> slot" where
  "slot_of c = \<lparr>sl_mail = cl_out c, sl_away = cl_held c, sl_token = cl_token c, sl_epoch = cl_gen c, sl_lost = cl_evicting c\<rparr>"

definition room_of :: "hub \<Rightarrow> room" where
  "room_of h = \<lparr>rm_slots = (\<lambda>p. map_option slot_of (find_client h p)), rm_host = h_host h, rm_next = h_nextID h,
     rm_cap = h_max h, rm_grace = h_grace h, rm_over = h_done h\<rparr>"

lemma room_of_simps [simp]:
  "rm_slots (room_of h) p = map_option slot_of (find_client h p)" "rm_host (room_of h) = h_host h" "rm_next (room_of h) = h_nextID h"
  "rm_cap (room_of h) = h_max h" "rm_grace (room_of h) = h_grace h" "rm_over (room_of h) = h_done h"
  by (simp_all add: room_of_def)

lemma slot_of_simps [simp]:
  "sl_mail (slot_of c) = cl_out c" "sl_away (slot_of c) = cl_held c" "sl_token (slot_of c) = cl_token c"
  "sl_epoch (slot_of c) = cl_gen c" "sl_lost (slot_of c) = cl_evicting c"
  by (simp_all add: slot_of_def)

lemma slot_of_offer: "slot_of (offer f c) = put_mail f (slot_of c)"
  by (simp add: slot_of_def offer_def put_mail_def sendBuffer_def)

lemma room_eqI:
  assumes "\<And>p. rm_slots R p = rm_slots R' p" "rm_host R = rm_host R'" "rm_next R = rm_next R'"
    and "rm_cap R = rm_cap R'" "rm_grace R = rm_grace R'" "rm_over R = rm_over R'"
  shows "R = (R' :: room)"
  using assms by (simp add: room.equality ext)

lemma room_of_broadcast:
  "wf_map (h_clients h) \<Longrightarrow> room_of (broadcastFrame cd t b ex h) = post_all (- {ex}) (writeFrame cd t b) (room_of h)"
  by (rule room_eqI)
     (auto simp: find_broadcastFrame post_all_def post_def writeFrame_def slot_of_offer option.map_comp comp_def split: sum.split)

lemma room_of_send:
  "wf_map (h_clients h) \<Longrightarrow> room_of (sendTo cd p t b h) = post_all {p} (writeFrame cd t b) (room_of h)"
  by (rule room_eqI)
     (auto simp: find_sendTo post_all_def post_def writeFrame_def slot_of_offer option.map_comp comp_def split: sum.split)

lemma room_of_set_client:
  "room_of (set_client p c h) = (room_of h)\<lparr>rm_slots := (rm_slots (room_of h))(p \<mapsto> slot_of c)\<rparr>"
  by (rule room_eqI) (auto simp: set_client_def)

lemma room_of_logs [simp]:
  "room_of (h\<lparr>h_metrics := m\<rparr>) = room_of h" "room_of (h\<lparr>h_kicks := ks\<rparr>) = room_of h"
  "room_of (h\<lparr>h_evict := es\<rparr>) = room_of h" "room_of (h\<lparr>h_replies := rs\<rparr>) = room_of h"
  "room_of (count_error h) = room_of h" "room_of (reply k r h) = room_of h"
  by (simp_all add: room_of_def count_error_def reply_def)

lemma room_of_host [simp]: "room_of (h\<lparr>h_host := p\<rparr>) = (room_of h)\<lparr>rm_host := p\<rparr>"
  and room_of_next [simp]: "room_of (h\<lparr>h_nextID := p\<rparr>) = (room_of h)\<lparr>rm_next := p\<rparr>"
  by (simp_all add: room_of_def)

lemma room_of_shutdown: "room_of (shutdown h) = (room_of h)\<lparr>rm_over := True\<rparr>"
  by (simp add: room_of_def shutdown_def)

lemma dom_room_of [simp]: "dom (rm_slots (room_of h)) = dom (find_client h)"
  by (auto simp: room_of_def dom_def)

lemma card_room_of: "wf_map (h_clients h) \<Longrightarrow> card (dom (rm_slots (room_of h))) = length (h_clients h)"
  by (simp add: dom_map_of_conv_image_fst wf_map_def distinct_card [of "map fst (h_clients h)", simplified])

lemma others_peersExcept: "wf_map (h_clients h) \<Longrightarrow> others p (peersExcept p h) (room_of h)"
  by (auto simp: others_def peersExcept_def wf_map_def dom_map_of_conv_image_fst)

lemma post_all_empty: "(\<And>q. rm_slots R q = None) \<Longrightarrow> post_all S fs R = R"
proof -
  assume "\<And>q. rm_slots R q = None"
  then have "post S f R = R" for f by (intro room_eqI) (simp_all add: post_def)
  then show ?thesis unfolding post_all_def by (induction fs) simp_all
qed

lemma room_of_remove:
  assumes "wf_map (h_clients h)" "find_client h p = Some c" "removeParticipant cb p h = (h', s)"
  shows "room_of h' = vacate cb p (room_of h)"
proof -
  let ?h = "h\<lparr>h_clients := AList.delete p (h_clients h), h_kicks := h_kicks h @ [cl_kick c]\<rparr>"
  have gone: "room_of ?h = (room_of h)\<lparr>rm_slots := (rm_slots (room_of h))(p := None)\<rparr>"
    by (rule room_eqI) auto
  have wf: "wf_map (h_clients ?h)" using assms(1) by simp
  show ?thesis
  proof (cases "AList.delete p (h_clients h) = []")
    case True
    then have "map_of (AList.delete p (h_clients h)) q = None" for q by (metis map_of.simps(1))
    then have "post_all S fs (room_of ?h) = room_of ?h" for S fs by (intro post_all_empty) simp
    with True assms(2,3) gone show ?thesis by (simp add: removeParticipant_def vacate_def)
  next
    case False
    with assms(2,3) gone room_of_broadcast [OF wf] show ?thesis by (auto simp: removeParticipant_def vacate_def Let_def)
  qed
qed

lemma expel_next:
  assumes "hub_wf h" "h_evict h = p # rest" "removeParticipant cb p (h\<lparr>h_evict := rest\<rparr>) = (h1, s)"
    and "expel cb (room_of h1) R"
  shows "expel cb (room_of h) R"
proof -
  have "p \<in> evicting_ids h" using assms(1,2) by (auto simp: hub_wf_but_def)
  then obtain c where c: "find_client h p = Some c" "cl_evicting c" by (auto simp: evicting_ids_def)
  have "room_of h1 = vacate cb p (room_of h)"
    using room_of_remove [OF _ _ assms(3), of c] hub_wf_map [OF assms(1)] c(1) by simp
  with c assms(4) show ?thesis using expel.expelled [of "room_of h" p "slot_of c" cb R] by simp
qed

lemma drain_refines: "drainEvictions cb h = (h', s) \<Longrightarrow> hub_wf h \<longrightarrow> expel cb (room_of h) (room_of h')"
proof (induction rule: drainEvictions_cases)
  case (Quiet h)
  then have "evicting_ids h = {}" if "hub_wf h" using that by (auto simp: hub_wf_but_def)
  then show ?case by (auto simp: evicting_ids_def intro!: expel.settled)
next
  case (Emptied h p rest h1)
  then have "h_clients h1 = []" by (auto simp: removeParticipant_def Let_def split: option.splits if_splits)
  then have "expel cb (room_of h1) (room_of h1)" by (intro expel.settled) simp
  with expel_next [OF _ Emptied(1,2)] show ?case by blast
next
  case (Step h p rest h1 h' s)
  have "expel cb (room_of h) (room_of h')" if wf: "hub_wf h"
  proof -
    have "hub_wf h1" using hub_wf_removeParticipant [OF hub_wf_but_pop [OF wf Step(1)], of cb] Step(2) by simp
    with Step.IH expel_next [OF wf Step(1,2)] show ?thesis by blast
  qed
  then show ?case by blast
qed

section \<open>Refinement of the handlers\<close>

lemma handleJoin_refines:
  assumes "hub_inv h"
  shows "room_step cb (room_of h) (joinCmd k isC tok) (room_of (handleJoin cb k isC tok h))"
proof -
  have wf: "wf_map (h_clients h)" using hub_wf_map [OF hub_inv_wf [OF assms]] .
  let ?p = "h_nextID h"
  have ps: "others (rm_next (room_of h)) (peersExcept ?p h) (room_of h)" using others_peersExcept [OF wf] by simp
  have same: "peersExcept ?p (h\<lparr>h_nextID := n\<rparr>) = peersExcept ?p h" for n by (simp add: peersExcept_def)
  show ?thesis
  proof (cases "int (length (h_clients h)) \<ge> h_max h")
    case True
    then show ?thesis using card_room_of [OF wf] by (auto simp: handleJoin_def intro!: room_step.full)
  next
    case False
    then have free: "int (card (dom (rm_slots (room_of h)))) < rm_cap (room_of h)" using card_room_of [OF wf] by simp
    show ?thesis
    proof (cases "greeting cb isC tok (rm_next (room_of h)) (peersExcept ?p h) (room_of h)")
      case (Inl e)
      with False have "room_of (handleJoin cb k isC tok h) = (room_of h)\<lparr>rm_next := rm_next (room_of h) + 1\<rparr>"
        by (auto simp: handleJoin_def greeting_def same Let_def split: if_splits)
      with room_step.unanswered [OF free ps Inl] show ?thesis by simp
    next
      case (Inr f)
      let ?c = "\<lparr>cl_id = ?p, cl_out = [f], cl_kick = k, cl_token = tok, cl_held = False, cl_gen = 1, cl_timer = None, cl_evicting = False\<rparr>"
      have wf': "wf_map (h_clients (set_client ?p ?c (h\<lparr>h_nextID := ?p + 1\<rparr>)))" using wf by (simp add: set_client_def)
      from False Inr have "room_of (handleJoin cb k isC tok h) =
          post_all (- {?p}) (writeFrame (cParticipantJoined cb) MsgParticipantJoined \<lparr>pj_ParticipantID = ?p\<rparr>)
            (room_of (set_client ?p ?c (h\<lparr>h_nextID := ?p + 1\<rparr>)))"
        using wf' by (auto simp: handleJoin_def greeting_def same room_of_broadcast Let_def split: if_splits)
      moreover have "slot_of ?c = \<lparr>sl_mail = [f], sl_away = False, sl_token = tok, sl_epoch = 1, sl_lost = False\<rparr>"
        by (simp add: slot_of_def)
      ultimately show ?thesis using room_step.joined [OF free ps Inr, of k] by (simp add: room_of_set_client)
    qed
  qed
qed

lemma handleLeave_refines:
  assumes "hub_inv h" "handleLeave cb p g u h = (h', s)"
  shows "room_step cb (room_of h) (leaveCmd p g u) (room_of h')"
proof (cases "\<exists>c. find_client h p = Some c \<and> \<not> cl_held c \<and> cl_gen c = g")
  case False
  then have "h' = h" using assms(2) by (auto simp: handleLeave_def split: option.splits if_splits)
  with False show ?thesis by (auto intro!: room_step.left_stale)
next
  case True
  then obtain c where c: "find_client h p = Some c" "\<not> cl_held c" "cl_gen c = g" by blast
  show ?thesis
  proof (cases "u \<and> h_grace h > 0")
    case True
    have p: "cl_id c = p" using hub_inv_client [OF assms(1) c(1)] by (simp add: client_wf_def)
    let ?c = "c\<lparr>cl_held := True, cl_gen := g + 1, cl_out := [], cl_timer := Some (g + 1)\<rparr>"
    have "h' = set_client p ?c h" using True c assms(2) p by (simp add: handleLeave_def holdSlot_def)
    moreover have so: "slot_of ?c = (slot_of c)\<lparr>sl_away := True, sl_epoch := g + 1, sl_mail := []\<rparr>"
      by (simp add: slot_of_def)
    ultimately show ?thesis
      using room_step.dropped [of "room_of h" p "slot_of c" g u cb] True c by (simp add: room_of_set_client so)
  next
    case False
    then have "removeParticipant cb p h = (h', s)" using c assms(2) by (auto simp: handleLeave_def)
    from room_of_remove [OF hub_wf_map [OF hub_inv_wf [OF assms(1)]] c(1) this]
    show ?thesis using room_step.left [of "room_of h" p "slot_of c" g u cb] c False by simp
  qed
qed

lemma handleGraceExpired_refines:
  assumes "hub_inv h" "handleGraceExpired cb p g h = (h', s)"
  shows "room_step cb (room_of h) (graceExpiredCmd p g) (room_of h')"
proof (cases "\<exists>c. find_client h p = Some c \<and> cl_held c \<and> cl_gen c = g")
  case False
  then have "h' = h" using assms(2) by (auto simp: handleGraceExpired_def split: option.splits if_splits)
  with False show ?thesis by (fastforce intro!: room_step.expired_stale)
next
  case True
  then obtain c where c: "find_client h p = Some c" "cl_held c" "cl_gen c = g" by blast
  then have "removeParticipant cb p h = (h', s)" using assms(2) by (auto simp: handleGraceExpired_def)
  from room_of_remove [OF hub_wf_map [OF hub_inv_wf [OF assms(1)]] c(1) this]
  show ?thesis using room_step.expired [of "room_of h" p "slot_of c" g cb] c by simp
qed

lemma handleResume_refines:
  assumes "hub_inv h"
  shows "room_step cb (room_of h) (resumeCmd k p tok) (room_of (handleResume cb k p tok h))"
proof -
  have ps: "others p (peersExcept p h) (room_of h)" using others_peersExcept hub_wf_map [OF hub_inv_wf [OF assms]] by blast
  show ?thesis
  proof (cases "\<exists>c f. find_client h p = Some c \<and> cl_token c = tok \<and> greeting cb False tok p (peersExcept p h) (room_of h) = Inr f")
    case False
    then have "room_of (handleResume cb k p tok h) = room_of h"
      by (auto simp: handleResume_def greeting_def Let_def split: option.split sum.split)
    moreover have "sl_token s \<noteq> tok \<or> (\<exists>ps e. others p ps (room_of h) \<and> greeting cb False tok p ps (room_of h) = Inl e)"
      if "rm_slots (room_of h) p = Some s" for s
      using False that ps by (cases "greeting cb False tok p (peersExcept p h) (room_of h)") auto
    ultimately show ?thesis using room_step.refused [of "room_of h" p tok cb k] by simp
  next
    case True
    then obtain c f where c: "find_client h p = Some c" "cl_token c = tok" and
      f: "greeting cb False tok p (peersExcept p h) (room_of h) = Inr f" by blast
    then have e: "Encode (cJoinResult cb) MsgJoinResult \<lparr>jr_OK = True, jr_Err = [], jr_ParticipantID = p, jr_Peers = peersExcept p h,
        jr_HostID = h_host h, jr_ResumeToken = cl_token c\<rparr> = Inr f" by (simp add: greeting_def)
    let ?s = "(slot_of c)\<lparr>sl_away := False, sl_epoch := sl_epoch (slot_of c) + 1,
        sl_mail := take 64 (f # (if sl_away (slot_of c) then sl_mail (slot_of c) else []))\<rparr>"
    have "room_of (handleResume cb k p tok h) = (room_of h)\<lparr>rm_slots := (rm_slots (room_of h))(p \<mapsto> ?s)\<rparr>"
    proof (rule room_eqI)
      fix q
      show "rm_slots (room_of (handleResume cb k p tok h)) q =
          rm_slots ((room_of h)\<lparr>rm_slots := (rm_slots (room_of h))(p \<mapsto> ?s)\<rparr>) q"
        using resume_ok(3) [OF assms c(1) e, of k q] c(2) by (simp add: slot_of_def sendBuffer_def)
    qed (use c e in \<open>simp_all add: handleResume_def set_client_def reply_def Let_def\<close>)
    with room_step.resumed [of "room_of h" p "slot_of c" "peersExcept p h" cb f k] c f ps show ?thesis by simp
  qed
qed

lemma route_refines:
  assumes "hub_inv h"
  shows "room_step cb (room_of h) (frameCmd p ty raw) (room_of (route cb p ty raw h))"
proof -
  let ?m = "(h_metrics h)\<lparr>FramesForwarded := FramesForwarded (h_metrics h) + 1,
    BytesForwarded := BytesForwarded (h_metrics h) + word_of_nat (length raw)\<rparr>"
  let ?h = "h\<lparr>h_metrics := ?m\<rparr>"
  have wf: "wf_map (h_clients ?h)" "wf_map (h_clients (count_error ?h))" using hub_wf_map [OF hub_inv_wf [OF assms]] by simp_all
  note sends = room_of_send [OF wf(1)] room_of_send [OF wf(2)] room_of_broadcast [OF wf(1)]
  consider (direct) d where "ty = MsgDirect" "Body (cDirect cb) raw = Inr d" | (bad) e where "ty = MsgDirect" "Body (cDirect cb) raw = Inl e"
    | (bcast) b where "ty = MsgBroadcast" "Body (cBroadcast cb) raw = Inr b" | (badb) e where "ty = MsgBroadcast" "Body (cBroadcast cb) raw = Inl e"
    | (other) "ty \<noteq> MsgDirect" "ty \<noteq> MsgBroadcast" by (metis obj_sumE)
  then show ?thesis
  proof cases
    case direct
    then show ?thesis
      using room_step.direct [OF direct(2), of "room_of h" p] room_step.nobody [OF direct(2), of "room_of h" p]
      by (cases "find_client h (d_To d)") (simp_all add: route_def sends Let_def domIff)
  next
    case bad
    then show ?thesis using room_step.bad_direct [OF bad(2)] by (simp add: route_def sends Let_def)
  next
    case bcast
    then show ?thesis using room_step.broadcast [OF bcast(2)] by (simp add: route_def sends Let_def)
  next
    case badb
    then show ?thesis using room_step.bad_broadcast [OF badb(2)] by (simp add: route_def sends Let_def)
  next
    case other
    then show ?thesis using room_step.ignored by (simp add: route_def Let_def)
  qed
qed

lemma handle_cmd_refines:
  assumes "hub_inv h" "handle_cmd cb c h = (h', s)"
  shows "room_step cb (room_of h) c (room_of h')"
proof (cases c)
  case (claimHostCmd p)
  then show ?thesis
    using assms(2) room_step.claimed [of cb "room_of h" p]
    by (auto simp: handle_cmd_def handleClaimHost_def domIff split: option.splits)
next
  case (closeCmd r)
  then show ?thesis
    using assms room_step.closed hub_wf_map [OF hub_inv_wf [OF assms(1)]]
    by (auto simp: handle_cmd_def handleClose_def room_of_broadcast)
qed (use assms handleJoin_refines handleLeave_refines handleResume_refines handleGraceExpired_refines route_refines room_step.counted
    in \<open>auto simp: handle_cmd_def handleStats_def\<close>)

section \<open>Refinement of the loop\<close>

text \<open>In an empty hub nothing but a close ends the session: nobody can be expelled.\<close>

lemma empty_not_evicting:
  assumes "hub_inv h" "h_clients h = []" "handle_cmd cb c h = (h1, s)" "\<And>r. c \<noteq> closeCmd r"
  shows "\<not> s \<and> evicting_ids h1 = {}"
proof (cases c)
  case (joinCmd k isC tok)
  with assms(2,3) show ?thesis
    by (auto simp: handle_cmd_def handleJoin_def evicting_ids_def set_client_def reply_def find_broadcastFrame wf_map_def Let_def
        split: if_splits sum.splits)
qed (use assms in \<open>auto simp: handle_cmd_def handleLeave_def handleResume_def handleGraceExpired_def handleClaimHost_def
    handleStats_def evicting_ids_def reply_def route_def find_broadcastFrame find_sendTo wf_map_def count_error_def Let_def
    split: sum.splits if_splits\<close>)


lemma round_ends:
  assumes "hub_inv h" "hub_step cb c h = (h', stop)" "\<And>r. c \<noteq> closeCmd r"
  shows "stop \<longleftrightarrow> dom (rm_slots (room_of h)) \<noteq> {} \<and> dom (rm_slots (room_of h')) = {}"
proof (cases "h_clients h = []")
  case True
  obtain h1 s where h1: "handle_cmd cb c h = (h1, s)" by (cases "handle_cmd cb c h")
  note quiet = empty_not_evicting [OF assms(1) True h1 assms(3)]
  moreover have "hub_wf h1" using handle_cmd_wf [OF assms(1), of cb c] h1 by simp
  ultimately have "h_evict h1 = []" by (simp add: hub_wf_but_def)
  with quiet h1 assms(2) True show ?thesis by (simp add: hub_step_def drainEvictions.simps)
next
  case False
  with session_ends_iff [OF assms(1) False assms(2)] assms(3) show ?thesis
    by (cases "h_clients h"; cases "h_clients h'") (auto simp: domIff)
qed

lemma hub_step_refines:
  assumes "hub_inv h" "hub_step cb c h = (h', stop)"
  shows "room_round cb (room_of h) c (room_of h') stop"
proof -
  obtain h1 s where h1: "handle_cmd cb c h = (h1, s)" by (cases "handle_cmd cb c h")
  note step = handle_cmd_refines [OF assms(1) h1]
  show ?thesis
  proof (cases "\<exists>r. c = closeCmd r")
    case True
    then have "s" "h' = h1" "stop" using h1 assms(2) by (auto simp: hub_step_def handle_cmd_def)
    with True step show ?thesis by (auto intro: room_round.close)
  next
    case False
    have ends: "stop \<longleftrightarrow> dom (rm_slots (room_of h)) \<noteq> {} \<and> dom (rm_slots (room_of h')) = {}"
      by (rule round_ends [OF assms]) (use False in blast)
    have "expel cb (room_of h1) (room_of h')"
    proof (cases s)
      case True
      with handle_cmd_stop [OF assms(1) _ h1] False empty_not_evicting [OF assms(1) _ h1] have "h_clients h1 = []" by blast
      moreover have "h' = h1" using True h1 assms(2) by (simp add: hub_step_def)
      ultimately show ?thesis by (auto intro!: expel.settled)
    next
      case False
      with h1 assms(2) have "drainEvictions cb h1 = (h', stop)" by (simp add: hub_step_def)
      with drain_refines handle_cmd_wf [OF assms(1), of cb c] h1 show ?thesis by fastforce
    qed
    with room_round.other [of c cb] step False ends show ?thesis by blast
  qed
qed

section \<open>Every run of the hub is a run of the room\<close>

lemma hub_trans_refines: "hub_trans cb h e h' \<Longrightarrow> hub_live_inv h \<Longrightarrow> room_trans cb (room_of h) e (room_of h')"
proof (induction rule: hub_trans.induct)
  case (handle h c h')
  then show ?case by (auto simp: hub_live_inv_def intro: room_trans.lasts hub_step_refines)
next
  case (finish h c h')
  then have "room_round cb (room_of h) c (room_of h') True" by (auto simp: hub_live_inv_def intro: hub_step_refines)
  from room_trans.ends [OF _ this] finish show ?case by (simp add: room_of_shutdown)
next
  case (written h p c f fs)
  then show ?case
    using room_trans.taken [of "room_of h" p "slot_of c" f fs cb] by (simp add: room_of_set_client slot_of_def)
next
  case (queued h p c f fs)
  then show ?case
    using room_trans.own [of "room_of h" p "slot_of c" cb f]
    by (simp add: room_of_set_client slot_of_def chan_send_Some_iff sendBuffer_def)
next
  case (reordered h m)
  then have "room_of (h\<lparr>h_clients := m\<rparr>) = room_of h"
    using map_of_permute [of "h_clients h" m] by (auto simp: room_of_def hub_live_inv_def hub_inv_def hub_wf_but_def)
  with reordered room_trans.unseen [of "room_of h" cb] show ?case by simp
qed

interpretation hub_room: simulation hub_initial "hub_trans cb" hub_live_inv room_initial "room_trans cb" room_of for cb
proof unfold_locales
  show "room_initial (room_of h)" if "hub_initial h" for h
    using that by (auto simp: hub_initial_def room_initial_def newHub_def)
qed (rule hub_trans_refines)

text \<open>
  C2. A hub keeps the promise of a room with mailboxes. From its creation on, whatever commands
  its loop handles and however they interleave with the writers and readers of the connections and
  with Go's choice of iteration order, the hub's history is a history of the abstract room: each
  command has exactly the effect on the mailboxes, on who is there or away, on the host and on the
  ids that the room's rule for it states, participants with a full mailbox are expelled with a
  notice to the others, and the session is over exactly when it was closed or its last
  participant is gone.
\<close>

theorem hub_refines_room:
  assumes "hub_initial h" and "steps (hub_trans cb) h es h'"
  shows "room_initial (room_of h) \<and> steps (room_trans cb) (room_of h) es (room_of h')"
  using hub_room.abs_initial [OF assms(1)] hub_room.abs_steps [OF assms(2) hub.initial_invariant [OF assms(1)]] by blast

theorem hub_refines_room_witness:
  "\<exists>h'. steps (hub_trans demo_codecs) (newHub (replicate 16 0) 16 30 0 zero_Metrics)
       [Handle (joinCmd 7 True [9]), Written 1, Handle (leaveCmd 1 1 True)] h' \<and>
     steps (room_trans demo_codecs) (room_of (newHub (replicate 16 0) 16 30 0 zero_Metrics))
       [Handle (joinCmd 7 True [9]), Written 1, Handle (leaveCmd 1 1 True)] (room_of h') \<and>
     rm_slots (room_of h') 1 = Some \<lparr>sl_mail = [], sl_away = True, sl_token = [9], sl_epoch = 2, sl_lost = False\<rparr>"
proof -
  let ?i = "newHub (replicate 16 0) 16 30 0 zero_Metrics"
  let ?c = "\<lambda>out held g t. \<lparr>cl_id = 1, cl_out = out, cl_kick = 7, cl_token = [9], cl_held = held, cl_gen = g, cl_timer = t, cl_evicting = False\<rparr>"
  obtain f g where f: "Encode (cSessionCreated demo_codecs) MsgSessionCreated \<lparr>sc_ParticipantID = 1, sc_ResumeToken = [9]\<rparr> = Inr f"
    and g: "Encode (cParticipantJoined demo_codecs) MsgParticipantJoined \<lparr>pj_ParticipantID = 1\<rparr> = Inr g"
    using demo_encode_SessionCreated [of "[9]"] demo_encodes(2) by fastforce
  have "\<exists>h1. hub_step demo_codecs (joinCmd 7 True [9]) ?i = (h1, False) \<and> h_clients h1 = [(1, ?c [f] False 1 None)] \<and>
      h_grace h1 = 30 \<and> \<not> h_done h1 \<and> h_evict h1 = []"
    using f g by (simp add: hub_step_def handle_cmd_def handleJoin_def newHub_def reply_def set_client_def
      broadcastFrame_def fan_out_def drainEvictions.simps Let_def)
  then obtain h1 where h1: "hub_step demo_codecs (joinCmd 7 True [9]) ?i = (h1, False)"
      "h_clients h1 = [(1, ?c [f] False 1 None)]" "h_grace h1 = 30" "\<not> h_done h1" "h_evict h1 = []" by blast
  let ?h2 = "set_client 1 (?c [] False 1 None) h1" and ?h3 = "set_client 1 (?c [] True 2 (Some 2)) (set_client 1 (?c [] False 1 None) h1)"
  have "hub_trans demo_codecs h1 (Written 1) ?h2"
    using hub_trans.written [of h1 1 "?c [f] False 1 None" f "[]" demo_codecs] h1 by simp
  moreover have "hub_trans demo_codecs ?h2 (Handle (leaveCmd 1 1 True)) ?h3"
    using h1 by (intro hub_trans.handle)
      (simp_all add: hub_step_def handle_cmd_def handleLeave_def holdSlot_def set_client_def drainEvictions.simps)
  moreover have "hub_trans demo_codecs ?i (Handle (joinCmd 7 True [9])) h1"
    using h1(1) by (intro hub_trans.handle) (simp_all add: newHub_def)
  ultimately have run: "steps (hub_trans demo_codecs) ?i [Handle (joinCmd 7 True [9]), Written 1, Handle (leaveCmd 1 1 True)] ?h3"
    by (blast intro: steps.intros)
  have "hub_initial ?i" unfolding hub_initial_def by blast
  with run hub_refines_room [OF this run] show ?thesis
    by (intro exI [of _ ?h3]) (simp add: set_client_def slot_of_def)
qed

end
