(* ===== verification/Spec2Isabelle.thy ===== *)
theory Spec2Isabelle
  imports Lifecycle Sequence MuxClose Cluster Routing Inbox Room
begin

text \<open>
  A verification library for parley, an end-to-end encrypted session layer in Go: a relay that
  forwards opaque frames between the participants of a session, clients that agree on keys from a
  spoken phrase, services multiplexed over a session, and a dashboard for the relay's operator.

  \<^bold>\<open>The program and its theories.\<close>
  \<^item> Frames (src/wire): \<open>Wire\<close>, the frame layout, message structs and inner payloads. The CBOR library
    is the parameter \<open>cbor\<close> whose law is \<open>cbor_roundtrip\<close>; \<open>DemoCodec\<close> has concrete codecs for the
    examples and \<open>Cbor\<close> the encoding of a broadcast by the RFC, where its size matters.
  \<^item> Hub (src/relay/hub.go): \<open>Hub\<close> has the session goroutine, one definition per command handler,
    \<open>hub_step\<close> for one round of its loop with the eviction drain, and \<open>run\<close> for the loop. \<open>HubProps\<close> has
    its invariant, \<open>HubDelivery\<close> forwarding and departure notices, \<open>HubSlots\<close> joining, holding,
    resuming and the end of a session. \<open>Room\<close> has the abstract specification, a room with one mailbox
    per participant, and that the hub refines it.
  \<^item> Relay (src/relay): \<open>RateLimit\<close> for ratelimit.go, \<open>Registry\<close> for registry.go over a store of hubs,
    \<open>Relay\<close> for relay.go (options, HTTP admission, hello, read and write loops), \<open>Stats\<close> for stats.go.
    \<open>Inbox\<close> has the goroutines that wait for a hub (\<open>snapshot\<close>, \<open>sweepLoop\<close>) as steps between those
    of the hubs; \<open>KeepAlive\<close> the read deadlines of both ends and the heartbeat.
  \<^item> Phrases and keys (src/phrase, src/crypto): \<open>Sha256\<close> and \<open>GoText\<close> model what the code uses of Go's
    library, \<open>Phrase\<close> and \<open>Crypto\<close> the two packages. PAKE, HKDF and AEAD are the parameter \<open>cryptolib\<close>
    with the laws \<open>lib_ok\<close> (agreement on equal passwords, opening what was sealed under equal inputs
    and nothing else), with an instance in \<open>Crypto\<close>.
  \<^item> Session ends (src/session): \<open>Session\<close> has the client with every operation of client.go,
    handshake.go and relayerror.go; \<open>SessionInv\<close> its invariant over all its transitions; \<open>SessionProps\<close> what
    two ends achieve together. \<open>NetURL\<close> models what \<open>sessionURL\<close> uses of net/url.
  \<^item> Client and relay together: \<open>Routing\<close> (the session id in the dialled URL), \<open>Opening\<close> (create and
    join), \<open>Transit\<close> (a message from one client through the relay to another), \<open>Lifecycle\<close> (closing,
    dropping, reconnecting), and this theory.
  \<^item> Services (src/service): \<open>Service\<close> has the interfaces as records of operations, \<open>Chat\<close> the chat
    service, \<open>Ctl\<close> the control service, \<open>Mux\<close> the routing, migration and rebinding. \<open>MuxClose\<close> has
    the mux's event stream as the interleaved steps of emit and shutdown. \<open>Migration\<close>, \<open>CatchUp\<close> and
    \<open>Sequence\<close> prove succession, announcing and late joining, and sequence supervision.
  \<^item> Dashboard (src/dashboard): \<open>GoWeb\<close> models Base64, escaping and number formats, \<open>Dashboard\<close> login,
    tokens and routes, \<open>Cluster\<close> the aggregation of statistics over nodes.

  \<^bold>\<open>How they interact.\<close> A client's frames are lists of bytes that the relay's \<open>hello\<close> and \<open>on_frame\<close> decode
  to commands of a hub; a hub's outboxes are what the other clients read; a client's events are what
  a mux dispatches; a mux sends through the connection operations of its client. \<open>answer_after\<close> is
  what a client reads after its first frame, once the hub has handled the commands that got in before it
  (\<open>first_answer\<close> when there are none), \<open>frame_arrives\<close> what a later frame does to the hub, and
  \<open>delivers\<close> in \<open>SessionProps\<close> what the relay makes of a frame; \<open>Service\<close> makes the session client an
  instance of the mux's connection.

  \<^bold>\<open>Modelling conventions.\<close> Unsigned integers are words and wrap; a map that the code iterates over is an
  association list whose order is the iteration order, so results hold for every order; a channel
  is a list with its capacity; a Go interface is a record of operations; errors are values; random
  bytes, the clock and what a socket delivers are arguments; text is a list of runes and its bytes
  are its UTF-8 form. A goroutine that loops over a channel is a function of the list it receives,
  so no fuel is needed: the loops are structural in that list, and the eviction loop, the hash, text
  splitting, query parsing and replacement have termination proofs. A list that ends before the loop
  does means that the goroutine still waits, which the results show as \<open>None\<close> or \<open>False\<close>. Where
  two goroutines wait for each other they are a step relation. A read with a deadline is a function
  of the times at which frames arrive.

  \<^bold>\<open>What is shown.\<close> Invariants of every reachable state of a hub, of a session end, of the relay's store,
  of the event stream, of a statistics query and of the sweeper (all through the locale
  \<open>transition_system\<close>); that every history of a hub is one of the abstract room (its extension
  \<open>simulation\<close>); that a waiting goroutine gets its answer in boundedly many turns of the hub (the
  locale \<open>inbox_command\<close>); what a connection's requests end with, on every branch; that what one client
  sends through the relay is what another one reads, also across a drop and a reconnect; agreement
  of joiner and host on keys and roles, rotation after a departure, and re-keying after a promotion;
  that survivors elect one host (over the locale \<open>connection\<close>, instantiated by the session client);
  that snapshots restore a service (the locale \<open>snapshot_service\<close>, instantiated by chat); that the
  event stream closes once, that shutdown ends, and that emit and shutdown are linearisable with respect to the
  one-step operations of the routing model; that heartbeats keep a connection and silence ends it;
  that a login at the dashboard lasts exactly as long as it should; and some places where the code
  does less than it says, among them that the state of a login redirect is accepted as a session
  and that a broadcast of maximal size can vanish in the relay.

  \<^bold>\<open>Not modelled.\<close> The capacity of a client's event channel: \<open>emit\<close> in \<open>Session\<close> appends, where the
  program waits once 256 events are unread, so the results on a client's read loop are about one whose
  events are consumed. Nor is that of the mux's stream in \<open>emit_m\<close>; \<open>MuxClose\<close> has it. Failure
  of the random source except in the chat service: the random bytes are arguments. The PAKE library's in-place
  update of a joiner's state: \<open>Finish\<close> works on a value, so a second flight for the same joiner is met
  by the state of the first. The WebSocket and HTTP libraries beyond what a read, a request or an end of a connection
  delivers; parsing of the host part of a URL and JSON, which are parameters; what the CBOR decoder
  refuses beyond malformed input (long arrays and maps, text that is not UTF-8), so that \<open>cbor_roundtrip\<close>
  idealises a law that the library keeps for values within these limits; how often the ticker of the sweeper fires; the
  generator behind resume tokens; the dashboard's page and the word list, which are data.
\<close>

section \<open>Away and back\<close>

text \<open>
  C3. Nothing is lost while a participant is away, end to end: when a client drops its connection
  (\<open>CloseNow\<close> or a network loss), the relay holds its slot; when another client then broadcasts messages of any
  services, and the first one reconnects, its read loop is handed exactly the relayed forms of
  these messages and emits exactly their events, in order, with the sender, services, sequence
  numbers and bodies as sent, provided the buffers have room and the keys agree.
\<close>

theorem nothing_lost_while_away:
  assumes "lib_ok L" "codecs_ok cb" "ws_ok ends" and "\<forall>x \<in> set rds. \<exists>f. readFrame x = Inr f"
    and "client_inv a" "client_inv b" "c_self b \<noteq> c_self a" "c_sid b = c_sid a" "c_keyed b"
    and "c_groupKey a \<in> set (c_groupKey b # c_prevKeys b)"
    and "hub_inv h" "find_client h (c_self b) = Some d" "\<not> cl_held d" "cl_token d = c_resumeToken b" "0 < h_grace h"
    and "broadcast_all L cb ms a = Some (a', frames)" "list_all2 (stamped cb (c_self a)) frames datas" "length datas < 64"
    and "\<forall>k e. find_client h k = Some e \<longrightarrow> length (cl_out e) + length datas \<le> 64"
    and "dial_url net (c_relayURL b) (c_sid b) = None"
    and "Encode (cResumeSession cb) MsgResumeSession (resume_request b) = Inr f"
    and "Encode (cJoinResult cb) MsgJoinResult (resume_result b h) = Inr g"
  shows "\<exists>acts h1. serve_conn cb (c_self b) (cl_gen d) (rds @ [ends Client_CloseNow]) =
       Some (acts @ [Command (leaveCmd (c_self b) (cl_gen d) True)]) \<and>
     hub_step cb (leaveCmd (c_self b) (cl_gen d) True) h = (h1, False) \<and>
     (\<forall>R x rest. registry_get (c_sid b) R = Some x \<longrightarrow>
        hc_hub (rl_heap R ! x) = fold (frame_arrives cb (c_self a)) frames h1 \<longrightarrow>
        (\<exists>b'. Reconnect cb net [] (map Some (first_answer cb opts now k tok f R) @ rest) b =
             Some (Inr b', map Some datas @ rest) \<and> reconnected b b' \<and>
           readLoop_c L cb (map (\<lambda>d. (r, Some d)) datas) b' =
             (b'\<lparr>c_events := sent_events (c_self a) (c_seqs a) ms\<rparr>, False)))"
proof -
  let ?p = "c_self b" and ?h' = "fold (frame_arrives cb (c_self a)) frames (holdSlot d h)"
  obtain acts where acts: "serve_conn cb ?p (cl_gen d) (rds @ [ends Client_CloseNow]) =
      Some (acts @ [Command (leaveCmd ?p (cl_gen d) True)])"
    using serve_conn_end [OF assms(3,4), of Client_CloseNow cb] by auto
  let ?d = "d\<lparr>cl_held := True, cl_gen := cl_gen d + 1, cl_out := datas, cl_timer := Some (cl_gen d + 1)\<rparr>"
  have held: "hub_step cb (leaveCmd ?p (cl_gen d) True) h = (holdSlot d h, False)" "hub_inv ?h'"
    "resume_result b ?h' = resume_result b h" "find_client ?h' ?p = Some ?d"
    using held_and_filled [OF assms(11-13,15) _ assms(17)] assms(7,18,19) by (simp_all add: Let_def sendBuffer_def)
  have buf: "buffered ?d = datas" using assms(18) by (simp add: buffered_def)
  have "\<exists>b'. Reconnect cb net [] (map Some (first_answer cb opts now k tok f R) @ rest) b =
        Some (Inr b', map Some datas @ rest) \<and> reconnected b b' \<and>
      readLoop_c L cb (map (\<lambda>d. (r, Some d)) datas) b' = (b'\<lparr>c_events := sent_events (c_self a) (c_seqs a) ms\<rparr>, False)"
    if R: "registry_get (c_sid b) R = Some x" "hc_hub (rl_heap R ! x) = ?h'" for R x rest
  proof -
    from Reconnect_back [OF assms(2,20,21) R(1), unfolded R(2) held(3), OF held(2,4) _ assms(22), of opts now k tok rest] assms(14)
    obtain b' where b': "Reconnect cb net [] (map Some (first_answer cb opts now k tok f R) @ rest) b =
        Some (Inr b', map Some datas @ rest)" "reconnected b b'" by (auto simp: buf)
    have "client_inv b'" using inv_Reconnect [OF assms(6)] b'(1) by blast
    then have "readLoop_c L cb (map (\<lambda>d. (r, Some d)) datas) b' =
        (b'\<lparr>c_events := c_events b' @ sent_events (c_self a) (c_seqs a) ms\<rparr>, False)"
      using b'(2) assms(5,7-10) by (intro read_all [OF assms(1,2) _ _ _ _ _ _ assms(16,17)]) (auto simp: reconnected_def)
    with b' show ?thesis by (auto simp: reconnected_def)
  qed
  with acts held(1) show ?thesis by blast
qed

theorem nothing_lost_while_away_witness:
  "\<exists>a' frames datas f h1 b'. broadcast_all demo_lib demo_codecs [([], ''chat'', [42])] (demo_end 1 1 RoleHost True) = Some (a', frames) \<and>
     hub_step demo_codecs (leaveCmd 2 1 True) demo_hub = (h1, False) \<and>
     Reconnect demo_codecs demo_net [] (map Some (first_answer demo_codecs demo_opts 0 40 [] f
       (demo_at (fold (frame_arrives demo_codecs 1) frames h1)))) (demo_member 2 [8]) = Some (Inr b', map Some datas) \<and>
     readLoop_c demo_lib demo_codecs (map (\<lambda>d. (demo_rand, Some d)) datas) b' =
       (b'\<lparr>c_events := [Frame 1 \<lparr>env_ServiceID = ''chat'', env_Seq = 1, env_Body = [42]\<rparr>]\<rparr>, False)"
proof -
  let ?a = "demo_end 1 1 RoleHost True" and ?b = "demo_member 2 [8]"
  have fl: "c_self ?a = 1" "c_sid ?a = replicate 16 0" "c_groupKey ?a = replicate 32 7" "c_seqs ?a = (\<lambda>_. 0)"
    by (simp_all add: demo_end_def)
  from demo_Broadcast_frames [of ?a] obtain a' payload data where
    a': "Broadcast_c demo_lib demo_codecs [] ''chat'' [42] ?a = (a', None)"
      "Encode (cBroadcast demo_codecs) MsgBroadcast \<lparr>b_From = 0, b_Payload = payload\<rparr> = Inr (last (c_sent a'))"
      "Encode (cBroadcast demo_codecs) MsgBroadcast \<lparr>b_From = 1, b_Payload = payload\<rparr> = Inr data"
    by (fastforce simp: demo_end_def)
  have rt: "cbor_roundtrip (cBroadcast demo_codecs)" using demo_codecs_ok by (simp add: codecs_ok_def)
  from Encode_decodes [OF rt a'(2)] a'(3) have "stamped demo_codecs 1 (last (c_sent a')) data" by (auto simp: stamped_def)
  then have st: "list_all2 (stamped demo_codecs (c_self ?a)) [last (c_sent a')] [data]" by (simp add: fl)
  have all: "broadcast_all demo_lib demo_codecs [([], ''chat'', [42])] ?a = Some (a', [last (c_sent a')])" using a'(1) by simp
  obtain f where f: "Encode (cResumeSession demo_codecs) MsgResumeSession (resume_request ?b) = Inr f"
    using demo_resume_encodes [of "[8]" 2] by auto
  obtain g where g: "Encode (cJoinResult demo_codecs) MsgJoinResult (resume_result ?b demo_hub) = Inr g"
    using demo_encode_JoinResult [of "peersExcept 2 demo_hub" "[8]"] by fastforce
  have dial: "dial_url demo_net (c_relayURL ?b) (c_sid ?b) = None" by (simp add: demo_dial)
  have d: "find_client demo_hub (c_self ?b) = Some (demo_client 2 20 [8])" by simp
  have room: "\<forall>k e. find_client demo_hub k = Some e \<longrightarrow> length (cl_out e) + length [data] \<le> 64" by (auto dest!: demo_room)
  have rds: "\<forall>x \<in> set []. \<exists>f. readFrame x = Inr f" by simp
  from nothing_lost_while_away [OF demo_lib_ok demo_codecs_ok demo_ends_ok rds demo_end_inv demo_member_inv _ _ _ _
      demo_hub_inv d _ _ _ all st _ room dial f g, where opts = demo_opts and now = 0 and k = 40 and tok = "[]" and r = demo_rand]
  obtain h1 where h1: "hub_step demo_codecs (leaveCmd 2 1 True) demo_hub = (h1, False)"
    "\<forall>R x rest. registry_get (replicate 16 0) R = Some x \<longrightarrow>
        hc_hub (rl_heap R ! x) = fold (frame_arrives demo_codecs 1) [last (c_sent a')] h1 \<longrightarrow>
        (\<exists>b'. Reconnect demo_codecs demo_net [] (map Some (first_answer demo_codecs demo_opts 0 40 [] f R) @ rest) ?b =
             Some (Inr b', map Some [data] @ rest) \<and> reconnected ?b b' \<and>
           readLoop_c demo_lib demo_codecs (map (\<lambda>d. (demo_rand, Some d)) [data]) b' =
             (b'\<lparr>c_events := sent_events 1 (\<lambda>_. 0) [([], ''chat'', [42])]\<rparr>, False))"
    by (auto simp: fl)
  from h1(2) [THEN spec [where x = "demo_at (fold (frame_arrives demo_codecs 1) [last (c_sent a')] h1)"], THEN spec [where x = 0],
      THEN spec [where x = "[]"]] obtain b' where
    "Reconnect demo_codecs demo_net [] (map Some (first_answer demo_codecs demo_opts 0 40 [] f
       (demo_at (fold (frame_arrives demo_codecs 1) [last (c_sent a')] h1)))) ?b = Some (Inr b', map Some [data])"
    "readLoop_c demo_lib demo_codecs (map (\<lambda>d. (demo_rand, Some d)) [data]) b' =
       (b'\<lparr>c_events := [Frame 1 \<lparr>env_ServiceID = ''chat'', env_Seq = 1, env_Body = [42]\<rparr>]\<rparr>, False)" by auto
  with all h1(1) show ?thesis by blast
qed

end
